(* ===== verification/Prelude.thy ===== *)
theory Prelude
  imports Main "HOL-Library.Word" "HOL-Library.Monad_Syntax"
begin

unbundle bit_operations_syntax

text \<open>
  Shared vocabulary of the development: the machine integers of the C sources, byte
  buffers with bounds-checked access, and the fault monad.

  A C function that can have undefined behaviour (an access outside its buffer, a
  dangling pointer, an oversized shift) or that may not return is a function into
  \<open>'a option\<close>, where \<open>None\<close> is that fault; \<open>do\<close> blocks of
  \<open>HOL-Library.Monad_Syntax\<close> sequence such steps. A buffer is the list of the bytes
  allocated behind the C pointer, so its length is the capacity of the allocation; the
  \<open>len\<close> arguments of the sources stay separate arguments. The Android ABIs the
  sources are built for are little-endian, which matters only where the code omits a
  byte-order conversion; the accessors here read and write network order, that is
  \<open>ntohs(*(uint16_t*) p)\<close> and \<open>*(uint16_t*) p = htons(v)\<close>.
\<close>

type_synonym u8 = "8 word"
type_synonym u16 = "16 word"
type_synonym u32 = "32 word"
type_synonym u64 = "64 word"
type_synonym bytes = "u8 list"

named_theorems mem_simps \<open>rules for bounds-checked buffer access\<close>

section \<open>Lists and options\<close>

lemma bind_eq_Some_iff: "Option.bind m f = Some y \<longleftrightarrow> (\<exists>x. m = Some x \<and> f x = Some y)"
  by (cases m) auto

lemma bind_eq_None_iff: "Option.bind m f = None \<longleftrightarrow> (\<forall>x. m = Some x \<longrightarrow> f x = None)"
  by (cases m) auto

lemma set_dropWhile_subset: "x \<in> set (dropWhile P xs) \<Longrightarrow> x \<in> set xs"
  by (induction xs) (auto split: if_splits)

section \<open>Bytes of machine integers\<close>

definition be16 :: "u8 \<Rightarrow> u8 \<Rightarrow> u16" where
  "be16 h l = ucast h * 256 + ucast l"

definition hi8 :: "u16 \<Rightarrow> u8" where
  "hi8 v = ucast (drop_bit 8 v)"

definition lo8 :: "u16 \<Rightarrow> u8" where
  "lo8 v = ucast v"

definition bswap16 :: "u16 \<Rightarrow> u16" where
  "bswap16 v = be16 (lo8 v) (hi8 v)"

lemma unat_u8 [simp]: "unat (x :: u8) < 256"
  by (rule order.strict_trans2, rule unsigned_less) simp

lemma unat_u16 [simp]: "unat (x :: u16) < 65536"
  by (rule order.strict_trans2, rule unsigned_less) simp

lemma unat_u32 [simp]: "unat (x :: u32) < 4294967296"
  by (rule order.strict_trans2, rule unsigned_less) simp

lemma unat_ucast_8_16 [simp]: "unat (ucast (x :: u8) :: u16) = unat x"
  using unat_u8 [of x] by (simp add: unsigned_ucast_eq take_bit_eq_mod del: unat_u8)

lemma unat_ucast_8_32 [simp]: "unat (ucast (x :: u8) :: u32) = unat x"
  using unat_u8 [of x] by (simp add: unsigned_ucast_eq take_bit_eq_mod del: unat_u8)

lemma unat_ucast_16_32 [simp]: "unat (ucast (x :: u16) :: u32) = unat x"
  using unat_u16 [of x] by (simp add: unsigned_ucast_eq take_bit_eq_mod del: unat_u16)

lemma unat_ucast_32_16 [simp]: "unat (ucast (x :: u32) :: u16) = unat x mod 65536"
  by (simp add: unsigned_ucast_eq take_bit_eq_mod)

lemma unat_ucast_16_8 [simp]: "unat (ucast (x :: u16) :: u8) = unat x mod 256"
  by (simp add: unsigned_ucast_eq take_bit_eq_mod)

lemma unat_be16: "unat (be16 h l) = unat h * 256 + unat l"
  using unat_u8 [of h] unat_u8 [of l]
  by (simp add: be16_def unat_word_ariths mod_less del: unat_u8)

lemma unat_hi8: "unat (hi8 v) = unat v div 256"
  using unat_u16 [of v]
  by (simp add: hi8_def unat_drop_bit_eq drop_bit_eq_div unat_div_distrib mod_less del: unat_u16)

lemma unat_lo8: "unat (lo8 v) = unat v mod 256"
  by (simp add: lo8_def)

lemma be16_hi8_lo8 [simp]: "be16 (hi8 v) (lo8 v) = v"
  by (rule word_unat_eq_iff [THEN iffD2]) (simp add: unat_be16 unat_hi8 unat_lo8)

lemma hi8_be16 [simp]: "hi8 (be16 h l) = h"
  using unat_u8 [of l]
  by (intro word_unat_eq_iff [THEN iffD2]) (simp add: unat_be16 unat_hi8 del: unat_u8)

lemma lo8_be16 [simp]: "lo8 (be16 h l) = l"
  using unat_u8 [of l]
  by (intro word_unat_eq_iff [THEN iffD2]) (simp add: unat_be16 unat_lo8 del: unat_u8)

lemma bswap16_bswap16 [simp]: "bswap16 (bswap16 v) = v"
  by (simp add: bswap16_def)

definition be32 :: "u16 \<Rightarrow> u16 \<Rightarrow> u32" where
  "be32 h l = ucast h * 65536 + ucast l"

definition hi16 :: "u32 \<Rightarrow> u16" where
  "hi16 v = ucast (drop_bit 16 v)"

definition lo16 :: "u32 \<Rightarrow> u16" where
  "lo16 v = ucast v"

lemma unat_be32: "unat (be32 h l) = unat h * 65536 + unat l"
  using unat_u16 [of h] unat_u16 [of l]
  by (simp add: be32_def unat_word_ariths mod_less del: unat_u16)

lemma unat_hi16: "unat (hi16 v) = unat v div 65536"
  using unat_u32 [of v]
  by (simp add: hi16_def unat_drop_bit_eq drop_bit_eq_div unat_div_distrib mod_less del: unat_u32)

lemma unat_lo16: "unat (lo16 v) = unat v mod 65536"
  by (simp add: lo16_def)

lemma be32_hi16_lo16 [simp]: "be32 (hi16 v) (lo16 v) = v"
  by (rule word_unat_eq_iff [THEN iffD2]) (simp add: unat_be32 unat_hi16 unat_lo16)

section \<open>Bounds-checked buffer access\<close>

definition rd8 :: "bytes \<Rightarrow> nat \<Rightarrow> u8 option" where
  "rd8 b i = (if i < length b then Some (b ! i) else None)"

definition rd16 :: "bytes \<Rightarrow> nat \<Rightarrow> u16 option" where
  "rd16 b i = (if i + 1 < length b then Some (be16 (b ! i) (b ! (i + 1))) else None)"

definition rd32 :: "bytes \<Rightarrow> nat \<Rightarrow> u32 option" where
  "rd32 b i = (if i + 3 < length b
     then Some (be32 (be16 (b ! i) (b ! (i + 1))) (be16 (b ! (i + 2)) (b ! (i + 3)))) else None)"

definition rd_bytes :: "bytes \<Rightarrow> nat \<Rightarrow> nat \<Rightarrow> bytes option" where
  "rd_bytes b i n = (if i + n \<le> length b then Some (take n (drop i b)) else None)"

definition wr_bytes :: "bytes \<Rightarrow> nat \<Rightarrow> bytes \<Rightarrow> bytes option" where
  "wr_bytes b i d =
     (if i + length d \<le> length b then Some (take i b @ d @ drop (i + length d) b) else None)"

definition wr16 :: "bytes \<Rightarrow> nat \<Rightarrow> u16 \<Rightarrow> bytes option" where
  "wr16 b i v = wr_bytes b i [hi8 v, lo8 v]"

definition wr32 :: "bytes \<Rightarrow> nat \<Rightarrow> u32 \<Rightarrow> bytes option" where
  "wr32 b i v = wr_bytes b i [hi8 (hi16 v), lo8 (hi16 v), hi8 (lo16 v), lo8 (lo16 v)]"

lemma wr_bytes_length [mem_simps]: "wr_bytes b i d = Some b' \<Longrightarrow> length b' = length b"
  by (auto simp: wr_bytes_def split: if_splits)

lemma wr_bytes_nth:
  "wr_bytes b i d = Some b' \<Longrightarrow> j < length b \<Longrightarrow>
     b' ! j = (if i \<le> j \<and> j < i + length d then d ! (j - i) else b ! j)"
  by (auto simp: wr_bytes_def nth_append min_def split: if_splits)

lemma wr16_length [mem_simps]: "wr16 b i v = Some b' \<Longrightarrow> length b' = length b"
  by (simp add: wr16_def mem_simps)

lemma wr32_length [mem_simps]: "wr32 b i v = Some b' \<Longrightarrow> length b' = length b"
  by (simp add: wr32_def mem_simps)

lemma wr16_Some: "(\<exists>b'. wr16 b i v = Some b') \<longleftrightarrow> i + 2 \<le> length b"
  by (simp add: wr16_def wr_bytes_def)

lemma wr32_Some: "(\<exists>b'. wr32 b i v = Some b') \<longleftrightarrow> i + 4 \<le> length b"
  by (simp add: wr32_def wr_bytes_def)

lemma rd16_Some: "(\<exists>v. rd16 b i = Some v) \<longleftrightarrow> i + 2 \<le> length b"
  by (auto simp: rd16_def)

lemma wr16_nth:
  "wr16 b i v = Some b' \<Longrightarrow> j < length b \<Longrightarrow>
     b' ! j = (if j = i then hi8 v else if j = i + 1 then lo8 v else b ! j)"
  by (auto simp: wr16_def dest!: wr_bytes_nth [where j = j])

lemma rd16_wr16_same: "wr16 b i v = Some b' \<Longrightarrow> rd16 b' i = Some v"
  using wr16_Some [of b i v] by (auto simp: rd16_def wr16_length wr16_nth)

lemma rd16_wr16_other:
  "wr16 b i v = Some b' \<Longrightarrow> j + 2 \<le> i \<or> i + 2 \<le> j \<Longrightarrow> rd16 b' j = rd16 b j"
  by (auto simp: rd16_def wr16_length wr16_nth)

lemma rd8_wr16_other:
  "wr16 b i v = Some b' \<Longrightarrow> j < i \<or> i + 2 \<le> j \<Longrightarrow> rd8 b' j = rd8 b j"
  by (auto simp: rd8_def wr16_length wr16_nth)

lemma wr32_nth:
  "wr32 b i v = Some b' \<Longrightarrow> j < length b \<Longrightarrow> j < i \<or> i + 4 \<le> j \<Longrightarrow> b' ! j = b ! j"
  by (auto simp: wr32_def dest!: wr_bytes_nth [where j = j])

lemma rd16_wr32_other:
  "wr32 b i v = Some b' \<Longrightarrow> j + 2 \<le> i \<or> i + 4 \<le> j \<Longrightarrow> rd16 b' j = rd16 b j"
  by (auto simp: rd16_def wr32_length wr32_nth)

lemma rd8_wr32_other:
  "wr32 b i v = Some b' \<Longrightarrow> j < i \<or> i + 4 \<le> j \<Longrightarrow> rd8 b' j = rd8 b j"
  by (auto simp: rd8_def wr32_length wr32_nth)

lemma rd32_wr32_other:
  "wr32 b i v = Some b' \<Longrightarrow> j + 4 \<le> i \<or> i + 4 \<le> j \<Longrightarrow> rd32 b' j = rd32 b j"
  by (auto simp: rd32_def wr32_length wr32_nth)

lemma rd32_wr16_other:
  "wr16 b i v = Some b' \<Longrightarrow> j + 4 \<le> i \<or> i + 2 \<le> j \<Longrightarrow> rd32 b' j = rd32 b j"
  by (auto simp: rd32_def wr16_length wr16_nth)

lemma rd32_wr32_same: "wr32 b i v = Some b' \<Longrightarrow> rd32 b' i = Some v"
proof -
  assume w: "wr32 b i v = Some b'"
  then have len: "length b' = length b" and bnd: "i + 4 \<le> length b"
    using wr32_Some [of b i v] by (auto simp: mem_simps)
  from w have "b' ! (i + k) = [hi8 (hi16 v), lo8 (hi16 v), hi8 (lo16 v), lo8 (lo16 v)] ! k"
    if "k < 4" for k
    using that bnd by (auto simp: wr32_def dest!: wr_bytes_nth [where j = "i + k"])
  from this [of 0] this [of 1] this [of 2] this [of 3] show ?thesis
    using len bnd by (simp add: rd32_def numeral_2_eq_2 numeral_3_eq_3)
qed

end
