(* ===== verification/Queues.thy ===== *)
theory Queues
  imports Prelude
begin

text \<open>
  The packet queue of \<open>ocpa/queues.c\<close>: a singly linked list on the C heap with a head
  and a tail pointer. Addresses are numbers and 0 is \<open>NULL\<close>; \<open>malloc\<close> is the address
  it returned, passed as an argument (0 when it failed), and \<open>free\<close> removes the cell, so
  a later access through a stale pointer is a fault (\<open>None\<close>). The buffer of a link is
  owned by the link, so it is stored in the cell.

  The contract of the queue is the locale \<open>fifo\<close>; the heap code is an instance of it.
\<close>

section \<open>The heap cells\<close>

record queue_link =
  ql_next :: nat
  ql_buff :: "bytes option"
  ql_size :: int

record queue =
  head_link :: nat
  tail_link :: nat

record qmem =
  links :: "nat \<Rightarrow> queue_link option"
  queues :: "nat \<Rightarrow> queue option"

definition set_link :: "qmem \<Rightarrow> nat \<Rightarrow> queue_link \<Rightarrow> qmem" where
  "set_link m p l = m\<lparr>links := (links m)(p \<mapsto> l)\<rparr>"

definition set_queue :: "qmem \<Rightarrow> nat \<Rightarrow> queue \<Rightarrow> qmem" where
  "set_queue m q s = m\<lparr>queues := (queues m)(q \<mapsto> s)\<rparr>"

lemma cell_simps [simp]:
  "links (set_link m p l) = (links m)(p \<mapsto> l)" "queues (set_link m p l) = queues m"
  "links (set_queue m q s) = links m" "queues (set_queue m q s) = (queues m)(q \<mapsto> s)"
  by (simp_all add: set_link_def set_queue_def)

section \<open>The operations\<close>

definition queue_link_init :: "qmem \<Rightarrow> nat \<Rightarrow> nat \<times> qmem" where
  "queue_link_init m p =
     (if p \<noteq> 0 then (p, set_link m p \<lparr>ql_next = 0, ql_buff = None, ql_size = 0\<rparr>) else (p, m))"

definition queue_link_deinit :: "qmem \<Rightarrow> nat \<Rightarrow> (bool \<times> qmem) option" where
  "queue_link_deinit m ql =
     (if ql = 0 then Some (False, m)
      else do {
        _ \<leftarrow> links m ql;
        Some (True, m\<lparr>links := (links m)(ql := None)\<rparr>)
      })"

definition queue_init :: "qmem \<Rightarrow> nat \<Rightarrow> nat \<times> qmem" where
  "queue_init m p =
     (if p \<noteq> 0 then (p, set_queue m p \<lparr>head_link = 0, tail_link = 0\<rparr>) else (p, m))"

definition queue_get :: "qmem \<Rightarrow> nat \<Rightarrow> (nat \<times> qmem) option" where
  "queue_get m q =
     (if q = 0 then Some (0, m)
      else do {
        s \<leftarrow> queues m q;
        if head_link s = 0 then Some (0, m)
        else do {
          let ql = head_link s;
          l \<leftarrow> links m ql;
          let m = set_queue m q
            (if ql = tail_link s then s\<lparr>head_link := ql_next l, tail_link := 0\<rparr>
             else s\<lparr>head_link := ql_next l\<rparr>);
          Some (ql, set_link m ql (l\<lparr>ql_next := 0\<rparr>))
        }
      })"

definition queue_put :: "qmem \<Rightarrow> nat \<Rightarrow> nat \<Rightarrow> (bool \<times> qmem) option" where
  "queue_put m q ql =
     (if q = 0 \<or> ql = 0 then Some (False, m)
      else do {
        l \<leftarrow> links m ql;
        let m = set_link m ql (l\<lparr>ql_next := 0\<rparr>);
        s \<leftarrow> queues m q;
        if tail_link s \<noteq> 0
        then do {
          t \<leftarrow> links m (tail_link s);
          let m = set_link m (tail_link s) (t\<lparr>ql_next := ql\<rparr>);
          Some (True, set_queue m q (s\<lparr>tail_link := ql\<rparr>))
        }
        else Some (True, set_queue m q (s\<lparr>head_link := ql, tail_link := ql\<rparr>))
      })"

text \<open>The loop of \<open>queue_deinit\<close>: it runs until \<open>queue_get\<close> returns \<open>NULL\<close>.\<close>

partial_function (option) queue_drain :: "qmem \<Rightarrow> nat \<Rightarrow> qmem option" where
  "queue_drain m q =
     Option.bind (queue_get m q) (\<lambda>(ql, m).
       if ql = 0 then Some m
       else Option.bind (queue_link_deinit m ql) (\<lambda>(_, m). queue_drain m q))"

definition queue_deinit :: "qmem \<Rightarrow> nat \<Rightarrow> (bool \<times> qmem) option" where
  "queue_deinit m q =
     (if q = 0 then Some (False, m)
      else do {
        m \<leftarrow> queue_drain m q;
        Some (True, m\<lparr>queues := (queues m)(q := None)\<rparr>)
      })"

section \<open>What a queue on the heap holds\<close>

type_synonym packet_entry = "nat \<times> bytes option \<times> int"

fun chain :: "(nat \<Rightarrow> queue_link option) \<Rightarrow> nat \<Rightarrow> packet_entry list \<Rightarrow> bool" where
  "chain h p [] \<longleftrightarrow> p = 0"
| "chain h p ((a, b, n) # xs) \<longleftrightarrow>
     p = a \<and> a \<noteq> 0 \<and>
     (\<exists>nx. h a = Some \<lparr>ql_next = nx, ql_buff = b, ql_size = n\<rparr> \<and> chain h nx xs)"

definition queue_rep :: "nat \<Rightarrow> qmem \<Rightarrow> packet_entry list \<Rightarrow> bool" where
  "queue_rep q m xs \<longleftrightarrow> q \<noteq> 0 \<and> distinct (map fst xs) \<and>
     (\<exists>hd. queues m q = Some \<lparr>head_link = hd,
             tail_link = (if xs = [] then 0 else fst (last xs))\<rparr> \<and> chain (links m) hd xs)"

text \<open>A link that is allocated, filled and not yet in the queue.\<close>

definition link_ready :: "qmem \<Rightarrow> packet_entry list \<Rightarrow> packet_entry \<Rightarrow> bool" where
  "link_ready m xs e \<longleftrightarrow> fst e \<noteq> 0 \<and> fst e \<notin> fst ` set xs \<and>
     (\<exists>l. links m (fst e) = Some l \<and> ql_buff l = fst (snd e) \<and> ql_size l = snd (snd e))"

lemma chain_update_other:
  "a \<notin> fst ` set xs \<Longrightarrow> chain (h(a := c)) p xs = chain h p xs"
  by (induction h p xs rule: chain.induct) auto

lemma chain_append_link:
  assumes "chain h p xs" "xs \<noteq> []" "distinct (map fst xs)" "a \<notin> fst ` set xs" "a \<noteq> 0"
    and "h (fst (last xs)) = Some t"
    and "h' = h(a \<mapsto> \<lparr>ql_next = 0, ql_buff = b, ql_size = n\<rparr>, fst (last xs) \<mapsto> t\<lparr>ql_next := a\<rparr>)"
  shows "chain h' p (xs @ [(a, b, n)])"
  using assms
proof (induction xs arbitrary: p)
  case Nil
  then show ?case by simp
next
  case (Cons x xs)
  obtain c d k where x: "x = (c, d, k)" by (cases x)
  from Cons.prems(1) x obtain nx where pc: "p = c" "c \<noteq> 0"
    and hc: "h c = Some \<lparr>ql_next = nx, ql_buff = d, ql_size = k\<rparr>" and ch: "chain h nx xs"
    by auto
  show ?case
  proof (cases "xs = []")
    case True
    then show ?thesis using Cons.prems x pc hc by auto
  next
    case False
    then have "fst (last xs) \<in> fst ` set xs" by simp
    then have "h' c = h c" using Cons.prems x False by auto
    moreover have "chain h' nx (xs @ [(a, b, n)])"
      using Cons.IH [OF ch False] Cons.prems x False by auto
    ultimately show ?thesis using x pc hc by auto
  qed
qed

lemma queue_get_empty:
  "queue_rep q m [] \<Longrightarrow> queue_get m q = Some (0, m)"
  by (auto simp: queue_rep_def queue_get_def)

lemma queue_get_Cons:
  assumes "queue_rep q m ((a, b, n) # xs)"
  shows "\<exists>m'. queue_get m q = Some (a, m') \<and> queue_rep q m' xs \<and>
           links m' = (links m)(a \<mapsto> \<lparr>ql_next = 0, ql_buff = b, ql_size = n\<rparr>) \<and> a \<noteq> 0 \<and>
           (\<forall>q'. q' \<noteq> q \<longrightarrow> queues m' q' = queues m q')"
proof -
  from assms obtain nx where q0: "q \<noteq> 0" and a0: "a \<noteq> 0" and d: "a \<notin> fst ` set xs"
      "distinct (map fst xs)"
    and qs: "queues m q = Some \<lparr>head_link = a, tail_link = fst (last ((a, b, n) # xs))\<rparr>"
    and la: "links m a = Some \<lparr>ql_next = nx, ql_buff = b, ql_size = n\<rparr>"
    and ch: "chain (links m) nx xs"
    by (auto simp: queue_rep_def)
  have ch': "chain ((links m)(a \<mapsto> \<lparr>ql_next = 0, ql_buff = b, ql_size = n\<rparr>)) nx xs"
    using ch d by (simp add: chain_update_other)
  show ?thesis
  proof (cases "xs = []")
    case True
    then show ?thesis using q0 a0 qs la ch
      by (auto simp: queue_get_def queue_rep_def Let_def)
  next
    case False
    then have "fst (last xs) \<in> fst ` set xs" by simp
    then have ne: "a \<noteq> fst (last xs)" using d by auto
    then show ?thesis using False q0 a0 qs la ch' d
      by (auto simp: queue_get_def queue_rep_def Let_def)
  qed
qed

lemma queue_put_rep:
  assumes rep: "queue_rep q m xs" and rdy: "link_ready m xs (a, b, n)"
  shows "\<exists>m'. queue_put m q a = Some (True, m') \<and> queue_rep q m' (xs @ [(a, b, n)]) \<and>
           (\<forall>p. p \<noteq> a \<and> p \<notin> fst ` set xs \<longrightarrow> links m' p = links m p) \<and>
           (\<forall>q'. q' \<noteq> q \<longrightarrow> queues m' q' = queues m q')"
proof -
  from rep obtain hd where q0: "q \<noteq> 0" and d: "distinct (map fst xs)"
    and qs: "queues m q = Some \<lparr>head_link = hd, tail_link = (if xs = [] then 0 else fst (last xs))\<rparr>"
    and ch: "chain (links m) hd xs"
    by (auto simp: queue_rep_def)
  from rdy obtain nx where a0: "a \<noteq> 0" and an: "a \<notin> fst ` set xs"
    and la: "links m a = Some \<lparr>ql_next = nx, ql_buff = b, ql_size = n\<rparr>"
    by (auto simp: link_ready_def) (metis queue_link.surjective unit.exhaust)
  show ?thesis
  proof (cases "xs = []")
    case True
    then show ?thesis using q0 qs a0 la by (auto simp: queue_put_def queue_rep_def)
  next
    case False
    have memch: "chain h p ys \<Longrightarrow> y \<in> set ys \<Longrightarrow> fst y \<noteq> 0 \<and> (\<exists>t. h (fst y) = Some t)"
      for h p ys y
      by (induction h p ys rule: chain.induct) auto
    have l0: "fst (last xs) \<noteq> 0" and "\<exists>t. links m (fst (last xs)) = Some t"
      using memch [OF ch, of "last xs"] False by auto
    then obtain t where t: "links m (fst (last xs)) = Some t" by blast
    have la': "fst (last xs) \<noteq> a" using an False by (metis image_eqI last_in_set)
    let ?h = "(links m)(a \<mapsto> \<lparr>ql_next = 0, ql_buff = b, ql_size = n\<rparr>,
                        fst (last xs) \<mapsto> t\<lparr>ql_next := a\<rparr>)"
    have "chain ?h hd (xs @ [(a, b, n)])"
      by (rule chain_append_link [OF ch False d an a0 t refl])
    moreover have "fst (last xs) \<in> fst ` set xs" using False by simp
    ultimately show ?thesis using False q0 qs a0 la t l0 la' d an
      by (auto simp: queue_put_def queue_rep_def)
  qed
qed

lemma queue_drain_frees:
  "queue_rep q m xs \<Longrightarrow>
     \<exists>m'. queue_drain m q = Some m' \<and> queue_rep q m' [] \<and>
          (\<forall>p. links m' p = (if p \<in> fst ` set xs then None else links m p)) \<and>
          (\<forall>q'. q' \<noteq> q \<longrightarrow> queues m' q' = queues m q')"
proof (induction xs arbitrary: m)
  case Nil
  then show ?case
    by (intro exI [of _ m]) (simp add: queue_drain.simps queue_get_empty)
next
  case (Cons x xs)
  obtain a b n where x: "x = (a, b, n)" by (cases x)
  from queue_get_Cons [OF Cons.prems [unfolded x]] obtain m1 where
    g: "queue_get m q = Some (a, m1)" and r1: "queue_rep q m1 xs"
    and l1: "links m1 = (links m)(a \<mapsto> \<lparr>ql_next = 0, ql_buff = b, ql_size = n\<rparr>)"
    and a0: "a \<noteq> 0" and fr: "\<forall>q'. q' \<noteq> q \<longrightarrow> queues m1 q' = queues m q'" by auto
  let ?m2 = "m1\<lparr>links := (links m1)(a := None)\<rparr>"
  have dl: "queue_link_deinit m1 a = Some (True, ?m2)"
    using a0 l1 by (simp add: queue_link_deinit_def)
  have "a \<notin> fst ` set xs" using Cons.prems x by (auto simp: queue_rep_def)
  then have r2: "queue_rep q ?m2 xs"
    using r1 by (auto simp: queue_rep_def chain_update_other)
  from Cons.IH [OF r2] obtain m' where
    "queue_drain ?m2 q = Some m'" "queue_rep q m' []"
    "\<forall>p. links m' p = (if p \<in> fst ` set xs then None else links ?m2 p)"
    "\<forall>q'. q' \<noteq> q \<longrightarrow> queues m' q' = queues ?m2 q'" by auto
  then show ?case using g dl a0 l1 x fr
    by (intro exI [of _ m']) (auto simp: queue_drain.simps [of m q])
qed

section \<open>The contract\<close>

text \<open>
  A run of puts and a run of gets over any pair of operations. \<open>get_many\<close> collects the
  addresses that \<open>n\<close> calls return.
\<close>

fun put_many :: "('m \<Rightarrow> 'a \<Rightarrow> (bool \<times> 'm) option) \<Rightarrow> 'm \<Rightarrow> 'a list \<Rightarrow> 'm option" where
  "put_many put m [] = Some m"
| "put_many put m (x # xs) = do { (_, m) \<leftarrow> put m x; put_many put m xs }"

fun get_many :: "('m \<Rightarrow> ('a \<times> 'm) option) \<Rightarrow> 'm \<Rightarrow> nat \<Rightarrow> ('a list \<times> 'm) option" where
  "get_many get m 0 = Some ([], m)"
| "get_many get m (Suc n) = do { (x, m) \<leftarrow> get m; (xs, m) \<leftarrow> get_many get m n; Some (x # xs, m) }"

locale fifo =
  fixes get :: "'m \<Rightarrow> ('a \<times> 'm) option"
    and put :: "'m \<Rightarrow> 'a \<Rightarrow> (bool \<times> 'm) option"
    and null :: 'a
    and addr :: "'e \<Rightarrow> 'a"
    and holds :: "'m \<Rightarrow> 'e list \<Rightarrow> bool"
    and ready :: "'m \<Rightarrow> 'e list \<Rightarrow> 'e \<Rightarrow> bool"
  assumes get_empty: "holds m [] \<Longrightarrow> get m = Some (null, m)"
    and get_first: "holds m (x # xs) \<Longrightarrow> \<exists>m'. get m = Some (addr x, m') \<and> holds m' xs"
    and put_last: "holds m xs \<Longrightarrow> ready m xs x \<Longrightarrow>
      \<exists>m'. put m (addr x) = Some (True, m') \<and> holds m' (xs @ [x])"
    and put_ready: "holds m xs \<Longrightarrow> ready m xs x \<Longrightarrow> ready m xs y \<Longrightarrow> addr x \<noteq> addr y \<Longrightarrow>
      put m (addr x) = Some (r, m') \<Longrightarrow> ready m' (xs @ [x]) y"
begin

lemma put_many_holds:
  "holds m xs \<Longrightarrow> \<forall>y \<in> set ys. ready m xs y \<Longrightarrow> distinct (map addr ys) \<Longrightarrow>
     \<exists>m'. put_many put m (map addr ys) = Some m' \<and> holds m' (xs @ ys)"
proof (induction ys arbitrary: m xs)
  case Nil
  then show ?case by simp
next
  case (Cons y ys)
  then obtain m1 where p: "put m (addr y) = Some (True, m1)" and h: "holds m1 (xs @ [y])"
    using put_last [OF Cons.prems(1), of y] by auto
  have "\<forall>z \<in> set ys. ready m1 (xs @ [y]) z"
  proof
    fix z
    assume z: "z \<in> set ys"
    then have "addr y \<noteq> addr z" using Cons.prems(3) by auto
    then show "ready m1 (xs @ [y]) z"
      using put_ready [OF Cons.prems(1) _ _ _ p] Cons.prems(2) z by simp
  qed
  moreover have "distinct (map addr ys)" using Cons.prems by simp
  ultimately obtain m' where "put_many put m1 (map addr ys) = Some m'" "holds m' ((xs @ [y]) @ ys)"
    using Cons.IH [OF h] by blast
  then show ?case by (simp add: p)
qed

lemma get_many_holds:
  "holds m (xs @ ys) \<Longrightarrow>
     \<exists>m'. get_many get m (length xs) = Some (map addr xs, m') \<and> holds m' ys"
proof (induction xs arbitrary: m)
  case Nil
  then show ?case by simp
next
  case (Cons x xs)
  then obtain m1 where g: "get m = Some (addr x, m1)" and h: "holds m1 (xs @ ys)"
    using get_first [of m x "xs @ ys"] by auto
  from Cons.IH [OF h] obtain m' where
    "get_many get m1 (length xs) = Some (map addr xs, m')" "holds m' ys" by blast
  then show ?case by (auto simp: g)
qed

lemma in_order:
  assumes "holds m []" "\<forall>y \<in> set ys. ready m [] y" "distinct (map addr ys)"
  shows "\<exists>m1 m2. put_many put m (map addr ys) = Some m1 \<and>
           get_many get m1 (length ys) = Some (map addr ys, m2) \<and> get m2 = Some (null, m2)"
proof -
  from put_many_holds [OF assms] obtain m1 where
    p: "put_many put m (map addr ys) = Some m1" and h: "holds m1 (ys @ [])" by auto
  from get_many_holds [OF h] get_empty show ?thesis by (auto simp: p)
qed

end

interpretation heap_queue: fifo "\<lambda>m. queue_get m q" "\<lambda>m. queue_put m q" 0 fst
  "queue_rep q" link_ready for q
proof
  fix m xs r m' and x y :: packet_entry
  assume rep: "queue_rep q m xs" and rx: "link_ready m xs x" and ry: "link_ready m xs y"
    and ne: "fst x \<noteq> fst y" and p: "queue_put m q (fst x) = Some (r, m')"
  obtain a b n where x: "x = (a, b, n)" by (cases x)
  from queue_put_rep [OF rep rx [unfolded x]] p x ry ne
  show "link_ready m' (xs @ [x]) y"
    by (auto simp: link_ready_def)
next
  fix m xs and x :: packet_entry
  assume "queue_rep q m xs" "link_ready m xs x"
  then show "\<exists>m'. queue_put m q (fst x) = Some (True, m') \<and> queue_rep q m' (xs @ [x])"
    by (cases x) (auto dest: queue_put_rep)
next
  fix m xs and x :: packet_entry
  assume "queue_rep q m (x # xs)"
  then show "\<exists>m'. queue_get m q = Some (fst x, m') \<and> queue_rep q m' xs"
    by (cases x) (auto dest: queue_get_Cons)
qed (rule queue_get_empty)

lemma queue_init_rep: "p \<noteq> 0 \<Longrightarrow> queue_rep p (snd (queue_init m p)) []"
  by (simp add: queue_init_def queue_rep_def)

lemma queue_link_init_ready:
  "p \<noteq> 0 \<Longrightarrow> p \<notin> fst ` set xs \<Longrightarrow>
     link_ready (snd (queue_link_init m p)) xs (p, None, 0)"
  by (simp add: queue_link_init_def link_ready_def)

section \<open>Properties\<close>

text \<open>C8: packets leave the queue in the order in which they were put in, and the queue is
  empty afterwards: any number of \<open>queue_put\<close> calls on an empty queue followed by as many
  \<open>queue_get\<close> calls return the same links in the same order, and the next
  \<open>queue_get\<close> returns \<open>NULL\<close>. No call faults on the heap.\<close>

theorem queue_fifo_order:
  assumes "queue_rep q m []" "\<forall>e \<in> set es. link_ready m [] e" "distinct (map fst es)"
  shows "\<exists>m1 m2. put_many (\<lambda>m. queue_put m q) m (map fst es) = Some m1 \<and>
           get_many (\<lambda>m. queue_get m q) m1 (length es) = Some (map fst es, m2) \<and>
           queue_get m2 q = Some (0, m2)"
  using assms by (rule heap_queue.in_order)

definition two_links :: qmem where
  "two_links = set_link (set_link (set_queue \<lparr>links = \<lambda>_. None, queues = \<lambda>_. None\<rparr> 1
      \<lparr>head_link = 0, tail_link = 0\<rparr>)
      2 \<lparr>ql_next = 0, ql_buff = Some [1, 2], ql_size = 2\<rparr>)
      3 \<lparr>ql_next = 9, ql_buff = None, ql_size = 0\<rparr>"

lemma queue_fifo_order_witness:
  "\<exists>m1 m2. put_many (\<lambda>m. queue_put m 1) two_links [2, 3] = Some m1 \<and>
     get_many (\<lambda>m. queue_get m 1) m1 2 = Some ([2, 3], m2) \<and> queue_get m2 1 = Some (0, m2)"
  using queue_fifo_order [of 1 two_links "[(2, Some [1, 2], 2), (3, None, 0)]"]
  by (simp add: two_links_def queue_rep_def link_ready_def numeral_2_eq_2)



end
