(* ===== verification/IpSum.thy ===== *)
theory IpSum
  imports Prelude
begin

text \<open>
  The Internet checksum routines of \<open>ocpa/iputils.c\<close>. The abstract value is the one's
  complement acc \<open>ocs\<close> of natural numbers; \<open>ip4_update_sum\<close> is shown to refine its
  addition, and from that the header, TCP and UDP routines are shown to store a checksum
  under which the whole covered data sums to \<open>0xffff\<close>, which is what a receiver checks.

  A routine that patches the packet returns its value and the new buffer; \<open>None\<close> means
  that it read or wrote outside the buffer. Where the C code receives a pointer into the
  packet, the model receives the packet and the offset.
\<close>

section \<open>The code\<close>

definition ip4_update_sum :: "u32 \<Rightarrow> u16 \<Rightarrow> u32" where
  "ip4_update_sum previous data =
     (let acc = previous + ucast data;
          acc = acc + drop_bit 16 acc
      in acc AND 65535)"

definition ip_sum_to_checksum :: "u32 \<Rightarrow> u16" where
  "ip_sum_to_checksum acc =
     (let checksum = NOT (ucast acc :: u16) in if checksum = 0 then 65535 else checksum)"

definition ip4_update_checksum :: "u16 \<Rightarrow> u16 \<Rightarrow> u16 \<Rightarrow> u16" where
  "ip4_update_checksum old_checksum old_data new_data =
     (let acc = (NOT (ucast old_checksum :: u32)) AND 65535;
          acc = ip4_update_sum acc old_data;
          acc = ip4_update_sum acc (NOT new_data)
      in ip_sum_to_checksum acc)"

text \<open>The summing loop that the routines share: \<open>seq\<close> is \<open>seq_num\<close>, \<open>skip\<close> the index of
  the checksum field, \<open>base\<close> the offset of the first word.\<close>

fun checksum_loop :: "bytes \<Rightarrow> nat \<Rightarrow> nat \<Rightarrow> nat \<Rightarrow> nat \<Rightarrow> u32 \<Rightarrow> u32 option" where
  "checksum_loop buf base skip seq 0 acc = Some acc"
| "checksum_loop buf base skip seq (Suc cycles) acc =
     (if seq = skip then checksum_loop buf base skip (Suc seq) cycles acc
      else do {
        w \<leftarrow> rd16 buf (base + 2 * seq);
        checksum_loop buf base skip (Suc seq) cycles (ip4_update_sum acc w)
      })"

text \<open>The last byte of an odd number of bytes; \<open>htons\<close> moves it to the high half.\<close>

definition odd_byte_sum :: "bytes \<Rightarrow> nat \<Rightarrow> nat \<Rightarrow> u32 \<Rightarrow> u32 option" where
  "odd_byte_sum buf base len acc =
     (if odd len then do {
        odd_byte \<leftarrow> rd8 buf (base + 2 * (len div 2));
        Some (ip4_update_sum acc (be16 odd_byte 0))
      }
      else Some acc)"

definition hdr_ihl :: "u8 \<Rightarrow> nat" where
  "hdr_ihl b0 = unat (b0 AND 15)"

definition ip4_calc_ip_checksum :: "bytes \<Rightarrow> int \<Rightarrow> (u16 \<times> bytes) option" where
  "ip4_calc_ip_checksum buf len =
     (if len < 20 then Some (0, buf)
      else do {
        b0 \<leftarrow> rd8 buf 0;
        let cycles = hdr_ihl b0 * 2;
        if len < int (cycles * 2) then Some (0, buf)
        else do {
          acc \<leftarrow> checksum_loop buf 0 5 0 cycles 0;
          let checksum = ip_sum_to_checksum acc;
          buf \<leftarrow> wr16 buf 10 checksum;
          Some (checksum, buf)
        }
      })"

definition ip4_calc_pseudoheader_sum :: "bytes \<Rightarrow> u32 option" where
  "ip4_calc_pseudoheader_sum buf = do {
     s6 \<leftarrow> rd16 buf 12; s7 \<leftarrow> rd16 buf 14;
     d8 \<leftarrow> rd16 buf 16; d9 \<leftarrow> rd16 buf 18;
     proto \<leftarrow> rd8 buf 9;
     tot_len \<leftarrow> rd16 buf 2;
     b0 \<leftarrow> rd8 buf 0;
     let acc = ip4_update_sum 0 s6;
     let acc = ip4_update_sum acc s7;
     let acc = ip4_update_sum acc d8;
     let acc = ip4_update_sum acc d9;
     let acc = ip4_update_sum acc (ucast proto);
     Some (ip4_update_sum acc (tot_len - of_nat (hdr_ihl b0 * 4)))
   }"

definition ip4_calc_tcp_checksum :: "bytes \<Rightarrow> int \<Rightarrow> (u16 \<times> bytes) option" where
  "ip4_calc_tcp_checksum buf len =
     (if len < 40 then Some (0, buf)
      else do {
        b0 \<leftarrow> rd8 buf 0;
        tot_len \<leftarrow> rd16 buf 2;
        let offs = hdr_ihl b0 * 4;
        let tcp_len = unat (tot_len - of_nat offs);
        acc \<leftarrow> ip4_calc_pseudoheader_sum buf;
        acc \<leftarrow> checksum_loop buf offs 8 0 (tcp_len div 2) acc;
        acc \<leftarrow> odd_byte_sum buf offs tcp_len acc;
        let checksum = ip_sum_to_checksum acc;
        buf \<leftarrow> wr16 buf (offs + 16) checksum;
        Some (checksum, buf)
      })"

definition ip4_calc_udp_checksum :: "bytes \<Rightarrow> int \<Rightarrow> (u16 \<times> bytes) option" where
  "ip4_calc_udp_checksum buf len =
     (if len < 40 then Some (0, buf)
      else do {
        b0 \<leftarrow> rd8 buf 0;
        buf \<leftarrow> wr16 buf (hdr_ihl b0 * 4 + 6) 0;
        Some (0, buf)
      })"

fun sum_words_from :: "bytes \<Rightarrow> nat \<Rightarrow> nat \<Rightarrow> u32 \<Rightarrow> u32 option" where
  "sum_words_from buf i 0 acc = Some acc"
| "sum_words_from buf i (Suc n) acc = do {
     w \<leftarrow> rd16 buf i;
     sum_words_from buf (i + 2) n (ip4_update_sum acc w)
   }"

text \<open>Eight words of the source address at 8, then eight of the destination at 24.\<close>

definition ip6_calc_common_pseudoheader_sum :: "bytes \<Rightarrow> u32 option" where
  "ip6_calc_common_pseudoheader_sum buf = do {
     acc \<leftarrow> sum_words_from buf 8 8 0;
     sum_words_from buf 24 8 acc
   }"

definition ip6_calc_pseudoheader_sum :: "bytes \<Rightarrow> u8 \<Rightarrow> u32 \<Rightarrow> u32 option" where
  "ip6_calc_pseudoheader_sum buf proto pktlen = do {
     acc \<leftarrow> ip6_calc_common_pseudoheader_sum buf;
     let acc = ip4_update_sum acc (ucast (drop_bit 16 pktlen));
     let acc = ip4_update_sum acc (ucast (pktlen AND 65535));
     Some (ip4_update_sum acc (ucast proto))
   }"

definition ip6_calc_tcp_checksum :: "u32 \<Rightarrow> bytes \<Rightarrow> nat \<Rightarrow> int \<Rightarrow> (u16 \<times> bytes) option" where
  "ip6_calc_tcp_checksum common_sum buf offs len =
     (if len < 40 then Some (0, buf)
      else do {
        let acc = ip4_update_sum common_sum 6;
        let acc = ip4_update_sum acc (of_int (len div 65536));
        let acc = ip4_update_sum acc (of_int (len mod 65536));
        acc \<leftarrow> checksum_loop buf offs 8 0 (nat len div 2) acc;
        acc \<leftarrow> odd_byte_sum buf offs (nat len) acc;
        let checksum = ip_sum_to_checksum acc;
        buf \<leftarrow> wr16 buf (offs + 16) checksum;
        Some (checksum, buf)
      })"

definition ip6_calc_udp_checksum :: "u32 \<Rightarrow> bytes \<Rightarrow> nat \<Rightarrow> int \<Rightarrow> (u16 \<times> bytes) option" where
  "ip6_calc_udp_checksum common_sum buf offs len =
     (if len < 40 then Some (0, buf)
      else do {
        let acc = ip4_update_sum common_sum 17;
        let acc = ip4_update_sum acc (of_int (len div 65536));
        let acc = ip4_update_sum acc (of_int (len mod 65536));
        acc \<leftarrow> checksum_loop buf offs 4 0 (nat len div 2) acc;
        acc \<leftarrow> odd_byte_sum buf offs (nat len) acc;
        let checksum = ip_sum_to_checksum acc;
        buf \<leftarrow> wr16 buf (offs + 6) checksum;
        Some (checksum, buf)
      })"

section \<open>The one's complement sum\<close>

definition ocs :: "nat \<Rightarrow> nat" where
  "ocs n = (if n = 0 then 0 else Suc ((n - 1) mod 65535))"

lemma ocs_le: "ocs n \<le> 65535"
  by (simp add: ocs_def Suc_le_eq)

lemma ocs_0 [simp]: "ocs 0 = 0"
  by (simp add: ocs_def)

lemma ocs_pos_iff [simp]: "0 < ocs n \<longleftrightarrow> 0 < n"
  by (simp add: ocs_def)

lemma ocs_mod: "ocs n mod 65535 = n mod 65535"
proof (cases n)
  case (Suc k)
  then show ?thesis by (simp add: ocs_def mod_Suc_eq)
qed simp

lemma ocs_unique:
  assumes "0 < n" "0 < r" "r \<le> 65535" "r mod 65535 = n mod 65535"
  shows "ocs n = r"
proof -
  have b: "0 < ocs n" "ocs n \<le> 65535" "ocs n mod 65535 = r mod 65535"
    using assms ocs_mod [of n] ocs_le [of n] by simp_all
  then show ?thesis using assms(2,3)
    by (cases "ocs n = 65535"; cases "r = 65535") (auto simp del: ocs_pos_iff)
qed

lemma ocs_small: "n \<le> 65535 \<Longrightarrow> ocs n = n"
  by (cases "n = 0") (auto intro: ocs_unique)

lemma ocs_step:
  assumes "d \<le> 65535"
  shows "(let s = ocs a + d in if s > 65535 then s - 65535 else s) = ocs (a + d)"
proof (cases "a + d = 0")
  case False
  have le: "ocs a \<le> 65535" by (rule ocs_le)
  have m: "(ocs a + d) mod 65535 = (a + d) mod 65535"
    using ocs_mod [of a] by (metis mod_add_left_eq)
  show ?thesis
  proof (cases "ocs a + d > 65535")
    case True
    then have "(ocs a + d - 65535) mod 65535 = (a + d) mod 65535"
      using m by (metis le_mod_geq less_imp_le)
    then show ?thesis using True False le assms
      by (simp add: Let_def) (rule ocs_unique [symmetric], auto)
  next
    case no: False
    have "0 < ocs a + d" using False by (metis add_gr_0 ocs_pos_iff zero_less_iff_neq_zero)
    then show ?thesis using no False m
      by (simp add: Let_def) (rule ocs_unique [symmetric], auto)
  qed
qed simp

lemma unat_and_65535: "unat (x AND 65535 :: u32) = unat x mod 65536"
proof -
  have "(65535 :: u32) = mask 16" by (simp add: mask_eq_exp_minus_1)
  then have "x AND 65535 = take_bit 16 x" by (simp add: take_bit_eq_mask)
  then show ?thesis by (simp add: take_bit_eq_mod unat_mod_distrib)
qed

lemma unat_update_sum:
  assumes "unat p \<le> 65535"
  shows "unat (ip4_update_sum p d) =
           (let s = unat p + unat d in if s > 65535 then s - 65535 else s)"
proof -
  let ?s = "p + ucast d :: u32"
  have d: "unat d < 65536" by simp
  have s: "unat ?s = unat p + unat d"
    using assms d by (simp add: unat_word_ariths mod_less del: unat_u16)
  have h: "unat (drop_bit 16 ?s) = unat ?s div 65536"
    by (simp add: unat_drop_bit_eq drop_bit_eq_div unat_div_distrib)
  have "unat (?s + drop_bit 16 ?s) = unat ?s + unat ?s div 65536"
    using assms d s h by (simp add: unat_word_ariths mod_less del: unat_u16)
  then have u: "unat (ip4_update_sum p d) = (unat ?s + unat ?s div 65536) mod 65536"
    by (simp add: ip4_update_sum_def Let_def unat_and_65535)
  show ?thesis
  proof (cases "unat ?s > 65535")
    case True
    have "unat ?s < 131071" using s assms d by (simp del: unat_u16)
    then have "unat ?s div 65536 = 1" using True by (simp add: div_nat_eqI)
    moreover have "(unat ?s + 1) mod 65536 = unat ?s - 65535"
    proof -
      from True obtain j where j: "unat ?s = 65536 + j" 
        using le_Suc_ex [of 65536 "unat ?s"] by auto
      then have "unat ?s + 1 = Suc j + 65536" "Suc j < 65536"
        using \<open>unat ?s < 131071\<close> by simp_all
      then have "(unat ?s + 1) mod 65536 = Suc j" by (simp only: mod_add_self2 mod_less)
      then show ?thesis using j by simp
    qed
    ultimately show ?thesis using u s True by (simp add: Let_def)
  next
    case False
    then show ?thesis using u s by (simp add: Let_def)
  qed
qed

lemma update_sum_ocs:
  "unat p = ocs a \<Longrightarrow> unat (ip4_update_sum p d) = ocs (a + unat d)"
  using ocs_step [of "unat d" a] unat_u16 [of d] ocs_le [of a]
  by (simp add: unat_update_sum Let_def del: unat_u16)

lemma unat_not16: "unat (NOT x :: u16) = 65535 - unat x"
proof -
  have "NOT x = - 1 - x" by (simp add: not_eq_complement)
  moreover have "unat (- 1 - x) = 65535 - unat x"
    by (simp add: unat_sub word_order.extremum unsigned_minus_1_eq_mask mask_eq_exp_minus_1)
  ultimately show ?thesis by simp
qed

lemma checksum_completes:
  assumes "unat acc = ocs a"
  shows "ocs (a + unat (ip_sum_to_checksum acc)) = 65535"
proof -
  have le: "ocs a \<le> 65535" by (rule ocs_le)
  have c: "unat (NOT (ucast acc :: u16)) = 65535 - ocs a"
    using assms le by (simp add: unat_not16)
  have m: "ocs a mod 65535 = a mod 65535" by (rule ocs_mod)
  show ?thesis
  proof (cases "ocs a = 65535")
    case True
    then have "NOT (ucast acc :: u16) = 0" using c by (simp add: unat_0_iff)
    then show ?thesis using True m
      by (auto simp: ip_sum_to_checksum_def intro!: ocs_unique)
  next
    case False
    then have "NOT (ucast acc :: u16) \<noteq> 0" using c le by (metis diff_is_0_eq le_antisym unat_0)
    then have "unat (ip_sum_to_checksum acc) = 65535 - ocs a"
      using c by (simp add: ip_sum_to_checksum_def Let_def)
    moreover have "(a + (65535 - ocs a)) mod 65535 = (ocs a + (65535 - ocs a)) mod 65535"
      using m by (metis mod_add_left_eq)
    ultimately show ?thesis using le False by (intro ocs_unique) auto
  qed
qed

section \<open>The sum of a byte range\<close>

definition word_at :: "bytes \<Rightarrow> nat \<Rightarrow> u16" where
  "word_at b i = be16 (b ! i) (b ! (i + 1))"

text \<open>RFC 1071's view of \<open>len\<close> bytes at \<open>base\<close>: 16-bit words in network order, an odd
  last byte padded with zero.\<close>

definition seg_sum :: "bytes \<Rightarrow> nat \<Rightarrow> nat \<Rightarrow> nat" where
  "seg_sum b base len =
     (\<Sum>i<len div 2. unat (word_at b (base + 2 * i)))
       + (if odd len then unat (be16 (b ! (base + 2 * (len div 2))) 0) else 0)"

lemma rd16_word_at: "i + 2 \<le> length b \<Longrightarrow> rd16 b i = Some (word_at b i)"
  by (simp add: rd16_def word_at_def)

lemma checksum_loop_ocs:
  "base + 2 * (seq + n) \<le> length buf \<Longrightarrow> unat s = ocs a \<Longrightarrow>
     \<exists>s'. checksum_loop buf base skip seq n s = Some s' \<and>
       unat s' = ocs (a + (\<Sum>i\<in>{seq..<seq + n} - {skip}. unat (word_at buf (base + 2 * i))))"
proof (induction n arbitrary: seq s a)
  case 0
  then show ?case by simp
next
  case (Suc n)
  let ?f = "\<lambda>i. unat (word_at buf (base + 2 * i))"
  show ?case
  proof (cases "seq = skip")
    case True
    then have "{seq..<seq + Suc n} - {skip} = {Suc seq..<Suc seq + n} - {skip}" by auto
    then show ?thesis using Suc.IH [of "Suc seq" s a] Suc.prems True by simp
  next
    case False
    let ?w = "word_at buf (base + 2 * seq)"
    have set: "{seq..<seq + Suc n} - {skip} = insert seq ({Suc seq..<Suc seq + n} - {skip})"
      using False by auto
    have r: "rd16 buf (base + 2 * seq) = Some ?w" using Suc.prems by (intro rd16_word_at) simp
    have u: "unat (ip4_update_sum s ?w) = ocs (a + unat ?w)"
      by (rule update_sum_ocs) (rule Suc.prems)
    obtain s' where "checksum_loop buf base skip (Suc seq) n (ip4_update_sum s ?w) = Some s'"
      "unat s' = ocs (a + unat ?w + (\<Sum>i\<in>{Suc seq..<Suc seq + n} - {skip}. ?f i))"
      using Suc.IH [OF _ u, of "Suc seq"] Suc.prems by auto
    then show ?thesis using False r by (simp only: set) (simp add: add.assoc)
  qed
qed

lemma checksum_loop_fault:
  "0 < n \<Longrightarrow> seq + n - 1 \<noteq> skip \<Longrightarrow> length buf < base + 2 * (seq + n) \<Longrightarrow>
     checksum_loop buf base skip seq n s = None"
proof (induction n arbitrary: seq s)
  case (Suc n)
  show ?case
  proof (cases "n = 0")
    case True
    then show ?thesis using Suc.prems by (auto simp: rd16_def)
  next
    case False
    then have "checksum_loop buf base skip (Suc seq) n s' = None" for s'
      using Suc.IH [of "Suc seq" s'] Suc.prems by simp
    then show ?thesis by (auto simp: bind_eq_None_iff)
  qed
qed simp

lemma word_at_wr16_other:
  "wr16 b i v = Some b' \<Longrightarrow> j + 2 \<le> length b \<Longrightarrow> j + 2 \<le> i \<or> i + 2 \<le> j \<Longrightarrow>
     word_at b' j = word_at b j"
  by (auto simp: word_at_def wr16_nth)

lemma word_at_wr16_same: "wr16 b i v = Some b' \<Longrightarrow> word_at b' i = v"
  using wr16_Some [of b i v] by (auto simp: word_at_def wr16_nth)

text \<open>Patching the field in does what the skipping loop left out.\<close>

lemma seg_sum_wr16:
  assumes w: "wr16 b (base + 2 * k) v = Some b'" and k: "2 * k + 2 \<le> len"
    and l: "base + len \<le> length b"
  shows "seg_sum b' base len =
    (\<Sum>i\<in>{0..<len div 2} - {k}. unat (word_at b (base + 2 * i))) + unat v
      + (if odd len then unat (be16 (b ! (base + 2 * (len div 2))) 0) else 0)"
proof -
  let ?f = "\<lambda>i. unat (word_at b' (base + 2 * i))"
  have kin: "k \<in> {0..<len div 2}" using k by auto
  have "(\<Sum>i<len div 2. ?f i) = (\<Sum>i\<in>insert k ({0..<len div 2} - {k}). ?f i)"
    using kin by (simp add: lessThan_atLeast0 insert_absorb)
  also have "\<dots> = ?f k + (\<Sum>i\<in>{0..<len div 2} - {k}. ?f i)"
    by (subst sum.insert) simp_all
  also have "(\<Sum>i\<in>{0..<len div 2} - {k}. ?f i) =
      (\<Sum>i\<in>{0..<len div 2} - {k}. unat (word_at b (base + 2 * i)))"
    by (rule sum.cong) (use l in \<open>auto intro!: arg_cong [where f = unat] word_at_wr16_other [OF w]\<close>)
  also have "?f k = unat v" using word_at_wr16_same [OF w] by simp
  finally have s: "(\<Sum>i<len div 2. ?f i) =
      unat v + (\<Sum>i\<in>{0..<len div 2} - {k}. unat (word_at b (base + 2 * i)))" .
  have "odd len \<Longrightarrow> b' ! (base + 2 * (len div 2)) = b ! (base + 2 * (len div 2))"
  proof -
    assume o: "odd len"
    then obtain c where c: "len = 2 * c + 1" by (auto elim: oddE)
    then have "k < c" using k by presburger
    then show ?thesis using c l by (subst wr16_nth [OF w]) auto
  qed
  then show ?thesis using s by (simp add: seg_sum_def)
qed

lemma odd_byte_sum_ocs:
  assumes "base + len \<le> length buf" "unat s = ocs a"
  shows "\<exists>s'. odd_byte_sum buf base len s = Some s' \<and> unat s' =
    ocs (a + (if odd len then unat (be16 (buf ! (base + 2 * (len div 2))) 0) else 0))"
proof (cases "odd len")
  case True
  then have "base + 2 * (len div 2) < length buf" using assms by (auto elim!: oddE)
  then show ?thesis using True update_sum_ocs [OF assms(2)]
    by (simp add: odd_byte_sum_def rd8_def)
qed (simp add: odd_byte_sum_def assms)

lemma mod_zero_shift:
  "((x :: nat) + y) mod n = z mod n \<Longrightarrow> x mod n = 0 \<longleftrightarrow> y mod n = z mod n"
proof -
  assume eq: "(x + y) mod n = z mod n"
  have "(x + y) mod n = y mod n \<longleftrightarrow> n dvd x + y - y" by (rule mod_eq_dvd_iff_nat) simp
  then have "z mod n = y mod n \<longleftrightarrow> n dvd x" by (simp only: eq add_diff_cancel_right')
  then show ?thesis by (auto simp only: mod_eq_0_iff_dvd)
qed

lemma segment_checksum:
  assumes k: "2 * k + 2 \<le> len" and l: "base + len \<le> length buf" and a: "unat s = ocs a"
  shows "\<exists>s1 s2 b'. checksum_loop buf base k 0 (len div 2) s = Some s1 \<and>
           odd_byte_sum buf base len s1 = Some s2 \<and>
           wr16 buf (base + 2 * k) (ip_sum_to_checksum s2) = Some b' \<and>
           ocs (a + seg_sum b' base len) = 65535"
proof -
  let ?r = "\<Sum>i\<in>{0..<len div 2} - {k}. unat (word_at buf (base + 2 * i))"
  let ?o = "if odd len then unat (be16 (buf ! (base + 2 * (len div 2))) 0) else 0"
  have le: "base + 2 * (0 + len div 2) \<le> length buf" using l by simp
  obtain s1 where s1: "checksum_loop buf base k 0 (len div 2) s = Some s1" "unat s1 = ocs (a + ?r)"
    using checksum_loop_ocs [of base 0 "len div 2" buf s a k] le a by auto
  obtain s2 where s2: "odd_byte_sum buf base len s1 = Some s2" "unat s2 = ocs (a + ?r + ?o)"
    using odd_byte_sum_ocs [OF l s1(2)] by blast
  obtain b' where w: "wr16 buf (base + 2 * k) (ip_sum_to_checksum s2) = Some b'"
    using wr16_Some k l by (metis add.assoc add_le_cancel_left le_trans)
  have "a + seg_sum b' base len = a + ?r + ?o + unat (ip_sum_to_checksum s2)"
    by (simp add: seg_sum_wr16 [OF w k l])
  then have "ocs (a + seg_sum b' base len) = 65535"
    using checksum_completes [OF s2(2)] by presburger
  then show ?thesis using s1 s2 w by blast
qed

section \<open>Properties\<close>

text \<open>What a receiver checks of an IPv4 header and of a TCP or UDP segment: the covered
  data, checksum field included, sums to \<open>0xffff\<close>.\<close>

definition ip4_header_valid :: "bytes \<Rightarrow> bool" where
  "ip4_header_valid b \<longleftrightarrow> ocs (seg_sum b 0 (4 * hdr_ihl (b ! 0))) = 65535"

definition ip4_pseudo :: "bytes \<Rightarrow> nat" where
  "ip4_pseudo b = unat (word_at b 12) + unat (word_at b 14) + unat (word_at b 16)
     + unat (word_at b 18) + unat (b ! 9) + unat (word_at b 2 - of_nat (4 * hdr_ihl (b ! 0)))"

definition ip4_tcp_len :: "bytes \<Rightarrow> nat" where
  "ip4_tcp_len b = unat (word_at b 2 - of_nat (4 * hdr_ihl (b ! 0)))"

definition ip4_tcp_valid :: "bytes \<Rightarrow> bool" where
  "ip4_tcp_valid b \<longleftrightarrow>
     ocs (ip4_pseudo b + seg_sum b (4 * hdr_ihl (b ! 0)) (ip4_tcp_len b)) = 65535"

lemma hdr_ihl_le: "hdr_ihl b0 \<le> 15"
proof -
  have "unat (b0 AND 15) \<le> unat (15 :: u8)"
    by (rule word_and_le1 [THEN word_le_nat_alt [THEN iffD1]])
  then show ?thesis by (simp add: hdr_ihl_def)
qed

lemma ip4_ip_checksum_ok:
  assumes "20 \<le> len" "5 \<le> hdr_ihl (buf ! 0)" "4 * int (hdr_ihl (buf ! 0)) \<le> len"
    and "len \<le> int (length buf)"
  shows "\<exists>c buf'. ip4_calc_ip_checksum buf len = Some (c, buf') \<and> ip4_header_valid buf' \<and>
           word_at buf' 10 = c \<and> length buf' = length buf \<and>
           (\<forall>i < length buf. i \<noteq> 10 \<longrightarrow> i \<noteq> 11 \<longrightarrow> buf' ! i = buf ! i)"
proof -
  let ?n = "4 * hdr_ihl (buf ! 0)"
  have b: "?n \<le> length buf" "20 \<le> length buf" using assms by linarith+
  obtain s1 b' where s: "checksum_loop buf 0 5 0 (2 * hdr_ihl (buf ! 0)) 0 = Some s1"
    and w: "wr16 buf 10 (ip_sum_to_checksum s1) = Some b'"
    and v: "ocs (seg_sum b' 0 ?n) = 65535"
    using segment_checksum [of 5 ?n 0 buf 0 0] b assms(2)
    by (auto simp: odd_byte_sum_def)
  have fr: "\<forall>i < length buf. i \<noteq> 10 \<longrightarrow> i \<noteq> 11 \<longrightarrow> b' ! i = buf ! i"
    using wr16_nth [OF w] by auto
  have ne: "buf \<noteq> []" using b by auto
  have "b' ! 0 = buf ! 0" using wr16_nth [OF w, of 0] ne by simp
  then have "ip4_header_valid b'" using v by (simp add: ip4_header_valid_def)
  moreover have "ip4_calc_ip_checksum buf len = Some (ip_sum_to_checksum s1, b')"
    using assms b s w ne
    by (simp add: ip4_calc_ip_checksum_def rd8_def Let_def mult.commute)
  ultimately show ?thesis
    using word_at_wr16_same [OF w] wr16_length [OF w] fr by auto
qed

text \<open>C24: \<open>ip4_calc_ip_checksum\<close> makes every well-formed IPv4 header verify: with at
  least five header words, all inside the packet, it stores its result in the checksum
  field, the header then sums to \<open>0xffff\<close>, and no other byte of the packet changes.\<close>

theorem ip4_calc_ip_checksum_valid:
  assumes "20 \<le> len" "5 \<le> hdr_ihl (buf ! 0)" "4 * int (hdr_ihl (buf ! 0)) \<le> len"
    and "len \<le> int (length buf)"
  shows "\<exists>c buf'. ip4_calc_ip_checksum buf len = Some (c, buf') \<and> ip4_header_valid buf' \<and>
           word_at buf' 10 = c \<and> length buf' = length buf \<and>
           (\<forall>i < length buf. i \<noteq> 10 \<longrightarrow> i \<noteq> 11 \<longrightarrow> buf' ! i = buf ! i)"
  using assms by (rule ip4_ip_checksum_ok)

definition sample_ip4 :: bytes where
  "sample_ip4 = [69,0,0,40, 0,1,0,0, 64,6,9,9, 10,0,0,1, 10,0,0,2,
     0,80,0,90, 0,0,0,1, 0,0,0,2, 80,2,16,0, 7,7,0,0]"

lemma sample_ip4_facts:
  "length sample_ip4 = 40" "hdr_ihl (sample_ip4 ! 0) = 5" "ip4_tcp_len sample_ip4 = 20"
  by (simp_all add: sample_ip4_def hdr_ihl_def ip4_tcp_len_def word_at_def be16_def)

lemma ip4_calc_ip_checksum_valid_witness:
  "\<exists>c buf'. ip4_calc_ip_checksum sample_ip4 40 = Some (c, buf') \<and> ip4_header_valid buf' \<and>
     word_at buf' 10 = c \<and> length buf' = length sample_ip4 \<and>
     (\<forall>i < length sample_ip4. i \<noteq> 10 \<longrightarrow> i \<noteq> 11 \<longrightarrow> buf' ! i = sample_ip4 ! i)"
  by (rule ip4_calc_ip_checksum_valid) (simp_all add: sample_ip4_facts)

lemma ip4_pseudoheader_ocs:
  assumes "20 \<le> length b"
  shows "\<exists>s. ip4_calc_pseudoheader_sum b = Some s \<and> unat s = ocs (ip4_pseudo b)"
proof -
  note u = update_sum_ocs
  have ne: "b \<noteq> []" using assms by auto
  have z: "unat (0 :: u32) = ocs 0" by simp
  show ?thesis using assms ne
    by (simp add: ip4_calc_pseudoheader_sum_def rd16_word_at rd8_def Let_def mult.commute
          u [OF u [OF u [OF u [OF u [OF u [OF z]]]]]] ip4_pseudo_def
          del: of_nat_mult)
qed

lemma ip4_tcp_checksum_ok:
  assumes "40 \<le> len" "40 \<le> length buf" "5 \<le> hdr_ihl (buf ! 0)" "18 \<le> ip4_tcp_len buf"
    and "4 * hdr_ihl (buf ! 0) + ip4_tcp_len buf \<le> length buf"
  shows "\<exists>c buf'. ip4_calc_tcp_checksum buf len = Some (c, buf') \<and> ip4_tcp_valid buf' \<and>
           length buf' = length buf \<and>
           (\<forall>i < length buf. i \<noteq> 4 * hdr_ihl (buf ! 0) + 16 \<longrightarrow>
              i \<noteq> 4 * hdr_ihl (buf ! 0) + 17 \<longrightarrow> buf' ! i = buf ! i)"
proof -
  let ?o = "4 * hdr_ihl (buf ! 0)" and ?n = "ip4_tcp_len buf"
  have ne: "buf \<noteq> []" using assms by auto
  obtain s where s: "ip4_calc_pseudoheader_sum buf = Some s" "unat s = ocs (ip4_pseudo buf)"
    using ip4_pseudoheader_ocs [of buf] assms by auto
  obtain s1 s2 b' where l: "checksum_loop buf ?o 8 0 (?n div 2) s = Some s1"
    "odd_byte_sum buf ?o ?n s1 = Some s2" and w: "wr16 buf (?o + 16) (ip_sum_to_checksum s2) = Some b'"
    and v: "ocs (ip4_pseudo buf + seg_sum b' ?o ?n) = 65535"
    using segment_checksum [of 8 ?n ?o buf s "ip4_pseudo buf"] assms s(2) by auto
  have nth: "b' ! i = buf ! i" if "i < 20" for i
    using wr16_nth [OF w, of i] that assms by auto
  have "word_at b' i = word_at buf i" if "i < 19" for i
    using nth [of i] nth [of "i + 1"] that by (simp add: word_at_def)
  then have "ip4_tcp_valid b'"
    using v nth by (simp add: ip4_tcp_valid_def ip4_pseudo_def ip4_tcp_len_def)
  moreover have "ip4_calc_tcp_checksum buf len = Some (ip_sum_to_checksum s2, b')"
    using assms s l w ne
    by (simp add: ip4_calc_tcp_checksum_def rd8_def rd16_word_at Let_def ip4_tcp_len_def
          mult.commute del: of_nat_mult)
  ultimately show ?thesis
    using wr16_length [OF w] wr16_nth [OF w] by auto
qed

text \<open>C9: \<open>ip4_calc_tcp_checksum\<close> makes the TCP segment of a well-formed packet verify:
  when the header fits, the total length covers at least the TCP checksum field and does
  not exceed the buffer, the segment and its pseudo header sum to \<open>0xffff\<close> afterwards and
  only the two checksum bytes change. Segments of odd length are covered.\<close>

theorem ip4_calc_tcp_checksum_valid:
  assumes "40 \<le> len" "40 \<le> length buf" "5 \<le> hdr_ihl (buf ! 0)" "18 \<le> ip4_tcp_len buf"
    and "4 * hdr_ihl (buf ! 0) + ip4_tcp_len buf \<le> length buf"
  shows "\<exists>c buf'. ip4_calc_tcp_checksum buf len = Some (c, buf') \<and> ip4_tcp_valid buf' \<and>
           length buf' = length buf \<and>
           (\<forall>i < length buf. i \<noteq> 4 * hdr_ihl (buf ! 0) + 16 \<longrightarrow>
              i \<noteq> 4 * hdr_ihl (buf ! 0) + 17 \<longrightarrow> buf' ! i = buf ! i)"
  using assms by (rule ip4_tcp_checksum_ok)

lemma ip4_calc_tcp_checksum_valid_witness:
  "\<exists>c buf'. ip4_calc_tcp_checksum sample_ip4 40 = Some (c, buf') \<and> ip4_tcp_valid buf' \<and>
     length buf' = length sample_ip4 \<and>
     (\<forall>i < length sample_ip4. i \<noteq> 4 * hdr_ihl (sample_ip4 ! 0) + 16 \<longrightarrow>
        i \<noteq> 4 * hdr_ihl (sample_ip4 ! 0) + 17 \<longrightarrow> buf' ! i = sample_ip4 ! i)"
  by (rule ip4_calc_tcp_checksum_valid) (simp_all add: sample_ip4_facts)

text \<open>\<open>ip4_calc_tcp_checksum\<close> trusts the total length field of the packet: whenever
  that field claims more TCP words than the buffer holds (and more than nine, so that the
  last one is not the skipped checksum field), the routine reads past the end of the
  buffer, whatever length its caller passed.\<close>

theorem ip4_calc_tcp_checksum_overread:
  assumes "40 \<le> len" "40 \<le> length buf" "20 \<le> ip4_tcp_len buf"
    and "length buf < 4 * hdr_ihl (buf ! 0) + 2 * (ip4_tcp_len buf div 2)"
  shows "ip4_calc_tcp_checksum buf len = None"
proof -
  let ?o = "4 * hdr_ihl (buf ! 0)" and ?n = "ip4_tcp_len buf"
  have ne: "buf \<noteq> []" using assms by auto
  obtain s where s: "ip4_calc_pseudoheader_sum buf = Some s"
    using ip4_pseudoheader_ocs [of buf] assms by auto
  have "checksum_loop buf ?o 8 0 (?n div 2) s = None"
    by (rule checksum_loop_fault) (use assms in auto)
  then show ?thesis using assms s ne
    by (simp add: ip4_calc_tcp_checksum_def rd8_def rd16_word_at Let_def ip4_tcp_len_def
          mult.commute del: of_nat_mult)
qed

definition lying_ip4 :: bytes where
  "lying_ip4 = [69,0,5,220, 0,1,0,0, 64,6,0,0, 10,0,0,1, 10,0,0,2] @ replicate 20 0"

lemma lying_ip4_facts:
  "length lying_ip4 = 40" "hdr_ihl (lying_ip4 ! 0) = 5" "ip4_tcp_len lying_ip4 = 1480"
  by (simp_all add: lying_ip4_def hdr_ihl_def ip4_tcp_len_def word_at_def be16_def)

lemma ip4_calc_tcp_checksum_overread_witness: "ip4_calc_tcp_checksum lying_ip4 40 = None"
  by (rule ip4_calc_tcp_checksum_overread) (simp_all add: lying_ip4_facts)

text \<open>The incremental update, in terms of the whole sum. \<open>a\<close> is the sum of the data that
  does not change.\<close>

lemma update_checksum_swapped:
  assumes "ocs (a + unat x + unat hc) = 65535"
  shows "ocs (a + unat y + unat (ip4_update_checksum hc y x)) = 65535"
proof -
  let ?s0 = "NOT (ucast hc :: u32) AND 65535"
  let ?A = "(65535 - unat hc) + unat y + (65535 - unat x)"
  have le: "unat hc < 65536" "unat x < 65536" by simp_all
  have "NOT (ucast hc :: u32) = - 1 - ucast hc" by (simp add: not_eq_complement)
  then have "unat (NOT (ucast hc :: u32)) = 4294967295 - unat hc"
    using le by (simp add: unat_sub word_order.extremum unsigned_minus_1_eq_mask mask_eq_exp_minus_1)
  moreover have "(4294967295 - unat hc) mod 65536 = 65535 - unat hc"
  proof -
    have "4294967295 - unat hc = 65535 * 65536 + (65535 - unat hc)"
      using le(1) by (simp del: unat_u16)
    then show ?thesis by (simp only: mod_mult_self3) simp
  qed
  ultimately have "unat ?s0 = 65535 - unat hc" by (simp add: unat_and_65535)
  then have s0: "unat ?s0 = ocs (65535 - unat hc)" by (simp add: ocs_small)
  have s2: "unat (ip4_update_sum (ip4_update_sum ?s0 y) (NOT x)) = ocs ?A"
    using update_sum_ocs [OF update_sum_ocs [OF s0]] by (simp add: unat_not16)
  let ?c = "unat (ip4_update_checksum hc y x)"
  have c: "ocs (?A + ?c) = 65535"
    using checksum_completes [OF s2] by (simp add: ip4_update_checksum_def Let_def)
  have c0: "0 < ?c"
    by (simp add: ip4_update_checksum_def ip_sum_to_checksum_def Let_def unat_gt_0)
  have "(a + unat y + ?c) mod 65535 = 0"
  proof -
    have 1: "(a + unat x + unat hc) mod 65535 = 0"
      using ocs_mod [of "a + unat x + unat hc"] assms by simp
    have 2: "(?A + ?c) mod 65535 = 0" using ocs_mod [of "?A + ?c"] c by simp
    have "(a + m + h) + ((65535 - h) + n + (65535 - m) + c) = a + n + c + 65535 * 2"
      if "h < 65536" "m < 65536" for h m n c :: nat using that by simp
    from this [OF le] have "(a + unat x + unat hc) + (?A + ?c) = a + unat y + ?c + 65535 * 2" .
    then have "(a + unat y + ?c) mod 65535 = ((a + unat x + unat hc) + (?A + ?c)) mod 65535"
      by (simp only: mod_mult_self2)
    also have "\<dots> = 0" using 1 2 by (metis add_0 mod_0 mod_add_eq)
    finally show ?thesis .
  qed
  then show ?thesis using c0 by (intro ocs_unique) auto
qed

text \<open>\<open>ip4_update_checksum\<close> has its data arguments the wrong way round. When a word
  \<open>x\<close> of checksummed data is replaced by \<open>y\<close>, the call that keeps the checksum valid is
  \<open>ip4_update_checksum hc y x\<close>, with the new word in the parameter named \<open>old_data\<close>; the
  call in the order of the parameter names gives a checksum that fails for some data.\<close>

theorem ip4_update_checksum_reversed:
  assumes "ocs (a + unat x + unat hc) = 65535"
  shows "ocs (a + unat y + unat (ip4_update_checksum hc y x)) = 65535 \<and>
    (\<exists>a x y hc. ocs (a + unat x + unat hc) = 65535 \<and>
       ocs (a + unat y + unat (ip4_update_checksum hc x y)) \<noteq> 65535)"
proof (intro conjI)
  show "ocs (a + unat y + unat (ip4_update_checksum hc y x)) = 65535"
    using update_checksum_swapped assms by blast
  have "ocs (0 + unat (1 :: u16) + unat (65534 :: u16)) = 65535" by (simp add: ocs_def)
  moreover have "ip4_update_checksum 65534 1 2 = 65535"
    by (simp add: ip4_update_checksum_def ip4_update_sum_def ip_sum_to_checksum_def Let_def)
  then have "ocs (0 + unat (2 :: u16) + unat (ip4_update_checksum 65534 1 2)) \<noteq> 65535"
    by (simp add: ocs_def)
  ultimately show "\<exists>a x y hc. ocs (a + unat x + unat hc) = 65535 \<and>
      ocs (a + unat y + unat (ip4_update_checksum hc x y)) \<noteq> 65535" by blast
qed

theorem ip4_update_checksum_reversed_witness:
  "ocs (0 + unat (2 :: u16) + unat (ip4_update_checksum 65534 2 1)) = 65535"
proof -
  have "ocs (0 + unat (1 :: u16) + unat (65534 :: u16)) = 65535" by (simp add: ocs_def)
  then show ?thesis using ip4_update_checksum_reversed [of 0 1 65534 2] by blast
qed

definition ip6_upper_valid :: "nat \<Rightarrow> bytes \<Rightarrow> nat \<Rightarrow> nat \<Rightarrow> nat \<Rightarrow> bool" where
  "ip6_upper_valid common b proto offs len \<longleftrightarrow>
     ocs (common + proto + len div 65536 + len mod 65536 + seg_sum b offs len) = 65535"

lemma ip6_length_words:
  assumes "40 \<le> len" "len < 2 ^ 31"
  shows "unat (of_int (len div 65536) :: u16) = nat len div 65536"
    and "unat (of_int (len mod 65536) :: u16) = nat len mod 65536"
proof -
  define k where "k = nat len"
  have k: "len = int k" "k < 2147483648" using assms by (simp_all add: k_def)
  have "len div 65536 = int (k div 65536)" "len mod 65536 = int (k mod 65536)"
    using k by (simp_all add: zdiv_int zmod_int)
  then show "unat (of_int (len div 65536) :: u16) = nat len div 65536"
    "unat (of_int (len mod 65536) :: u16) = nat len mod 65536"
    using k by (simp_all add: unat_of_nat)
qed

lemma ip6_upper_base:
  assumes "40 \<le> len" "len < 2 ^ 31" "unat common = ocs a"
  shows "unat (ip4_update_sum (ip4_update_sum (ip4_update_sum common pr)
      (of_int (len div 65536))) (of_int (len mod 65536))) =
      ocs (a + unat pr + nat len div 65536 + nat len mod 65536)"
  using update_sum_ocs [OF update_sum_ocs [OF update_sum_ocs [OF assms(3)]],
      of pr "of_int (len div 65536)" "of_int (len mod 65536)"]
  by (simp only: ip6_length_words [OF assms(1,2)])

lemma ip6_tcp_checksum_ok:
  assumes "40 \<le> len" "len < 2 ^ 31" "offs + nat len \<le> length buf" "unat common = ocs a"
  shows "\<exists>c b'. ip6_calc_tcp_checksum common buf offs len = Some (c, b') \<and>
           ip6_upper_valid a b' 6 offs (nat len) \<and> length b' = length buf"
proof -
  have k: "2 * 8 + 2 \<le> nat len" using assms(1) by simp
  show ?thesis
    using segment_checksum [OF k assms(3) ip6_upper_base [OF assms(1,2,4), of 6]] assms(1)
    by (auto simp: ip6_calc_tcp_checksum_def ip6_upper_valid_def Let_def wr16_length)
qed



lemma sum_skip_words:
  assumes "3 < n" "4 < (n :: nat)"
  shows "(\<Sum>i\<in>{0..<n} - {3}. f i) + f 3 = (\<Sum>i\<in>{0..<n} - {4}. f i) + (f 4 :: nat)"
proof -
  have "(\<Sum>i\<in>{0..<n} - {k}. f i) + f k = (\<Sum>i\<in>{0..<n}. f i)" if "k < n" for k
    using that sum.remove [of "{0..<n}" k f] by simp
  from this [OF assms(1)] this [OF assms(2)] show ?thesis by simp
qed

lemma ocs_zero_iff: "0 < n \<Longrightarrow> ocs n = 65535 \<longleftrightarrow> n mod 65535 = 0"
  using ocs_unique [of n 65535] ocs_mod [of n] by auto

text \<open>\<open>ip6_calc_udp_checksum\<close> skips the wrong word: index 4, the first word of the
  payload, in place of index 3, the checksum field. A datagram of at least 40 bytes
  verifies after it exactly when the old contents of the checksum field happen to agree
  with the first payload word modulo \<open>0xffff\<close>.\<close>

lemma ip6_calc_udp_checksum_wrong_word:
  assumes "40 \<le> len" "len < 2 ^ 31" "offs + nat len \<le> length buf" "unat common = ocs a"
  shows "\<exists>c b'. ip6_calc_udp_checksum common buf offs len = Some (c, b') \<and>
           (ip6_upper_valid a b' 17 offs (nat len) \<longleftrightarrow>
              unat (word_at buf (offs + 6)) mod 65535 = unat (word_at buf (offs + 8)) mod 65535)"
proof -
  let ?n = "nat len" and ?w = "\<lambda>i. unat (word_at buf (offs + 2 * i))"
  let ?A = "a + unat (17 :: u16) + ?n div 65536 + ?n mod 65536"
  let ?o = "if odd ?n then unat (be16 (buf ! (offs + 2 * (?n div 2))) 0) else 0"
  note base = ip6_upper_base [OF assms(1,2,4), of 17]
  have le: "offs + 2 * (0 + ?n div 2) \<le> length buf" using assms(3) by simp
  obtain s1 where s1: "checksum_loop buf offs 4 0 (?n div 2)
      (ip4_update_sum (ip4_update_sum (ip4_update_sum common 17)
        (of_int (len div 65536))) (of_int (len mod 65536))) = Some s1"
    "unat s1 = ocs (?A + (\<Sum>i\<in>{0..<?n div 2} - {4}. ?w i))"
    using checksum_loop_ocs [OF le base, of 4] by auto
  obtain s2 where s2: "odd_byte_sum buf offs ?n s1 = Some s2"
    "unat s2 = ocs (?A + (\<Sum>i\<in>{0..<?n div 2} - {4}. ?w i) + ?o)"
    using odd_byte_sum_ocs [OF assms(3) s1(2)] by blast
  have k: "2 * 3 + 2 \<le> ?n" using assms(1) by simp
  obtain b' where w: "wr16 buf (offs + 2 * 3) (ip_sum_to_checksum s2) = Some b'"
    using wr16_Some [of buf "offs + 6" "ip_sum_to_checksum s2"] assms(3) k by auto
  let ?c = "unat (ip_sum_to_checksum s2)"
  let ?S = "?A + (\<Sum>i\<in>{0..<?n div 2} - {4}. ?w i) + ?o"
  have c: "ocs (?S + ?c) = 65535" by (rule checksum_completes [OF s2(2)])
  have c0: "0 < ?c" by (simp add: ip_sum_to_checksum_def Let_def unat_gt_0)
  have seg: "?A + seg_sum b' offs ?n + ?w 3 = ?S + ?c + ?w 4"
    using sum_skip_words [of "?n div 2" ?w] k assms(1)
    by (simp add: seg_sum_wr16 [OF w k assms(3)])
  have "(?S + ?c) mod 65535 = 0" using c ocs_mod [of "?S + ?c"] by simp
  then have "(?A + seg_sum b' offs ?n + ?w 3) mod 65535 = ?w 4 mod 65535"
    using mod_add_left_eq [of "?S + ?c" 65535 "?w 4"] by (simp only: seg add_0)
  then have "(?A + seg_sum b' offs ?n) mod 65535 = 0 \<longleftrightarrow> ?w 3 mod 65535 = ?w 4 mod 65535"
    by (rule mod_zero_shift)
  moreover have "0 < ?A + seg_sum b' offs ?n"
    using c0 by (simp add: seg_sum_wr16 [OF w k assms(3)])
  moreover have "ip6_calc_udp_checksum common buf offs len = Some (ip_sum_to_checksum s2, b')"
    using assms(1) s1 s2 w by (simp add: ip6_calc_udp_checksum_def Let_def)
  ultimately show ?thesis
    by (simp add: ip6_upper_valid_def ocs_zero_iff)
qed

lemma ip6_calc_udp_checksum_wrong_word_witness:
  "\<exists>c b'. ip6_calc_udp_checksum 0 (replicate 10 0 @ replicate 40 3) 2 41 = Some (c, b') \<and>
     (ip6_upper_valid 0 b' 17 2 (nat 41) \<longleftrightarrow>
       unat (word_at (replicate 10 0 @ replicate 40 3) (2 + 6)) mod 65535 =
       unat (word_at (replicate 10 0 @ replicate 40 3) (2 + 8)) mod 65535)"
  by (rule ip6_calc_udp_checksum_wrong_word) simp_all

end
