(* ===== verification/IpPacket.thy ===== *)
theory IpPacket
  imports IpSum
begin

text \<open>
  Packet parsing of \<open>ocpa/iputils.c\<close>: the version test, the IPv4 parser and the walk
  over IPv6 extension headers. A packet descriptor \<open>ocpa_ip_packet_t\<close> points into a
  buffer; here it holds the buffer itself (\<open>None\<close> for a null pointer), and the header
  pointers are offsets into it (\<open>None\<close> for \<open>NULL\<close>). Multi-byte fields are read in
  network order where the code applies \<open>ntohs\<close>; \<open>ip6_plen\<close> is read without it, so its
  bytes are swapped on the little-endian targets. The functions get the address of a
  local or of a field, so the \<open>ip_packet == NULL\<close> branch has no counterpart.
\<close>

record ocpa_ip_packet =
  buff_len :: u32
  buff :: "bytes option"
  pkt_len :: u32
  ipver :: u8
  ip_header :: "nat option"
  payload_proto :: u8
  payload_header :: "nat option"
  payload_offs :: u32
  payload_len :: u32
  src_port :: u16
  dst_port :: u16

definition IPPROTO_HOPOPTS :: u8 where "IPPROTO_HOPOPTS = 0"
definition IPPROTO_TCP :: u8 where "IPPROTO_TCP = 6"
definition IPPROTO_UDP :: u8 where "IPPROTO_UDP = 17"
definition IPPROTO_ROUTING :: u8 where "IPPROTO_ROUTING = 43"
definition IPPROTO_NONE :: u8 where "IPPROTO_NONE = 59"
definition IPPROTO_DSTOPTS :: u8 where "IPPROTO_DSTOPTS = 60"

lemmas ipproto_defs = IPPROTO_HOPOPTS_def IPPROTO_TCP_def IPPROTO_UDP_def
  IPPROTO_ROUTING_def IPPROTO_NONE_def IPPROTO_DSTOPTS_def

text \<open>\<open>memset(&packet, 0, ...)\<close> followed by the three assignments every caller makes.\<close>

definition new_packet :: "bytes \<Rightarrow> int \<Rightarrow> int \<Rightarrow> ocpa_ip_packet" where
  "new_packet b blen plen =
     \<lparr>buff_len = of_int blen, buff = Some b, pkt_len = of_int plen, ipver = 0, ip_header = None,
      payload_proto = 0, payload_header = None, payload_offs = 0, payload_len = 0,
      src_port = 0, dst_port = 0\<rparr>"

section \<open>Version\<close>

definition ip_detect_ipver :: "ocpa_ip_packet \<Rightarrow> ocpa_ip_packet option" where
  "ip_detect_ipver p =
     (let p = p\<lparr>ipver := 0\<rparr> in
      case buff p of None \<Rightarrow> Some p
      | Some b \<Rightarrow>
          if buff_len p > 0 then do {
            b0 \<leftarrow> rd8 b 0;
            Some (if b0 AND 240 = 64 then p\<lparr>ipver := 4\<rparr>
                  else if b0 AND 240 = 96 then p\<lparr>ipver := 6\<rparr> else p)
          }
          else Some p)"

section \<open>IPv6 extension headers\<close>

definition is_ext_header :: "u8 \<Rightarrow> bool" where
  "is_ext_header proto \<longleftrightarrow>
     \<not> (proto \<noteq> IPPROTO_HOPOPTS \<and> proto \<noteq> IPPROTO_ROUTING \<and> proto \<noteq> IPPROTO_DSTOPTS)"

text \<open>
  The loop state is the protocol, the position of \<open>ptr\<close> in the buffer and \<open>offs\<close>. The
  tests \<open>ptr >= buff + buff_len - 1\<close> are \<open>pos + 1 \<ge> blen\<close>. The last two statements of
  the body read \<open>ptr[0]\<close> twice: \<open>ptr += ptr[0]; offs += ptr[0];\<close>, the second time
  through the pointer that was just moved.
\<close>

function ip6_ext_walk :: "bytes \<Rightarrow> nat \<Rightarrow> u8 \<Rightarrow> nat \<Rightarrow> u32 \<Rightarrow> (u8 \<times> u32) option" where
  "ip6_ext_walk b blen proto pos offs =
     (if \<not> is_ext_header proto then Some (proto, offs)
      else if blen \<le> pos + 1 then Some (IPPROTO_NONE, 0)
      else case rd8 b pos of None \<Rightarrow> None
        | Some proto' \<Rightarrow>
          if blen \<le> pos + 2 then Some (IPPROTO_NONE, 0)
          else case rd8 b (pos + 1) of None \<Rightarrow> None
            | Some l \<Rightarrow>
              (case rd8 b (pos + 1 + unat l) of None \<Rightarrow> None
               | Some l' \<Rightarrow>
                   ip6_ext_walk b blen proto' (pos + 1 + unat l) (offs + 1 + ucast l')))"
  by pat_completeness auto
termination
  by (relation "measure (\<lambda>(b, blen, proto, pos, offs). blen - pos)") auto

declare ip6_ext_walk.simps [simp del]

definition set_payload6 :: "bytes \<Rightarrow> u8 \<Rightarrow> u32 \<Rightarrow> ocpa_ip_packet \<Rightarrow> ocpa_ip_packet option" where
  "set_payload6 b proto offs p =
     (if proto = IPPROTO_UDP \<or> proto = IPPROTO_TCP then do {
        s \<leftarrow> rd16 b (unat offs);
        d \<leftarrow> rd16 b (unat offs + 2);
        Some (p\<lparr>payload_header := Some (unat offs), src_port := s, dst_port := d\<rparr>)
      }
      else Some (p\<lparr>payload_header := None\<rparr>))"

definition ip6_find_payload :: "ocpa_ip_packet \<Rightarrow> ocpa_ip_packet option" where
  "ip6_find_payload p =
     (case buff p of None \<Rightarrow> Some p
      | Some b \<Rightarrow> do {
          nxt \<leftarrow> rd8 b 6;
          (proto, offs) \<leftarrow> ip6_ext_walk b (unat (buff_len p)) nxt 40 40;
          p \<leftarrow> set_payload6 b proto offs (p\<lparr>payload_proto := proto, payload_offs := offs\<rparr>);
          plen \<leftarrow> rd16 b 4;
          let ip6plen = bswap16 plen;
          Some (p\<lparr>payload_len := ucast ip6plen + 40 - offs\<rparr>)
        })"

section \<open>Parsing\<close>

definition parse_ip4 :: "bytes \<Rightarrow> ocpa_ip_packet \<Rightarrow> ocpa_ip_packet option" where
  "parse_ip4 b p = do {
     proto \<leftarrow> rd8 b 9;
     b0 \<leftarrow> rd8 b 0;
     let offs = 4 * hdr_ihl b0;
     let p = p\<lparr>payload_proto := proto, payload_offs := of_nat offs\<rparr>;
     if proto = IPPROTO_UDP then do {
       l \<leftarrow> rd16 b (offs + 4);
       s \<leftarrow> rd16 b offs;
       d \<leftarrow> rd16 b (offs + 2);
       Some (p\<lparr>payload_header := Some offs, payload_len := ucast l, src_port := s, dst_port := d\<rparr>)
     }
     else if proto = IPPROTO_TCP then do {
       tot_len \<leftarrow> rd16 b 2;
       s \<leftarrow> rd16 b offs;
       d \<leftarrow> rd16 b (offs + 2);
       Some (p\<lparr>payload_header := Some offs, payload_len := ucast tot_len - of_nat offs,
               src_port := s, dst_port := d\<rparr>)
     }
     else do {
       tot_len \<leftarrow> rd16 b 2;
       Some (p\<lparr>payload_header := None, payload_len := ucast tot_len - of_nat offs\<rparr>)
     }
   }"

definition ip_parse_packet :: "ocpa_ip_packet \<Rightarrow> ocpa_ip_packet option" where
  "ip_parse_packet p =
     (case buff p of None \<Rightarrow> Some p
      | Some b \<Rightarrow> do {
          p \<leftarrow> ip_detect_ipver (p\<lparr>src_port := 0, dst_port := 0, ip_header := Some 0\<rparr>);
          if ipver p = 4 then parse_ip4 b p
          else if ipver p = 6 then ip6_find_payload p
          else Some p
        })"

section \<open>Lemmas\<close>

lemma ip_detect_ipver_Some:
  assumes "buff p = Some b" "b \<noteq> []"
  shows "\<exists>p'. ip_detect_ipver p = Some p' \<and> p' = p\<lparr>ipver := ipver p'\<rparr> \<and>
    ipver p' = (if buff_len p > 0 \<and> b ! 0 AND 240 = 64 then 4
                else if buff_len p > 0 \<and> b ! 0 AND 240 = 96 then 6 else 0)"
  using assms by (auto simp: ip_detect_ipver_def Let_def rd8_def)

lemma ext_walk_no_ext:
  "\<not> is_ext_header proto \<Longrightarrow> ip6_ext_walk b blen proto pos offs = Some (proto, offs)"
  by (subst ip6_ext_walk.simps) simp

lemma ext_walk_proto:
  "ip6_ext_walk b blen proto pos offs = Some (pr, o') \<Longrightarrow> \<not> is_ext_header pr"
proof (induction b blen proto pos offs rule: ip6_ext_walk.induct)
  case (1 b blen proto pos offs)
  then show ?case
    by (subst (asm) (2) ip6_ext_walk.simps)
       (auto split: if_splits option.splits simp: is_ext_header_def ipproto_defs)
qed

text \<open>When the walk ends without running into the end of the buffer, every access it made
  was inside; the only access it does not check first is the second read of the length.\<close>

lemma ext_walk_fault:
  assumes "is_ext_header proto" "pos + 2 < blen" "blen \<le> length b"
    and "length b \<le> pos + 1 + unat (b ! (pos + 1))"
  shows "ip6_ext_walk b blen proto pos offs = None"
  using assms by (subst ip6_ext_walk.simps) (simp add: rd8_def)

section \<open>Properties\<close>

text \<open>Parsing an IPv4 packet. For every buffer whose first nibble is 4, that holds the
  fixed header and, for UDP and TCP, the first six bytes of the transport header, the
  parser does not leave the buffer and reports version, protocol, payload offset (the
  header length), ports and payload length as the header says, with zero ports for the
  other protocols.\<close>

theorem ip_parse_packet_ip4:
  assumes b: "buff p = Some b" "0 < buff_len p" "20 \<le> length b"
    and v: "b ! 0 AND 240 = 64"
    and t: "4 * hdr_ihl (b ! 0) + 6 \<le> length b"
  defines "offs \<equiv> 4 * hdr_ihl (b ! 0)"
  shows "\<exists>p'. ip_parse_packet p = Some p' \<and> ipver p' = 4 \<and> payload_proto p' = b ! 9 \<and>
    payload_offs p' = of_nat offs \<and> ip_header p' = Some 0 \<and>
    (if b ! 9 = 6 \<or> b ! 9 = 17
     then payload_header p' = Some offs \<and> src_port p' = word_at b offs \<and>
          dst_port p' = word_at b (offs + 2)
     else payload_header p' = None \<and> src_port p' = 0 \<and> dst_port p' = 0) \<and>
    payload_len p' = (if b ! 9 = 17 then ucast (word_at b (offs + 4))
                      else ucast (word_at b 2) - of_nat offs)"
proof -
  let ?p = "p\<lparr>src_port := 0, dst_port := 0, ip_header := Some 0\<rparr>"
  have "b \<noteq> []" using b by auto
  then obtain p1 where "ip_detect_ipver ?p = Some p1" "p1 = ?p\<lparr>ipver := 4\<rparr>"
    using ip_detect_ipver_Some [of ?p b] b v by auto
  moreover have "rd8 b 9 = Some (b ! 9)" "rd8 b 0 = Some (b ! 0)"
    using b by (auto simp: rd8_def)
  moreover have "rd16 b 2 = Some (word_at b 2)" "rd16 b offs = Some (word_at b offs)"
    "rd16 b (offs + 2) = Some (word_at b (offs + 2))"
    "rd16 b (offs + 4) = Some (word_at b (offs + 4))"
    using b t by (simp_all add: rd16_word_at offs_def)
  ultimately show ?thesis using b
    by (simp add: ip_parse_packet_def parse_ip4_def Let_def ipproto_defs offs_def
        del: of_nat_mult)
qed

lemma ip_parse_packet_ip4_witness:
  "\<exists>p'. ip_parse_packet (new_packet sample_ip4 40 40) = Some p' \<and> ipver p' = 4 \<and>
    payload_proto p' = sample_ip4 ! 9 \<and>
    payload_offs p' = of_nat (4 * hdr_ihl (sample_ip4 ! 0)) \<and> ip_header p' = Some 0 \<and>
    (if sample_ip4 ! 9 = 6 \<or> sample_ip4 ! 9 = 17
     then payload_header p' = Some (4 * hdr_ihl (sample_ip4 ! 0)) \<and>
          src_port p' = word_at sample_ip4 (4 * hdr_ihl (sample_ip4 ! 0)) \<and>
          dst_port p' = word_at sample_ip4 (4 * hdr_ihl (sample_ip4 ! 0) + 2)
     else payload_header p' = None \<and> src_port p' = 0 \<and> dst_port p' = 0) \<and>
    payload_len p' = (if sample_ip4 ! 9 = 17
       then ucast (word_at sample_ip4 (4 * hdr_ihl (sample_ip4 ! 0) + 4))
       else ucast (word_at sample_ip4 2) - of_nat (4 * hdr_ihl (sample_ip4 ! 0)))"
  by (rule ip_parse_packet_ip4) (simp_all add: new_packet_def sample_ip4_facts, simp add: sample_ip4_def)

text \<open>The walk over IPv6 extension headers always ends (it is a total function) and
  never reports an extension header as the payload protocol. It leaves the buffer exactly
  where the second read of the length byte, through the moved pointer, is out of bounds:
  an extension header that starts in the last 258 bytes can make it so.\<close>

theorem ip6_ext_walk_result:
  "(\<forall>proto pos offs pr o'. ip6_ext_walk b blen proto pos offs = Some (pr, o') \<longrightarrow>
      \<not> is_ext_header pr) \<and>
   (\<forall>proto pos offs. is_ext_header proto \<longrightarrow> pos + 2 < blen \<longrightarrow> blen \<le> length b \<longrightarrow>
      length b \<le> pos + 1 + unat (b ! (pos + 1)) \<longrightarrow>
      ip6_ext_walk b blen proto pos offs = None)"
  using ext_walk_proto ext_walk_fault by blast

lemma ip6_ext_walk_result_witness:
  "is_ext_header 0 \<and> ip6_ext_walk [6, 200, 0, 0] 4 0 0 40 = None"
proof -
  have "is_ext_header 0" by (simp add: is_ext_header_def ipproto_defs)
  moreover have "ip6_ext_walk [6, 200, 0, 0] 4 0 0 40 = None"
    using ip6_ext_walk_result [of "[6, 200, 0, 0]" 4] \<open>is_ext_header 0\<close> by simp
  ultimately show ?thesis by blast
qed

text \<open>One extension header is enough to derail the parser. RFC 8200 puts the header
  after one of length field \<open>l\<close> at \<open>8 * (l + 1)\<close> bytes; the code's offset for it is
  \<open>1 + b[l + 1]\<close>, a byte found \<open>l + 1\<close> bytes into the header, and the two agree only
  when that byte happens to be \<open>8 * l + 7\<close>.\<close>

theorem ip6_ext_header_offset:
  assumes "is_ext_header proto" "\<not> is_ext_header (b ! 40)" "blen \<le> length b"
    and "42 < blen" "41 + unat (b ! 41) < length b"
  shows "\<exists>o'. ip6_ext_walk b blen proto 40 40 = Some (b ! 40, o') \<and>
           unat o' = 41 + unat (b ! (41 + unat (b ! 41))) \<and>
           (unat o' = 40 + 8 * (unat (b ! 41) + 1) \<longleftrightarrow>
              unat (b ! (41 + unat (b ! 41))) = 8 * unat (b ! 41) + 7)"
proof -
  let ?l = "b ! (41 + unat (b ! 41))"
  have "ip6_ext_walk b blen proto 40 40 = Some (b ! 40, 41 + ucast ?l)"
    using assms by (subst ip6_ext_walk.simps) (simp add: rd8_def ext_walk_no_ext)
  moreover have "unat (41 + ucast ?l :: u32) = 41 + unat ?l"
    using unat_u8 [of ?l] by (simp add: unat_word_ariths mod_less del: unat_u8)
  ultimately show ?thesis by auto
qed

definition hop_by_hop_tcp6 :: bytes where
  "hop_by_hop_tcp6 = [96,0,0,0, 0,28,0,64] @ replicate 32 1 @ [6,0,1,4,0,0,0,0] @ replicate 20 2"

lemma ip6_ext_header_offset_witness:
  "\<exists>o'. ip6_ext_walk hop_by_hop_tcp6 68 0 40 40 = Some (hop_by_hop_tcp6 ! 40, o') \<and>
     unat o' = 41 + unat (hop_by_hop_tcp6 ! (41 + unat (hop_by_hop_tcp6 ! 41))) \<and>
     (unat o' = 40 + 8 * (unat (hop_by_hop_tcp6 ! 41) + 1) \<longleftrightarrow>
        unat (hop_by_hop_tcp6 ! (41 + unat (hop_by_hop_tcp6 ! 41))) =
          8 * unat (hop_by_hop_tcp6 ! 41) + 7)"
  by (rule ip6_ext_header_offset)
     (simp_all add: hop_by_hop_tcp6_def is_ext_header_def ipproto_defs nth_append)

lemma ip6_parse_plain:
  assumes "buff p = Some b" "44 \<le> length b" "b ! 6 = 6 \<or> b ! 6 = 17"
  shows "\<exists>p'. ip6_find_payload p = Some p' \<and> payload_proto p' = b ! 6 \<and>
    payload_offs p' = 40 \<and> src_port p' = word_at b 40 \<and> dst_port p' = word_at b 42 \<and>
    payload_len p' = ucast (bswap16 (word_at b 4)) \<and>
    (payload_len p' = ucast (word_at b 4) \<longleftrightarrow> b ! 4 = b ! 5)"
proof -
  have ne: "\<not> is_ext_header (b ! 6)"
    using assms(3) by (auto simp: is_ext_header_def ipproto_defs)
  have "ucast (bswap16 (word_at b 4)) = (ucast (word_at b 4) :: u32) \<longleftrightarrow> b ! 4 = b ! 5"
  proof
    assume "ucast (bswap16 (word_at b 4)) = (ucast (word_at b 4) :: u32)"
    then have "unat (ucast (bswap16 (word_at b 4)) :: u32) = unat (ucast (word_at b 4) :: u32)"
      by simp
    then have "bswap16 (word_at b 4) = word_at b 4"
      by (simp add: word_unat_eq_iff)
    then show "b ! 4 = b ! 5"
      by (metis Suc_eq_plus1 bswap16_def eval_nat_numeral(3) hi8_be16 lo8_be16 word_at_def)
  qed (simp add: bswap16_def word_at_def)
  then show ?thesis using assms ne
    by (auto simp: ip6_find_payload_def rd8_def ext_walk_no_ext set_payload6_def ipproto_defs
        rd16_word_at Let_def)
qed

text \<open>The IPv6 payload length is read without \<open>ntohs\<close>. For a packet without
  extension headers the parser's payload length is the length field with its bytes
  swapped, so it is right only for lengths whose two bytes are equal; the offset (40), the
  protocol and the ports are right.\<close>

theorem ip6_payload_len_swapped:
  assumes "buff p = Some b" "44 \<le> length b" "b ! 6 = 6 \<or> b ! 6 = 17"
  shows "\<exists>p'. ip6_find_payload p = Some p' \<and> payload_proto p' = b ! 6 \<and>
    payload_offs p' = 40 \<and> src_port p' = word_at b 40 \<and> dst_port p' = word_at b 42 \<and>
    payload_len p' = ucast (bswap16 (word_at b 4)) \<and>
    (payload_len p' = ucast (word_at b 4) \<longleftrightarrow> b ! 4 = b ! 5)"
  using assms by (rule ip6_parse_plain)

lemma ip6_payload_len_swapped_witness:
  "\<exists>p'. ip6_find_payload (new_packet ([96,0,0,0, 0,20,6,64] @ replicate 52 1) 60 60) = Some p' \<and>
    payload_proto p' = ([96,0,0,0, 0,20,6,64] @ replicate 52 1) ! 6 \<and>
    payload_offs p' = 40 \<and>
    src_port p' = word_at ([96,0,0,0, 0,20,6,64] @ replicate 52 1) 40 \<and>
    dst_port p' = word_at ([96,0,0,0, 0,20,6,64] @ replicate 52 1) 42 \<and>
    payload_len p' = ucast (bswap16 (word_at ([96,0,0,0, 0,20,6,64] @ replicate 52 1) 4)) \<and>
    (payload_len p' = ucast (word_at ([96,0,0,0, 0,20,6,64] @ replicate 52 1) 4) \<longleftrightarrow>
      ([96,0,0,0, 0,20,6,64] @ replicate 52 (1 :: u8)) ! 4 = ([96,0,0,0, 0,20,6,64] @ replicate 52 1) ! 5)"
  by (rule ip6_payload_len_swapped) (simp_all add: new_packet_def)

end
