(* ===== verification/Routes.thy ===== *)
theory Routes
  imports Prelude "HOL-Library.Product_Lexorder" "HOL-Library.List_Lexorder"
begin

text \<open>
  The route lists of \<open>ocpa/router.c\<close> and the address tests of \<open>ocpa/iputils.c\<close>. A list
  of links is a HOL list; the loops over \<open>prev\<close>, \<open>curr\<close> and \<open>next\<close> are recursions that
  return the relinked list. Tunnels are addresses (numbers, 0 is \<open>NULL\<close>). The IPv4 and
  the IPv6 lists are the same algorithm written twice; the locale \<open>route_table\<close> states
  what both copies satisfy and carries the lemmas.

  A shift of a 32-bit value by 32 or more is undefined in C: \<open>mask_ip4\<close> is \<open>None\<close> there,
  so a zero mask is a fault.
\<close>

section \<open>Address tests\<close>

definition mask_ip4 :: "u32 \<Rightarrow> u8 \<Rightarrow> u32 option" where
  "mask_ip4 ip netmask =
     (if netmask = 0 \<or> 32 < netmask then None
      else let sh = 32 - unat netmask in Some (push_bit sh (drop_bit sh ip)))"

definition ip4_addr_match :: "u32 \<Rightarrow> u8 \<Rightarrow> u32 \<Rightarrow> bool option" where
  "ip4_addr_match network netmask test_ip = do {
     prepared_test_ip \<leftarrow> mask_ip4 test_ip netmask;
     Some (network = prepared_test_ip)
   }"

definition ip4_addr_eq :: "u32 \<Rightarrow> u32 \<Rightarrow> bool" where
  "ip4_addr_eq addr1 addr2 \<longleftrightarrow> addr1 = addr2"

definition partial_bitmask :: "u8 \<Rightarrow> u8" where
  "partial_bitmask netmask =
     (let sh = 8 - (unat netmask - unat netmask div 8 * 8)
      in push_bit sh (drop_bit sh 255))"

fun bytes_match :: "bytes \<Rightarrow> bytes \<Rightarrow> nat \<Rightarrow> nat \<Rightarrow> bool option" where
  "bytes_match network test_ip i 0 = Some True"
| "bytes_match network test_ip i (Suc n) = do {
     a \<leftarrow> rd8 network i;
     b \<leftarrow> rd8 test_ip i;
     if a \<noteq> b then Some False else bytes_match network test_ip (Suc i) n
   }"

definition ip6_addr_match :: "bytes \<Rightarrow> u8 \<Rightarrow> bytes \<Rightarrow> bool option" where
  "ip6_addr_match network netmask test_ip = do {
     let matching_bytes = unat netmask div 8;
     let pm = partial_bitmask netmask;
     m \<leftarrow> bytes_match network test_ip 0 matching_bytes;
     if \<not> m then Some False
     else if pm \<noteq> 0 then do {
       a \<leftarrow> rd8 network matching_bytes;
       b \<leftarrow> rd8 test_ip matching_bytes;
       Some (a = (b AND pm))
     }
     else Some True
   }"

fun memcmp :: "bytes \<Rightarrow> bytes \<Rightarrow> int" where
  "memcmp (a # as) (b # bs) = (if a < b then - 1 else if b < a then 1 else memcmp as bs)"
| "memcmp _ _ = 0"

definition ip6_addr_eq :: "bytes \<Rightarrow> bytes \<Rightarrow> bool" where
  "ip6_addr_eq addr1 addr2 \<longleftrightarrow> memcmp addr1 addr2 = 0"

section \<open>The IPv4 list\<close>

record route4_link =
  r4_ip :: u32
  r4_mask :: u8
  r4_tun :: nat

text \<open>The loop of \<open>route4\<close>. The result is the new list, the change of
  \<open>ip4_routes_count\<close> and the tunnel of a replaced link.\<close>

fun route4_walk :: "route4_link \<Rightarrow> route4_link list \<Rightarrow> route4_link list \<times> int \<times> nat option" where
  "route4_walk link [] = ([], 0, None)"
| "route4_walk link (cur # next) =
     (if r4_ip cur < r4_ip link \<or> (r4_ip cur = r4_ip link \<and> r4_mask cur < r4_mask link)
      then (link # cur # next, 1, None)
      else if r4_ip cur = r4_ip link \<and> r4_mask cur = r4_mask link
      then (link # next, 0, Some (r4_tun cur))
      else if next = [] then ([cur, link], 0, None)
      else let (rest, n, old) = route4_walk link next in (cur # rest, n, old))"

definition route4_insert :: "route4_link \<Rightarrow> route4_link list \<Rightarrow> route4_link list \<times> int \<times> nat option"
  where "route4_insert link routes =
     (if routes = [] then ([link], 0, None) else route4_walk link routes)"

text \<open>The IPv4 loop of \<open>unroute\<close>: the list without the tunnel's links and their number.\<close>

fun unroute4_walk :: "nat \<Rightarrow> route4_link list \<Rightarrow> route4_link list \<times> nat" where
  "unroute4_walk t [] = ([], 0)"
| "unroute4_walk t (cur # next) =
     (let (rest, n) = unroute4_walk t next
      in if r4_tun cur = t then (rest, Suc n) else (cur # rest, n))"

text \<open>The loop of \<open>unroute4\<close>: the new list and the tunnel of the removed link.\<close>

fun unroute4_remove :: "u32 \<Rightarrow> route4_link list \<Rightarrow> route4_link list \<times> nat option" where
  "unroute4_remove ip4 [] = ([], None)"
| "unroute4_remove ip4 (cur # next) =
     (if r4_ip cur = ip4 then (next, Some (r4_tun cur))
      else if r4_ip cur < ip4 then (cur # next, None)
      else let (rest, old) = unroute4_remove ip4 next in (cur # rest, old))"

text \<open>The lookup loop of \<open>send4\<close>: the tunnel it stops at, or 0.\<close>

fun route4_lookup :: "u32 \<Rightarrow> route4_link list \<Rightarrow> nat option" where
  "route4_lookup ip4 [] = Some 0"
| "route4_lookup ip4 (cur # next) = do {
     m \<leftarrow> ip4_addr_match (r4_ip cur) (r4_mask cur) ip4;
     if m then Some (r4_tun cur)
     else if r4_ip cur < ip4 then Some 0
     else route4_lookup ip4 next
   }"

section \<open>The IPv6 list\<close>

record route6_link =
  r6_ip :: bytes
  r6_mask :: u8
  r6_tun :: nat

text \<open>The network address that \<open>route6\<close> stores: \<open>matching_bytes\<close> bytes copied, one byte
  masked, the rest zero. The masked byte is read even when it is not stored, which is
  one byte past the address for a mask of 128.\<close>

definition mask_ip6 :: "bytes \<Rightarrow> u8 \<Rightarrow> bytes option" where
  "mask_ip6 ip6 netmask = do {
     let matching_bytes = unat netmask div 8;
     let pm = partial_bitmask netmask;
     let partial_matching_bytes = (if pm \<noteq> 0 then 1 else 0);
     let blank_bytes = 16 - matching_bytes - partial_matching_bytes;
     head \<leftarrow> rd_bytes ip6 0 matching_bytes;
     b \<leftarrow> rd8 ip6 matching_bytes;
     Some (head @ replicate partial_matching_bytes (b AND pm) @ replicate blank_bytes 0)
   }"

fun route6_walk :: "route6_link \<Rightarrow> route6_link list \<Rightarrow> route6_link list \<times> int \<times> nat option" where
  "route6_walk link [] = ([], 0, None)"
| "route6_walk link (cur # next) =
     (let cmp_addrs = memcmp (r6_ip cur) (r6_ip link) in
      if cmp_addrs < 0 \<or> (cmp_addrs = 0 \<and> r6_mask cur < r6_mask link)
      then (link # cur # next, 1, None)
      else if cmp_addrs = 0 \<and> r6_mask cur = r6_mask link
      then (link # next, 0, Some (r6_tun cur))
      else if next = [] then ([cur, link], 0, None)
      else let (rest, n, old) = route6_walk link next in (cur # rest, n, old))"

definition route6_insert :: "route6_link \<Rightarrow> route6_link list \<Rightarrow> route6_link list \<times> int \<times> nat option"
  where "route6_insert link routes =
     (if routes = [] then ([link], 0, None) else route6_walk link routes)"

fun unroute6_walk :: "nat \<Rightarrow> route6_link list \<Rightarrow> route6_link list \<times> nat" where
  "unroute6_walk t [] = ([], 0)"
| "unroute6_walk t (cur # next) =
     (let (rest, n) = unroute6_walk t next
      in if r6_tun cur = t then (rest, Suc n) else (cur # rest, n))"

fun unroute6_remove :: "bytes \<Rightarrow> route6_link list \<Rightarrow> route6_link list \<times> nat option" where
  "unroute6_remove ip6 [] = ([], None)"
| "unroute6_remove ip6 (cur # next) =
     (let cmp_addrs = memcmp (r6_ip cur) ip6 in
      if cmp_addrs = 0 then (next, Some (r6_tun cur))
      else if cmp_addrs < 0 then (cur # next, None)
      else let (rest, old) = unroute6_remove ip6 next in (cur # rest, old))"

fun route6_lookup :: "bytes \<Rightarrow> route6_link list \<Rightarrow> nat option" where
  "route6_lookup ip6 [] = Some 0"
| "route6_lookup ip6 (cur # next) = do {
     let cmp_addrs = memcmp (r6_ip cur) ip6;
     m \<leftarrow> ip6_addr_match (r6_ip cur) (r6_mask cur) ip6;
     if m then Some (r6_tun cur)
     else if cmp_addrs < 0 then Some 0
     else route6_lookup ip6 next
   }"

section \<open>What the address tests mean\<close>

definition net_size :: "u8 \<Rightarrow> nat" where
  "net_size netmask = 2 ^ (32 - unat netmask)"

lemma mask_ip4_Some:
  assumes "0 < netmask" "netmask \<le> 32"
  shows "\<exists>m. mask_ip4 ip netmask = Some m \<and>
    unat m = unat ip div net_size netmask * net_size netmask"
proof -
  let ?k = "32 - unat netmask"
  have n: "0 < unat netmask" "unat netmask \<le> 32"
    using assms by (simp_all add: word_less_nat_alt word_le_nat_alt)
  have "unat (push_bit ?k (drop_bit ?k ip)) = unat ip div 2 ^ ?k * 2 ^ ?k"
  proof -
    have "unat ip div 2 ^ ?k * 2 ^ ?k \<le> unat ip" by (rule div_times_less_eq_dividend)
    also have "\<dots> < 2 ^ 32" by simp
    finally show ?thesis
      by (simp only: unsigned_push_bit_eq unat_drop_bit_eq)
         (simp add: push_bit_eq_mult drop_bit_eq_div take_bit_eq_mod)
  qed
  then show ?thesis using assms
    by (auto simp: mask_ip4_def Let_def net_size_def)
qed

lemma mask_ip4_0: "mask_ip4 ip 0 = None"
  by (simp add: mask_ip4_def)

lemma memcmp_le_iff:
  "length a = length b \<Longrightarrow> (memcmp a b < 0 \<longleftrightarrow> a < b) \<and> (memcmp a b = 0 \<longleftrightarrow> a = b)"
  by (induction a b rule: memcmp.induct) (auto simp: not_less_iff_gr_or_eq)

section \<open>The contract of a route list\<close>

text \<open>Strictly descending lists, and the longest matching prefix.\<close>

definition desc :: "('l \<Rightarrow> 'k::linorder) \<Rightarrow> 'l list \<Rightarrow> bool" where
  "desc key rs \<longleftrightarrow> sorted_wrt (\<lambda>a b. key b < key a) rs"

definition is_lpm :: "('l \<Rightarrow> 'a \<Rightarrow> bool) \<Rightarrow> ('l \<Rightarrow> u8) \<Rightarrow> 'a \<Rightarrow> 'l list \<Rightarrow> 'l \<Rightarrow> bool" where
  "is_lpm matches plen d rs l \<longleftrightarrow>
     l \<in> set rs \<and> matches l d \<and> (\<forall>l' \<in> set rs. matches l' d \<longrightarrow> plen l' \<le> plen l)"

lemma desc_simps [simp]:
  "desc key []" "desc key (x # xs) \<longleftrightarrow> (\<forall>y \<in> set xs. key y < key x) \<and> desc key xs"
  by (auto simp: desc_def)

locale route_table =
  fixes addr :: "'l \<Rightarrow> 'a::linorder" and plen :: "'l \<Rightarrow> u8" and tun :: "'l \<Rightarrow> nat"
    and ins :: "'l \<Rightarrow> 'l list \<Rightarrow> 'l list \<times> int \<times> nat option"
    and remove_tun :: "nat \<Rightarrow> 'l list \<Rightarrow> 'l list \<times> nat"
    and remove_addr :: "'a \<Rightarrow> 'l list \<Rightarrow> 'l list \<times> nat option"
    and lookup :: "'a \<Rightarrow> 'l list \<Rightarrow> nat option"
    and matches :: "'l \<Rightarrow> 'a \<Rightarrow> bool"
    and valid :: "'l \<Rightarrow> bool" and valid_addr :: "'a \<Rightarrow> bool"
  assumes insert_Nil: "ins l [] = ([l], 0, None)"
    and insert_Cons: "valid l \<Longrightarrow> valid c \<Longrightarrow> ins l (c # rs) =
      (if (addr c, plen c) < (addr l, plen l) then (l # c # rs, 1, None)
       else if (addr c, plen c) = (addr l, plen l) then (l # rs, 0, Some (tun c))
       else let (r, n, old) = ins l rs in (c # r, n, old))"
    and remove_tun_Nil: "remove_tun t [] = ([], 0)"
    and remove_tun_Cons: "remove_tun t (c # rs) =
      (let (r, n) = remove_tun t rs in if tun c = t then (r, Suc n) else (c # r, n))"
    and remove_addr_Nil: "remove_addr a [] = ([], None)"
    and remove_addr_Cons: "valid c \<Longrightarrow> valid_addr a \<Longrightarrow> remove_addr a (c # rs) =
      (if addr c = a then (rs, Some (tun c)) else if addr c < a then (c # rs, None)
       else let (r, old) = remove_addr a rs in (c # r, old))"
    and lookup_Nil: "lookup d [] = Some 0"
    and lookup_Cons: "valid c \<Longrightarrow> valid_addr d \<Longrightarrow> lookup d (c # rs) =
      (if matches c d then Some (tun c) else if addr c < d then Some 0 else lookup d rs)"
    and matches_le: "valid l \<Longrightarrow> valid_addr d \<Longrightarrow> matches l d \<Longrightarrow> addr l \<le> d"
    and matches_addr: "valid l \<Longrightarrow> matches l (addr l)"
    and matches_nested: "valid l \<Longrightarrow> valid l' \<Longrightarrow> valid_addr d \<Longrightarrow> matches l d \<Longrightarrow>
      matches l' d \<Longrightarrow> addr l < addr l' \<Longrightarrow> plen l < plen l'"
begin

lemma insert_list:
  "valid l \<Longrightarrow> \<forall>r \<in> set rs. valid r \<Longrightarrow> desc (\<lambda>r. (addr r, plen r)) rs \<Longrightarrow>
   ins l rs = (rs', n, old) \<Longrightarrow>
     desc (\<lambda>r. (addr r, plen r)) rs' \<and>
     set rs' = insert l {r \<in> set rs. (addr r, plen r) \<noteq> (addr l, plen l)} \<and>
     length rs' = length rs + (if old = None then 1 else 0) \<and>
     n = (if old = None \<and> (\<exists>r \<in> set rs. (addr r, plen r) < (addr l, plen l)) then 1 else 0) \<and>
     old = map_option tun (find (\<lambda>r. (addr r, plen r) = (addr l, plen l)) rs)"
proof (induction rs arbitrary: rs' n old)
  case Nil
  then show ?case by (auto simp: insert_Nil)
next
  case (Cons c rs)
  let ?k = "\<lambda>r. (addr r, plen r)"
  have v: "valid c" and ds: "\<forall>r \<in> set rs. ?k r < ?k c" using Cons.prems by simp_all
  consider (lt) "?k c < ?k l" | (eq) "?k c = ?k l" | (gt) "?k l < ?k c" by (metis less_linear)
  then show ?case
  proof cases
    case lt
    then have below: "\<forall>r \<in> set rs. ?k r < ?k l" using ds order.strict_trans by blast
    then have "find (\<lambda>r. ?k r = ?k l) rs = None" "{r \<in> set rs. ?k r \<noteq> ?k l} = set rs"
      by (auto simp: find_None_iff)
    moreover have "rs' = l # c # rs \<and> n = 1 \<and> old = None"
      using Cons.prems(4) lt by (simp add: insert_Cons [OF Cons.prems(1) v])
    ultimately show ?thesis using lt below ds Cons.prems(3) by auto
  next
    case eq
    then have "{r \<in> set rs. ?k r \<noteq> ?k l} = set rs" using ds by fastforce
    moreover have "rs' = l # rs \<and> n = 0 \<and> old = Some (tun c)"
      using Cons.prems(4) eq by (simp add: insert_Cons [OF Cons.prems(1) v])
    ultimately show ?thesis using eq ds Cons.prems(3) by auto
  next
    case gt
    obtain r1 n1 old1 where i1: "ins l rs = (r1, n1, old1)" by (cases "ins l rs") auto
    have ne: "?k c \<noteq> ?k l" and nlt: "\<not> ?k c < ?k l" using gt by (auto dest: order.asym)
    have r: "rs' = c # r1" "n = n1" "old = old1"
      using Cons.prems(4) unfolding insert_Cons [OF Cons.prems(1) v] if_not_P [OF nlt]
        if_not_P [OF ne] i1 by simp_all
    have IH: "desc ?k r1 \<and> set r1 = insert l {r \<in> set rs. ?k r \<noteq> ?k l} \<and>
       length r1 = length rs + (if old1 = None then 1 else 0) \<and>
       n1 = (if old1 = None \<and> (\<exists>r \<in> set rs. ?k r < ?k l) then 1 else 0) \<and>
       old1 = map_option tun (find (\<lambda>r. ?k r = ?k l) rs)"
      using Cons.IH [OF Cons.prems(1) _ _ i1] Cons.prems by simp
    have "\<forall>y \<in> set r1. ?k y < ?k c" using IH ds gt by auto
    moreover have "set (c # r1) = insert l {r \<in> set (c # rs). ?k r \<noteq> ?k l}"
      using IH ne by auto
    moreover have "find (\<lambda>r. ?k r = ?k l) (c # rs) = find (\<lambda>r. ?k r = ?k l) rs"
      using ne by auto
    moreover have "(\<exists>r \<in> set (c # rs). ?k r < ?k l) \<longleftrightarrow> (\<exists>r \<in> set rs. ?k r < ?k l)"
      using nlt by auto
    ultimately show ?thesis using IH r by (simp only:) simp
  qed
qed

lemma remove_tun_list: "remove_tun t rs =
    (filter (\<lambda>r. tun r \<noteq> t) rs, length (filter (\<lambda>r. tun r = t) rs))"
  by (induction rs) (simp_all add: remove_tun_Nil remove_tun_Cons)

lemma remove_addr_list:
  "\<forall>r \<in> set rs. valid r \<Longrightarrow> valid_addr a \<Longrightarrow> desc (\<lambda>r. (addr r, plen r)) rs \<Longrightarrow>
   remove_addr a rs = (case find (\<lambda>r. addr r = a) rs of None \<Rightarrow> (rs, None)
                       | Some r \<Rightarrow> (remove1 r rs, Some (tun r)))"
proof (induction rs)
  case Nil
  then show ?case by (simp add: remove_addr_Nil)
next
  case (Cons c rs)
  show ?case
  proof (cases "addr c < a")
    case True
    then have "\<forall>r \<in> set rs. addr r < a"
      using Cons.prems(3) by (auto dest!: bspec)
    then have "find (\<lambda>r. addr r = a) rs = None" by (auto simp: find_None_iff)
    then show ?thesis using True Cons.prems by (simp add: remove_addr_Cons)
  next
    case False
    then show ?thesis using Cons by (auto simp: remove_addr_Cons split: option.splits
        dest: find_Some_iff [THEN iffD1])
  qed
qed

lemma lookup_list:
  "\<forall>r \<in> set rs. valid r \<Longrightarrow> valid_addr d \<Longrightarrow>
   lookup d rs = Some (case filter (\<lambda>r. addr r \<le> d) rs of [] \<Rightarrow> 0
     | r # _ \<Rightarrow> if matches r d then tun r else 0)"
proof (induction rs)
  case Nil
  then show ?case by (simp add: lookup_Nil)
next
  case (Cons c rs)
  have v: "valid c" using Cons.prems by simp
  consider (lt) "addr c < d" | (eq) "addr c = d" | (gt) "d < addr c" by (metis less_linear)
  then show ?case
  proof cases
    case eq
    then show ?thesis using matches_addr [OF v] Cons.prems by (simp add: lookup_Cons)
  next
    case gt
    then have "\<not> matches c d" using matches_le [OF v Cons.prems(2)] by auto
    then show ?thesis using gt Cons by (auto simp: lookup_Cons)
  qed (use Cons.prems in \<open>auto simp: lookup_Cons\<close>)
qed

text \<open>Whatever the lookup stops at is the longest matching prefix.\<close>

lemma lookup_sound:
  assumes "\<forall>r \<in> set rs. valid r" "valid_addr d" "desc (\<lambda>r. (addr r, plen r)) rs"
    and "lookup d rs = Some t" "t \<noteq> 0"
  shows "\<exists>l. is_lpm matches plen d rs l \<and> tun l = t"
proof -
  obtain r rest where f: "filter (\<lambda>r. addr r \<le> d) rs = r # rest" and m: "matches r d" "tun r = t"
    using assms(4,5) lookup_list [OF assms(1,2)] by (auto split: list.splits if_splits)
  have fs: "set (r # rest) = {x \<in> set rs. addr x \<le> d}" using f by (metis set_filter)
  then have rin: "r \<in> set rs" by auto
  have "plen r' \<le> plen r" if r': "r' \<in> set rs" "matches r' d" for r'
  proof (cases "r' = r")
    case False
    have "addr r' \<le> d" using matches_le assms(1,2) r' by blast
    then have "r' \<in> set rest" using fs r' False by auto
    moreover have "desc (\<lambda>r. (addr r, plen r)) (r # rest)"
      using assms(3) f by (metis desc_def sorted_wrt_filter)
    ultimately have "(addr r', plen r') < (addr r, plen r)" by simp
    then show ?thesis
      using matches_nested [of r' r d] assms(1,2) r' rin m by (auto simp: less_eq_prod_def)
  qed simp
  then show ?thesis using rin m by (auto simp: is_lpm_def)
qed

text \<open>A matching route is found when no other route lies between it and the address
  without matching; in particular when no two networks of the table overlap.\<close>

lemma lookup_complete:
  assumes "\<forall>r \<in> set rs. valid r" "valid_addr d" "desc (\<lambda>r. (addr r, plen r)) rs"
    and "l \<in> set rs" "matches l d"
    and "\<forall>r \<in> set rs. (addr l, plen l) < (addr r, plen r) \<and> addr r \<le> d \<longrightarrow> matches r d"
  shows "\<exists>r. lookup d rs = Some (tun r) \<and> is_lpm matches plen d rs r"
proof -
  have "addr l \<le> d" using matches_le assms by blast
  then have "l \<in> set (filter (\<lambda>r. addr r \<le> d) rs)" using assms(4) by simp
  then obtain r rest where f: "filter (\<lambda>r. addr r \<le> d) rs = r # rest"
    by (cases "filter (\<lambda>r. addr r \<le> d) rs") auto
  have fs: "set (r # rest) = {x \<in> set rs. addr x \<le> d}" using f by (metis set_filter)
  then have rin: "r \<in> set rs" "addr r \<le> d" by auto
  have ds: "desc (\<lambda>r. (addr r, plen r)) (r # rest)"
    using assms(3) f by (metis desc_def sorted_wrt_filter)
  have "l = r \<or> l \<in> set rest"
    using f \<open>l \<in> set (filter (\<lambda>r. addr r \<le> d) rs)\<close> by auto
  then have mr: "matches r d" using ds assms(5,6) rin by auto
  have "lookup d rs = Some (tun r)" using lookup_list [OF assms(1,2)] f mr by simp
  moreover have "is_lpm matches plen d rs r"
  proof -
    have "plen r' \<le> plen r" if r': "r' \<in> set rs" "matches r' d" for r'
    proof (cases "r' = r")
      case False
      have "addr r' \<le> d" using matches_le assms(1,2) r' by blast
      then have "r' \<in> set (r # rest)" using fs r'(1) by blast
      then have "(addr r', plen r') < (addr r, plen r)" using ds False by auto
      then show ?thesis
        using matches_nested [of r' r d] assms(1,2) r' rin mr by (auto simp: less_eq_prod_def)
    qed simp
    then show ?thesis using rin mr by (auto simp: is_lpm_def)
  qed
  ultimately show ?thesis by blast
qed

end

section \<open>The IPv4 list keeps the contract\<close>

text \<open>A link as \<open>route4\<close> stores it: a usable prefix length and an address without host
  bits.\<close>

definition valid4 :: "route4_link \<Rightarrow> bool" where
  "valid4 l \<longleftrightarrow> 0 < r4_mask l \<and> r4_mask l \<le> 32 \<and> mask_ip4 (r4_ip l) (r4_mask l) = Some (r4_ip l)"

definition matches4 :: "route4_link \<Rightarrow> u32 \<Rightarrow> bool" where
  "matches4 l ip \<longleftrightarrow> ip4_addr_match (r4_ip l) (r4_mask l) ip = Some True"

lemma ip4_addr_match_valid:
  assumes "0 < n" "n \<le> 32"
  shows "ip4_addr_match net n ip = Some (unat net = unat ip div net_size n * net_size n)"
  using mask_ip4_Some [OF assms, of ip]
  by (auto simp: ip4_addr_match_def word_unat_eq_iff)

lemma matches4_iff:
  "valid4 l \<Longrightarrow> matches4 l ip \<longleftrightarrow>
     unat (r4_ip l) = unat ip div net_size (r4_mask l) * net_size (r4_mask l)"
  by (simp add: matches4_def valid4_def ip4_addr_match_valid)

lemma valid4_addr: "valid4 l \<Longrightarrow>
    unat (r4_ip l) div net_size (r4_mask l) * net_size (r4_mask l) = unat (r4_ip l)"
  using mask_ip4_Some [of "r4_mask l" "r4_ip l"] by (auto simp: valid4_def)

lemma div_times_mono_dvd:
  fixes a b d :: nat
  assumes "b dvd a" "0 < b"
  shows "d div a * a \<le> d div b * b"
proof -
  obtain k where k: "a = b * k" using assms(1) by (auto elim: dvdE)
  have "d div a * a = (d div b) div k * k * b" by (simp add: k div_mult2_eq algebra_simps)
  also have "\<dots> \<le> d div b * b" by (rule mult_le_mono1) (rule div_times_less_eq_dividend)
  finally show ?thesis .
qed

lemma net_size_dvd: "n \<le> m \<Longrightarrow> net_size m dvd net_size n"
  by (simp add: net_size_def le_imp_power_dvd word_le_nat_alt)

lemma valid4_mask:
  assumes "0 < n" "n \<le> 32" "mask_ip4 ip n = Some m"
  shows "mask_ip4 m n = Some m"
proof -
  have "unat m = unat ip div net_size n * net_size n"
    using mask_ip4_Some [OF assms(1,2), of ip] assms(3) by auto
  then have "unat m div net_size n * net_size n = unat m"
    by (simp add: net_size_def)
  then show ?thesis
    using mask_ip4_Some [OF assms(1,2), of m] by (auto simp: word_unat_eq_iff)
qed

interpretation routes4: route_table r4_ip r4_mask r4_tun route4_insert unroute4_walk
  unroute4_remove route4_lookup matches4 valid4 "\<lambda>_. True"
proof
  fix l c rs
  show "route4_insert l (c # rs) =
      (if (r4_ip c, r4_mask c) < (r4_ip l, r4_mask l) then (l # c # rs, 1, None)
       else if (r4_ip c, r4_mask c) = (r4_ip l, r4_mask l) then (l # rs, 0, Some (r4_tun c))
       else let (r, n, old) = route4_insert l rs in (c # r, n, old))"
    by (auto simp: route4_insert_def)
next
  fix c d rs
  assume v: "valid4 c"
  then obtain b where b: "ip4_addr_match (r4_ip c) (r4_mask c) d = Some b"
    by (auto simp: valid4_def ip4_addr_match_valid)
  then show "route4_lookup d (c # rs) = (if matches4 c d then Some (r4_tun c)
      else if r4_ip c < d then Some 0 else route4_lookup d rs)"
    by (simp add: matches4_def)
next
  fix l d
  assume "valid4 l" "matches4 l d"
  then show "r4_ip l \<le> d" by (simp add: matches4_iff word_le_nat_alt div_times_less_eq_dividend)
next
  fix l
  assume "valid4 l"
  then show "matches4 l (r4_ip l)" by (simp add: matches4_iff valid4_addr)
next
  fix l l' d
  assume v: "valid4 l" "valid4 l'" and m: "matches4 l d" "matches4 l' d" and lt: "r4_ip l < r4_ip l'"
  show "r4_mask l < r4_mask l'"
  proof (rule ccontr)
    assume "\<not> ?thesis"
    then have "net_size (r4_mask l) dvd net_size (r4_mask l')" by (intro net_size_dvd) simp
    then have "unat (r4_ip l') \<le> unat (r4_ip l)"
      using m v by (simp add: matches4_iff div_times_mono_dvd net_size_def)
    then show False using lt by (simp add: word_less_nat_alt)
  qed
qed (simp_all add: route4_insert_def Let_def split: prod.splits)


section \<open>Properties of the IPv4 list\<close>

text \<open>The key \<open>route4\<close> sorts by, and a concrete table: 10.1.0.0/16 through tunnel 1 above
  10.0.0.0/8 through tunnel 2.\<close>

definition key4 :: "route4_link \<Rightarrow> u32 \<times> u8" where
  "key4 l = (r4_ip l, r4_mask l)"

definition table4 :: "route4_link list \<Rightarrow> bool" where
  "table4 rs \<longleftrightarrow> (\<forall>r \<in> set rs. valid4 r) \<and> desc key4 rs"

definition sample_routes4 :: "route4_link list" where
  "sample_routes4 =
     [\<lparr>r4_ip = 0x0A010000, r4_mask = 16, r4_tun = 1\<rparr>, \<lparr>r4_ip = 0x0A000000, r4_mask = 8, r4_tun = 2\<rparr>]"

lemma key4_eq: "key4 = (\<lambda>r. (r4_ip r, r4_mask r))"
  by (simp add: key4_def fun_eq_iff)

lemma table4_D: "table4 rs \<Longrightarrow> \<forall>r \<in> set rs. valid4 r"
  "table4 rs \<Longrightarrow> desc (\<lambda>r. (r4_ip r, r4_mask r)) rs"
  by (simp_all add: table4_def key4_eq)

lemma table4_sample: "table4 sample_routes4"
  by code_simp

text \<open>C15: \<open>route4\<close> keeps the list sorted and treats it as a map from (network, mask) to
  tunnels. Inserting a link into a strictly descending list of normalised links gives such
  a list again; its links are the new one and every old one with another key; the tunnel
  handed back for release is that of the link with the same key, if there was one.\<close>

theorem route4_insert_table:
  assumes "valid4 l" "table4 rs" "route4_insert l rs = (rs', n, old)"
  shows "table4 rs' \<and> set rs' = insert l {r \<in> set rs. key4 r \<noteq> key4 l} \<and>
    old = map_option r4_tun (find (\<lambda>r. key4 r = key4 l) rs) \<and>
    length rs' = length rs + (if old = None then 1 else 0)"
  using routes4.insert_list [OF assms(1) table4_D [OF assms(2)] assms(3)] assms(1,2)
  by (auto simp: table4_def key4_eq)

theorem route4_insert_table_witness:
  "table4 (\<lparr>r4_ip = 0x0A010000, r4_mask = 16, r4_tun = 7\<rparr> # tl sample_routes4)"
proof -
  let ?l = "\<lparr>r4_ip = 0x0A010000, r4_mask = 16, r4_tun = 7\<rparr>"
  have "route4_insert ?l sample_routes4 = (?l # tl sample_routes4, 0, Some 1)" "valid4 ?l"
    by code_simp+
  then show ?thesis using route4_insert_table [OF _ table4_sample] by blast
qed

text \<open>C4: \<open>send4\<close> never picks a wrong route. When the lookup loop stops at a tunnel, that
  tunnel belongs to the longest prefix of the table that matches the destination.\<close>

theorem route4_lookup_longest_prefix:
  assumes "table4 rs" "route4_lookup d rs = Some t" "t \<noteq> 0"
  shows "\<exists>l. is_lpm matches4 r4_mask d rs l \<and> r4_tun l = t"
  using routes4.lookup_sound [OF table4_D(1) [OF assms(1)] _ table4_D(2) [OF assms(1)] assms(2,3)]
  by simp

theorem route4_lookup_longest_prefix_witness:
  "\<exists>l. is_lpm matches4 r4_mask 0x0A010203 sample_routes4 l \<and> r4_tun l = 1"
proof -
  have "route4_lookup 0x0A010203 sample_routes4 = Some 1" by code_simp
  then show ?thesis using route4_lookup_longest_prefix [OF table4_sample] by simp
qed

text \<open>What the early exit of the loop of \<open>send4\<close> decides. The first link whose
  network is not above the destination decides alone: its tunnel if it matches, no route
  otherwise, whatever stands behind it. With 10.1.0.0/16 and 10.0.0.0/8 in the table a
  packet for 10.2.0.1 finds no route although 10.0.0.0/8 matches it (the witness).\<close>

theorem route4_lookup_first_not_above:
  assumes "table4 rs"
  shows "route4_lookup d rs = Some (case filter (\<lambda>r. r4_ip r \<le> d) rs of [] \<Rightarrow> 0
    | r # _ \<Rightarrow> if matches4 r d then r4_tun r else 0)"
  using routes4.lookup_list [OF table4_D(1) [OF assms], of d] by simp

theorem route4_lookup_first_not_above_witness:
  "route4_lookup 0x0A020001 sample_routes4 = Some 0 \<and>
   (\<exists>l \<in> set sample_routes4. matches4 l 0x0A020001)"
proof -
  have f: "filter (\<lambda>r. r4_ip r \<le> 0x0A020001) sample_routes4 = sample_routes4" by code_simp
  have m: "\<not> matches4 (hd sample_routes4) 0x0A020001" "matches4 (sample_routes4 ! 1) 0x0A020001"
    by code_simp+
  have "route4_lookup 0x0A020001 sample_routes4 = Some 0"
    using route4_lookup_first_not_above [OF table4_sample, of "0x0A020001"] m(1)
    unfolding f by (simp add: sample_routes4_def)
  moreover have "sample_routes4 ! 1 \<in> set sample_routes4" by (simp add: sample_routes4_def)
  ultimately show ?thesis using m(2) by blast
qed

text \<open>C19: when the lookup of \<open>send4\<close> is complete. If a route matches the destination and
  every route the loop passes before it either lies above the destination or matches it
  too (so in any table without nested networks), the lookup ends at the longest matching
  prefix.\<close>

theorem route4_lookup_complete:
  assumes "table4 rs" "l \<in> set rs" "matches4 l d"
    and "\<forall>r \<in> set rs. key4 l < key4 r \<and> r4_ip r \<le> d \<longrightarrow> matches4 r d"
  shows "\<exists>r. route4_lookup d rs = Some (r4_tun r) \<and> is_lpm matches4 r4_mask d rs r"
  using routes4.lookup_complete [OF table4_D(1) [OF assms(1)] TrueI table4_D(2) [OF assms(1)]
      assms(2,3)] assms(4)
  unfolding key4_eq by blast

theorem route4_lookup_complete_witness:
  "\<exists>r. route4_lookup 0x0A000001 sample_routes4 = Some (r4_tun r) \<and>
     is_lpm matches4 r4_mask 0x0A000001 sample_routes4 r"
proof (rule route4_lookup_complete [OF table4_sample, of "sample_routes4 ! 1"])
  show "sample_routes4 ! 1 \<in> set sample_routes4" by (simp add: sample_routes4_def)
  show "matches4 (sample_routes4 ! 1) 0x0A000001" by code_simp
  show "\<forall>r \<in> set sample_routes4. key4 (sample_routes4 ! 1) < key4 r \<and> r4_ip r \<le> 0x0A000001 \<longrightarrow>
      matches4 r 0x0A000001" by code_simp
qed

text \<open>\<open>unroute4\<close> does not look at the mask. It removes the first link with the
  given network address, the one with the longest mask, and hands back its tunnel.\<close>

lemma unroute4_remove_first:
  assumes "table4 rs"
  shows "unroute4_remove ip4 rs = (case find (\<lambda>r. r4_ip r = ip4) rs of None \<Rightarrow> (rs, None)
    | Some r \<Rightarrow> (remove1 r rs, Some (r4_tun r)))"
  by (rule routes4.remove_addr_list [OF table4_D(1) [OF assms] TrueI table4_D(2) [OF assms]])

theorem unroute4_remove_first_witness:
  "unroute4_remove 0x0A000000 sample_routes4 = ([hd sample_routes4], Some 2)"
  using unroute4_remove_first [OF table4_sample, of "0x0A000000"]
  by (simp add: sample_routes4_def)

end
