(* ===== verification/Routes6.thy ===== *)
theory Routes6
  imports Routes
begin

text \<open>
  The IPv6 route list keeps the contract of \<open>route_table\<close>. Addresses are read as big-endian
  numbers: the byte loop and the partial mask of \<open>ip6_addr_match\<close> compare prefixes of that
  number, \<open>memcmp\<close> compares the numbers.
\<close>

section \<open>Addresses as numbers\<close>

primrec be_val :: "bytes \<Rightarrow> nat" where
  "be_val [] = 0"
| "be_val (b # bs) = unat b * 256 ^ length bs + be_val bs"

lemma be_val_append: "be_val (xs @ ys) = be_val xs * 256 ^ length ys + be_val ys"
  by (induction xs) (simp_all add: power_add algebra_simps)

lemma be_val_less: "be_val bs < 256 ^ length bs"
proof (induction bs)
  case (Cons b bs)
  have "unat b + 1 \<le> 256" using unat_u8 [of b] by (simp add: Suc_le_eq del: unat_u8)
  then have "(unat b + 1) * 256 ^ length bs \<le> 256 * 256 ^ length bs" by (rule mult_le_mono1)
  moreover have "be_val (b # bs) < (unat b + 1) * 256 ^ length bs" using Cons by simp
  ultimately show ?case unfolding length_Cons power_Suc by (rule order.strict_trans2 [rotated])
qed simp

lemma be_val_less_iff: "length a = length b \<Longrightarrow> be_val a < be_val b \<longleftrightarrow> a < b"
proof (induction a b rule: memcmp.induct)
  case (1 a as b bs)
  have len: "length as = length bs" using 1 by simp
  have A: "be_val as < 256 ^ length bs" "be_val bs < 256 ^ length bs"
    using be_val_less [of as] be_val_less [of bs] len by simp_all
  have lt: "unat x * 256 ^ length bs + p < unat y * 256 ^ length bs + q"
    if "unat x < unat y" "p < 256 ^ length bs" for x y :: u8 and p q :: nat
  proof -
    have "(unat x + 1) * 256 ^ length bs \<le> unat y * 256 ^ length bs"
      using that by (intro mult_le_mono1) simp
    then show ?thesis using that by simp
  qed
  consider "a < b" | "a = b" | "b < a" by (metis less_linear)
  then show ?case
  proof cases
    case 1
    then show ?thesis using lt [of a b "be_val as" "be_val bs"] A len
      by (simp add: word_less_nat_alt)
  next
    case 2
    then show ?thesis using "1.IH" len by simp
  next
    case 3
    then have "\<not> a < b" "a \<noteq> b" by auto
    then show ?thesis using lt [of b a "be_val bs" "be_val as"] A len 3
      by (simp add: word_less_nat_alt)
  qed
qed auto

lemma be_val_inj: "length a = length b \<Longrightarrow> be_val a = be_val b \<longleftrightarrow> a = b"
  by (metis be_val_less_iff less_linear order.irrefl)

lemma be_val_le_iff: "length a = length b \<Longrightarrow> be_val a \<le> be_val b \<longleftrightarrow> a \<le> b"
  by (metis be_val_less_iff leD not_le_imp_less)

lemma be_val_zeros [simp]: "be_val (replicate n 0) = 0"
  by (induction n) simp_all

section \<open>The byte loop and the partial mask\<close>

lemma bytes_match_Some:
  "i + n \<le> length a \<Longrightarrow> i + n \<le> length b \<Longrightarrow>
   bytes_match a b i n = Some (take n (drop i a) = take n (drop i b))"
proof (induction n arbitrary: i)
  case (Suc n)
  have "drop i a = a ! i # drop (Suc i) a" "drop i b = b ! i # drop (Suc i) b"
    using Suc.prems by (simp_all add: Cons_nth_drop_Suc)
  moreover have "rd8 a i = Some (a ! i)" "rd8 b i = Some (b ! i)"
    using Suc.prems by (simp_all add: rd8_def)
  ultimately show ?case using Suc by simp
qed simp

lemma partial_bitmask_and:
  "unat (b AND partial_bitmask n) =
     (if unat n mod 8 = 0 then 0
      else unat b div 2 ^ (8 - unat n mod 8) * 2 ^ (8 - unat n mod 8))"
proof -
  let ?r = "unat n mod 8"
  have r: "unat n - unat n div 8 * 8 = ?r" by (simp add: minus_div_mult_eq_mod)
  have pm: "partial_bitmask n = push_bit (8 - ?r) (drop_bit (8 - ?r) 255)"
    by (simp add: partial_bitmask_def r Let_def)
  have full: "b AND push_bit k (drop_bit k 255) = push_bit k (drop_bit k b)" for k
  proof (rule bit_word_eqI)
    fix m assume "m < LENGTH(8)"
    moreover have m1: "(255 :: u8) = - 1" by simp
    ultimately show "bit (b AND push_bit k (drop_bit k 255)) m = bit (push_bit k (drop_bit k b)) m"
      unfolding m1 by (auto simp: bit_simps)
  qed
  have "unat (push_bit k (drop_bit k b)) = unat b div 2 ^ k * 2 ^ k" for k
  proof -
    have "unat b div 2 ^ k * 2 ^ k \<le> unat b" by (rule div_times_less_eq_dividend)
    also have "\<dots> < 2 ^ 8" using unat_u8 [of b] by simp
    finally show ?thesis
      by (simp only: unsigned_push_bit_eq unat_drop_bit_eq)
         (simp add: push_bit_eq_mult drop_bit_eq_div take_bit_eq_mod)
  qed
  then have "unat (b AND partial_bitmask n) = unat b div 2 ^ (8 - ?r) * 2 ^ (8 - ?r)"
    by (simp only: pm full)
  then show ?thesis using unat_u8 [of b] by simp
qed


lemma mask_bytes_value:
  assumes "length d = 16" "unat n < 128" "k = unat n div 8" "r = unat n mod 8"
  shows "be_val (take k d @ (d ! k AND partial_bitmask n) # replicate (15 - k) 0)
     = be_val d div 2 ^ (128 - unat n) * 2 ^ (128 - unat n)"
proof -
  have k: "k < 16" "unat n = 8 * k + r" "r < 8" using assms by simp_all
  have "(256::nat) = 2 ^ 8" by simp
  then have P: "(256::nat) ^ m = 2 ^ (8 * m)" for m by (simp only: power_mult)
  have e: "128 - unat n = (8 - r) + 8 * (15 - k)" using k by simp
  have pw: "(2::nat) ^ (128 - unat n) = 2 ^ (8 - r) * 256 ^ (15 - k)"
    unfolding e P power_add ..
  have s: "(256::nat) ^ (16 - k) = 256 * 256 ^ (15 - k)"
    using k by (simp flip: power_Suc add: Suc_diff_le)
  have "take k d @ d ! k # drop (Suc k) d = d"
    using k assms(1) by (simp add: Cons_nth_drop_Suc)
  then have "be_val d = be_val (take k d @ d ! k # drop (Suc k) d)" by simp
  then have bd: "be_val d = be_val (take k d) * 256 ^ (16 - k) + unat (d ! k) * 256 ^ (15 - k)
      + be_val (drop (Suc k) d)"
    using k assms(1) by (simp add: be_val_append s)
  have tail: "be_val (drop (Suc k) d) < 256 ^ (15 - k)"
    using be_val_less [of "drop (Suc k) d"] assms(1) k by simp
  let ?h = "be_val (take k d) * 256 + unat (d ! k)"
  have "be_val d = ?h * 256 ^ (15 - k) + be_val (drop (Suc k) d)"
    unfolding bd s by (simp add: algebra_simps)
  then have "be_val d div 256 ^ (15 - k) = ?h" using tail by simp
  then have dv: "be_val d div 2 ^ (128 - unat n) = ?h div 2 ^ (8 - r)"
    unfolding pw by (metis div_mult2_eq mult.commute)
  have "(256::nat) = 2 ^ r * 2 ^ (8 - r)" using k by (simp flip: power_add)
  then have sp: "be_val (take k d) * 256 = be_val (take k d) * 2 ^ r * 2 ^ (8 - r)" by simp
  have "(a * c + u) div c * c = a * c + u div c * c" if "0 < c" for a c u :: nat
    using that by (simp add: algebra_simps)
  then have hd: "?h div 2 ^ (8 - r) * 2 ^ (8 - r)
      = be_val (take k d) * 256 + unat (d ! k) div 2 ^ (8 - r) * 2 ^ (8 - r)"
    unfolding sp by simp
  have "unat (d ! k AND partial_bitmask n) = unat (d ! k) div 2 ^ (8 - r) * 2 ^ (8 - r)"
    using partial_bitmask_and [of "d ! k" n] assms(4) by (cases "r = 0") auto
  then have "be_val (take k d @ (d ! k AND partial_bitmask n) # replicate (15 - k) 0)
    = be_val (take k d) * 256 ^ (16 - k)
      + unat (d ! k) div 2 ^ (8 - r) * 2 ^ (8 - r) * 256 ^ (15 - k)"
    using k by (simp add: be_val_append s)
  also have "\<dots> = (be_val (take k d) * 256 + unat (d ! k) div 2 ^ (8 - r) * 2 ^ (8 - r))
      * 256 ^ (15 - k)" unfolding s by (simp add: algebra_simps)
  finally show ?thesis unfolding dv unfolding pw hd [symmetric] by (simp add: algebra_simps)
qed


section \<open>The contract\<close>

text \<open>A link as \<open>route6\<close> stores it: 16 bytes, no host bits. \<open>route6\<close> cannot build a link
  with mask 128 without reading past its argument.\<close>

definition valid_ip6 :: "bytes \<Rightarrow> bool" where
  "valid_ip6 a \<longleftrightarrow> length a = 16"

definition valid6 :: "route6_link \<Rightarrow> bool" where
  "valid6 l \<longleftrightarrow> valid_ip6 (r6_ip l) \<and> mask_ip6 (r6_ip l) (r6_mask l) = Some (r6_ip l)"

definition matches6 :: "route6_link \<Rightarrow> bytes \<Rightarrow> bool" where
  "matches6 l ip \<longleftrightarrow> valid_ip6 ip \<and> ip6_addr_match (r6_ip l) (r6_mask l) ip = Some True"

definition net_size6 :: "u8 \<Rightarrow> nat" where
  "net_size6 n = 2 ^ (128 - unat n)"

lemma mask_ip6_128: "valid_ip6 ip \<Longrightarrow> 128 \<le> n \<Longrightarrow> mask_ip6 ip n = None"
proof -
  assume a: "valid_ip6 ip" "128 \<le> n"
  then have "16 \<le> unat n div 8" by (simp add: word_le_nat_alt)
  then show ?thesis using a by (simp add: mask_ip6_def Let_def rd8_def valid_ip6_def
    split: option.splits bind_split)
qed

lemma partial_bitmask_0: "partial_bitmask n = 0 \<longleftrightarrow> unat n mod 8 = 0"
proof -
  have "partial_bitmask n = 0" if "unat n mod 8 = 0"
    using partial_bitmask_and [of "partial_bitmask n" n] that by (simp add: word_unat_eq_iff)
  moreover have "partial_bitmask n \<noteq> 0" if "unat n mod 8 \<noteq> 0"
  proof
    assume "partial_bitmask n = 0"
    then have "unat (128 AND partial_bitmask n) = 0" by simp
    moreover have "2 ^ (8 - unat n mod 8) \<le> (2::nat) ^ 7" using that by (intro power_increasing) auto
    ultimately show False using partial_bitmask_and [of 128 n] that
      by (simp add: div_eq_0_iff)
  qed
  ultimately show ?thesis by (cases "unat n mod 8 = 0") simp_all
qed

lemma mask_ip6_Some:
  assumes "valid_ip6 ip" "n < 128"
  shows "\<exists>m. mask_ip6 ip n = Some m \<and> valid_ip6 m \<and>
    m = take (unat n div 8) ip @ (ip ! (unat n div 8) AND partial_bitmask n)
        # replicate (15 - unat n div 8) 0 \<and>
    be_val m = be_val ip div net_size6 n * net_size6 n"
proof -
  let ?k = "unat n div 8"
  have n: "unat n < 128" "?k < 16" using assms by (simp_all add: word_less_nat_alt)
  have "16 - ?k = Suc (15 - ?k)" using n by simp
  then have "mask_ip6 ip n = Some (take ?k ip @ (ip ! ?k AND partial_bitmask n)
      # replicate (15 - ?k) 0)"
    using assms n partial_bitmask_0 [of n]
    by (cases "unat n mod 8 = 0") (simp_all add: mask_ip6_def rd_bytes_def rd8_def valid_ip6_def Let_def)
  then show ?thesis
    using mask_bytes_value [of ip n ?k "unat n mod 8"] assms n
    by (simp add: valid_ip6_def net_size6_def)
qed


lemma valid6_less: "valid6 l \<Longrightarrow> r6_mask l < 128"
  by (metis valid6_def mask_ip6_128 option.distinct(1) not_le)

lemma ip6_addr_match_valid:
  assumes v: "valid6 l" and ip: "valid_ip6 ip"
  shows "ip6_addr_match (r6_ip l) (r6_mask l) ip = Some
    (be_val (r6_ip l) = be_val ip div net_size6 (r6_mask l) * net_size6 (r6_mask l))"
proof -
  let ?n = "r6_mask l" and ?net = "r6_ip l"
  let ?k = "unat ?n div 8" and ?pm = "partial_bitmask ?n"
  have n: "?n < 128" and len: "length ?net = 16" "length ip = 16"
    using valid6_less [OF v] v ip by (simp_all add: valid6_def valid_ip6_def)
  then have k: "?k < 16" by (simp add: word_less_nat_alt)
  obtain m where m: "m = take ?k ip @ (ip ! ?k AND ?pm) # replicate (15 - ?k) 0"
    "valid_ip6 m" "be_val m = be_val ip div net_size6 ?n * net_size6 ?n"
    using mask_ip6_Some [OF ip n] by blast
  have net: "?net = take ?k ?net @ (?net ! ?k AND ?pm) # replicate (15 - ?k) 0"
    using mask_ip6_Some [of ?net ?n] v n by (auto simp: valid6_def)
  have hd: "?net ! ?k = ?net ! ?k AND ?pm"
    using arg_cong [OF net, of "\<lambda>x. x ! ?k"] k len by (simp add: nth_append)
  have "?net = m \<longleftrightarrow> take ?k ?net = take ?k ip \<and> (?net ! ?k AND ?pm) = (ip ! ?k AND ?pm)"
    using k len by (subst net, subst m(1)) simp
  then have eq: "?net = m \<longleftrightarrow> take ?k ?net = take ?k ip \<and> ?net ! ?k = (ip ! ?k AND ?pm)"
    using hd by simp
  have "ip6_addr_match ?net ?n ip = Some (?net = m)"
    using k len eq hd
    by (cases "?pm = 0") (auto simp: ip6_addr_match_def Let_def bytes_match_Some rd8_def)
  also have "(?net = m) = (be_val ?net = be_val m)"
    using be_val_inj [of ?net m] len m(2) by (simp add: valid_ip6_def)
  finally show ?thesis unfolding m(3) .
qed

lemma matches6_iff:
  "valid6 l \<Longrightarrow> valid_ip6 ip \<Longrightarrow> matches6 l ip \<longleftrightarrow>
     be_val (r6_ip l) = be_val ip div net_size6 (r6_mask l) * net_size6 (r6_mask l)"
  by (simp add: matches6_def ip6_addr_match_valid)

lemma valid6_ip: "valid6 l \<Longrightarrow> valid_ip6 (r6_ip l)"
  by (simp add: valid6_def)

lemma memcmp_valid: "valid_ip6 a \<Longrightarrow> valid_ip6 b \<Longrightarrow>
    (memcmp a b < 0 \<longleftrightarrow> a < b) \<and> (memcmp a b = 0 \<longleftrightarrow> a = b)"
  by (simp add: valid_ip6_def memcmp_le_iff)

lemma valid6_mask:
  assumes "valid_ip6 ip" "n < 128" "mask_ip6 ip n = Some m"
  shows "valid_ip6 m \<and> mask_ip6 m n = Some m"
proof -
  have m: "valid_ip6 m" "be_val m = be_val ip div net_size6 n * net_size6 n"
    using mask_ip6_Some [OF assms(1,2)] assms(3) by auto
  then obtain m' where "mask_ip6 m n = Some m'" "valid_ip6 m'"
    "be_val m' = be_val m div net_size6 n * net_size6 n"
    using mask_ip6_Some [OF m(1) assms(2)] by blast
  moreover from this have "be_val m' = be_val m" using m by (simp add: net_size6_def)
  ultimately show ?thesis using be_val_inj [of m' m] m(1) by (simp add: valid_ip6_def)
qed

interpretation routes6: route_table r6_ip r6_mask r6_tun route6_insert unroute6_walk
  unroute6_remove route6_lookup matches6 valid6 valid_ip6
proof
  fix l c rs
  assume v: "valid6 l" "valid6 c"
  show "route6_insert l (c # rs) =
      (if (r6_ip c, r6_mask c) < (r6_ip l, r6_mask l) then (l # c # rs, 1, None)
       else if (r6_ip c, r6_mask c) = (r6_ip l, r6_mask l) then (l # rs, 0, Some (r6_tun c))
       else let (r, n, old) = route6_insert l rs in (c # r, n, old))"
    using memcmp_valid [OF v(2) [THEN valid6_ip] v(1) [THEN valid6_ip]]
    by (auto simp: route6_insert_def Let_def)
next
  fix a c rs
  assume v: "valid6 c" "valid_ip6 a"
  show "unroute6_remove a (c # rs) =
      (if r6_ip c = a then (rs, Some (r6_tun c)) else if r6_ip c < a then (c # rs, None)
       else let (r, old) = unroute6_remove a rs in (c # r, old))"
    using memcmp_valid [OF v(1) [THEN valid6_ip] v(2)] by (simp add: Let_def)
next
  fix c d rs
  assume v: "valid6 c" "valid_ip6 d"
  then show "route6_lookup d (c # rs) = (if matches6 c d then Some (r6_tun c)
      else if r6_ip c < d then Some 0 else route6_lookup d rs)"
    using memcmp_valid [OF v(1) [THEN valid6_ip] v(2)] ip6_addr_match_valid [OF v]
    by (simp add: matches6_iff Let_def)
next
  fix l d
  assume v: "valid6 l" "valid_ip6 d" "matches6 l d"
  then have "be_val (r6_ip l) \<le> be_val d" by (simp add: matches6_iff div_times_less_eq_dividend)
  then show "r6_ip l \<le> d"
    using be_val_le_iff [of "r6_ip l" d] v(2) valid6_ip [OF v(1)] by (simp add: valid_ip6_def)
next
  fix l
  assume v: "valid6 l"
  have "r6_mask l < 128" by (rule valid6_less [OF v])
  then have "be_val (r6_ip l) = be_val (r6_ip l) div net_size6 (r6_mask l) * net_size6 (r6_mask l)"
    using mask_ip6_Some [OF valid6_ip [OF v]] v by (force simp: valid6_def)
  then show "matches6 l (r6_ip l)" using matches6_iff [OF v valid6_ip [OF v]] by simp
next
  fix l l' d
  assume v: "valid6 l" "valid6 l'" "valid_ip6 d" and m: "matches6 l d" "matches6 l' d"
    and lt: "r6_ip l < r6_ip l'"
  show "r6_mask l < r6_mask l'"
  proof (rule ccontr)
    assume "\<not> ?thesis"
    then have "unat (r6_mask l') \<le> unat (r6_mask l)" by (simp add: word_less_nat_alt)
    then have "net_size6 (r6_mask l) dvd net_size6 (r6_mask l')"
      unfolding net_size6_def by (intro le_imp_power_dvd) simp
    then have "be_val (r6_ip l') \<le> be_val (r6_ip l)"
      using m v by (simp add: matches6_iff div_times_mono_dvd net_size6_def)
    moreover have "be_val (r6_ip l) < be_val (r6_ip l')"
      using be_val_less_iff [of "r6_ip l" "r6_ip l'"] lt v(1,2) [THEN valid6_ip]
      by (simp add: valid_ip6_def)
    ultimately show False by simp
  qed
qed (simp_all add: route6_insert_def Let_def split: prod.splits)


section \<open>Properties of the IPv6 list\<close>

definition key6 :: "route6_link \<Rightarrow> bytes \<times> u8" where
  "key6 l = (r6_ip l, r6_mask l)"

definition table6 :: "route6_link list \<Rightarrow> bool" where
  "table6 rs \<longleftrightarrow> (\<forall>r \<in> set rs. valid6 r) \<and> desc key6 rs"

text \<open>2001:db8:8000::/33 through tunnel 1 above 2001:db8::/32 through tunnel 2.\<close>

definition ip6_of :: "bytes \<Rightarrow> bytes" where
  "ip6_of pre = pre @ replicate (16 - length pre) 0"

definition sample_routes6 :: "route6_link list" where
  "sample_routes6 =
     [\<lparr>r6_ip = ip6_of [0x20, 0x01, 0x0d, 0xb8, 0x80], r6_mask = 33, r6_tun = 1\<rparr>,
      \<lparr>r6_ip = ip6_of [0x20, 0x01, 0x0d, 0xb8], r6_mask = 32, r6_tun = 2\<rparr>]"

lemma key6_eq: "key6 = (\<lambda>r. (r6_ip r, r6_mask r))"
  by (simp add: key6_def fun_eq_iff)

lemma table6_D: "table6 rs \<Longrightarrow> \<forall>r \<in> set rs. valid6 r"
  "table6 rs \<Longrightarrow> desc (\<lambda>r. (r6_ip r, r6_mask r)) rs"
  by (simp_all add: table6_def key6_eq)

lemma table6_sample: "table6 sample_routes6"
  by code_simp

text \<open>C27: the byte loop with the partial mask is a prefix test. For a network that
  \<open>mask_ip6\<close> normalised, \<open>ip6_addr_match\<close> reads within both addresses and answers whether
  the first \<open>n\<close> of their 128 bits are the same.\<close>

theorem ip6_addr_match_prefix:
  assumes "valid_ip6 ip" "valid_ip6 net0" "n < 128" "mask_ip6 net0 n = Some net"
  shows "ip6_addr_match net n ip =
    Some (be_val net0 div 2 ^ (128 - unat n) = be_val ip div 2 ^ (128 - unat n))"
proof -
  let ?l = "\<lparr>r6_ip = net, r6_mask = n, r6_tun = 0\<rparr>"
  have "valid6 ?l" using valid6_mask [OF assms(2-4)] by (simp add: valid6_def)
  then have "ip6_addr_match net n ip = Some (be_val net = be_val ip div net_size6 n * net_size6 n)"
    using ip6_addr_match_valid [of ?l ip] assms(1) by simp
  moreover have "be_val net = be_val net0 div net_size6 n * net_size6 n"
    using mask_ip6_Some [OF assms(2,3)] assms(4) by auto
  ultimately show ?thesis by (simp add: net_size6_def)
qed

theorem ip6_addr_match_prefix_witness:
  "ip6_addr_match (r6_ip (hd sample_routes6)) 33 (ip6_of [0x20, 0x01, 0x0d, 0xb8, 0x9f]) = Some True"
proof -
  let ?net = "r6_ip (hd sample_routes6)" and ?ip = "ip6_of [0x20, 0x01, 0x0d, 0xb8, 0x9f]"
  have v: "valid_ip6 ?ip" "valid_ip6 ?net" "mask_ip6 ?net 33 = Some ?net"
    by code_simp+
  have "be_val ?net div 2 ^ (128 - unat (33 :: u8)) = be_val ?ip div 2 ^ (128 - unat (33 :: u8))"
    by (simp add: sample_routes6_def ip6_of_def be_val_append)
  then show ?thesis using ip6_addr_match_prefix [OF v(1,2) _ v(3)] by simp
qed

text \<open>C26: \<open>route6\<close> and \<open>send6\<close> together. Inserting a normalised link into a sorted IPv6
  table gives a sorted table with that link in place of the one with the same key, and any
  tunnel the lookup finds in it is that of the longest matching prefix.\<close>

theorem route6_insert_lookup:
  assumes "valid6 l" "table6 rs" "route6_insert l rs = (rs', n, old)" "valid_ip6 d"
  shows "table6 rs' \<and> set rs' = insert l {r \<in> set rs. key6 r \<noteq> key6 l} \<and>
    old = map_option r6_tun (find (\<lambda>r. key6 r = key6 l) rs) \<and>
    (\<forall>t. route6_lookup d rs' = Some t \<and> t \<noteq> 0 \<longrightarrow> (\<exists>r. is_lpm matches6 r6_mask d rs' r \<and> r6_tun r = t))"
proof -
  have ins: "table6 rs' \<and> set rs' = insert l {r \<in> set rs. key6 r \<noteq> key6 l} \<and>
      old = map_option r6_tun (find (\<lambda>r. key6 r = key6 l) rs)"
    using routes6.insert_list [OF assms(1) table6_D [OF assms(2)] assms(3)] assms(1,2)
    by (auto simp: table6_def key6_eq)
  then have "table6 rs'" ..
  then show ?thesis
    using ins routes6.lookup_sound [OF table6_D(1) assms(4) table6_D(2)] by blast
qed

theorem route6_insert_lookup_witness:
  "\<exists>r. is_lpm matches6 r6_mask (ip6_of [0x20, 0x01, 0x0d, 0xb8, 0x9f])
     [\<lparr>r6_ip = ip6_of [0x20, 0x01, 0x0d, 0xb8, 0x80], r6_mask = 33, r6_tun = 7\<rparr>, sample_routes6 ! 1] r
   \<and> r6_tun r = 7"
proof -
  let ?l = "\<lparr>r6_ip = ip6_of [0x20, 0x01, 0x0d, 0xb8, 0x80], r6_mask = 33, r6_tun = 7\<rparr>"
  let ?d = "ip6_of [0x20, 0x01, 0x0d, 0xb8, 0x9f]"
  have "route6_insert ?l sample_routes6 = ([?l, sample_routes6 ! 1], 0, Some 1)" "valid6 ?l"
    "route6_lookup ?d [?l, sample_routes6 ! 1] = Some 7" "valid_ip6 ?d"
    by code_simp+
  then show ?thesis using route6_insert_lookup [OF _ table6_sample] by force
qed

text \<open>A host route cannot be stored safely. For a mask of 128 \<open>route6\<close> reads the byte
  behind the 16-byte address it was given, whatever the address.\<close>

theorem route6_host_overread:
  assumes "length ip = 16"
  shows "mask_ip6 ip 128 = None"
  using mask_ip6_128 [of ip 128] assms by (simp add: valid_ip6_def)

theorem route6_host_overread_witness: "mask_ip6 (ip6_of [0xfe, 0x80]) 128 = None"
  by (rule route6_host_overread) (simp add: ip6_of_def)

end
