(* ===== verification/World.thy ===== *)
theory World
  imports Queues IpPacket Routes
begin

text \<open>
  The state that the tunnels, the router and the NAT share, and the operating system and
  Java calls they make. Every struct is a record, and a pointer is an address (0 is
  \<open>NULL\<close>); a map from addresses holds the live objects, so a use of a freed one is a fault
  (\<open>None\<close>). \<open>malloc\<close> returns addresses that were never used before. What the system
  answers is a parameter: the record \<open>env\<close> gives the result of each call as a function of
  the events so far, and \<open>w_io\<close> records the events. The critical sections under the
  read-write locks are taken to be atomic, so a lock is only known to exist or not, and
  \<open>errno\<close>, logging and the attachment of threads to the JVM are left out.
\<close>

section \<open>The structs\<close>

datatype send_fn = Tun_ctx_send | Dev_tun_send | Usernat_tun_ctx_send
datatype recv_fn = Tun_ctx_recv | Dev_tun_recv | Usernat_tun_ctx_recv
datatype destroy_fn = Destroy_tun_ctx | Destroy_usernat_tun_ctx

text \<open>\<open>pcap_output_t\<close>: a class, three methods and the stream, as handles of the JVM.\<close>

record pcap_output =
  po_class :: nat
  po_write :: nat
  po_flush :: nat
  po_close :: nat
  jpcap :: nat

text \<open>\<open>nat_common_link_t\<close> and \<open>nat_ip4_link_t\<close>; the links of a tunnel form a list of
  (address, link) pairs. No code makes an IPv6 link.\<close>

record nat_link =
  link_type :: u8
  sock_accept :: int
  sock_connect :: int
  enqueue_packets :: bool
  packets_queue :: nat
  socat_pid :: int
  hop_port :: u16
  cycles_to_live :: int
  usernat_ctx :: nat
  real_src_addr :: u32
  real_src_port :: u16
  real_dst_addr :: u32
  real_dst_port :: u16

text \<open>What \<open>usernat_tun_ctx_private_t\<close> adds to a tunnel.\<close>

record usernat =
  original_destroy :: destroy_fn
  local4 :: u32
  local6 :: bytes
  remote4 :: u32
  remote6 :: bytes
  nat_links :: "(nat \<times> nat_link) list"
  j_usernat_tun :: "nat option"

text \<open>\<open>tun_ctx_private_t\<close>. The function pointers that differ between the kinds of tunnel are
  the first three fields. A Java wrapper object is the handle it holds.\<close>

record tun_ctx =
  tc_destroy :: destroy_fn
  tc_send :: send_fn
  tc_recv :: recv_fn
  ref_count :: u32
  ref_generation :: u32
  tc_rwlock :: bool
  local_fd :: int
  remote_fd :: int
  virtual_dns_ip4 :: "u32 list"
  dns_ip4 :: "u32 list"
  masquerade4 :: u32
  masquerade6 :: bytes
  use_masquerade4 :: bool
  use_masquerade6 :: bool
  tc_router :: nat
  bytes_in :: u64
  bytes_out :: u64
  j_vpn_tun :: "nat option"
  pcap_out :: "pcap_output option"
  tc_usernat :: "usernat option"

text \<open>\<open>epoll_link_t\<close> and \<open>router_ctx_t\<close>. \<open>router_init\<close> leaves the three IPv6 fields as
  \<open>malloc\<close> returned them, so the list may be a wild pointer (\<open>None\<close>). \<open>epoll_links\<close> is
  \<open>None\<close> after a failed reallocation.\<close>

record epoll_link =
  el_fd :: int
  el_events :: u32
  el_evt_fd :: int
  el_tun :: nat

record router_ctx =
  dev_tun :: nat
  ip4_routes :: "route4_link list"
  ip4_routes_count :: int
  ip4_default :: nat
  ip6_routes :: "route6_link list option"
  ip6_routes_count :: int
  ip6_default :: nat
  epoll_fd :: int
  epoll_links :: "epoll_link list option"
  epoll_links_capacity :: nat
  epoll_links_count :: nat
  routes_updated :: bool
  paused :: bool
  terminate :: bool

section \<open>Events, state and environment\<close>

definition UNDEFINED_FD :: int where "UNDEFINED_FD = - 1"

datatype io =
    Read int nat
  | Write int bytes
  | Shutdown int
  | Close int
  | Socketpair
  | Socket int int
  | Bind int u32
  | Getsockname int
  | Listen int
  | Connect int u32 u16
  | Protect nat int
  | Epoll_create
  | Epoll_add int int
  | Epoll_del int int
  | Epoll_wait int
  | Establish
  | New_global_ref nat
  | Delete_global_ref nat
  | Jni_lookup
  | Pcap_write nat bytes
  | Pcap_flush nat
  | Pcap_close nat
  | Get_address4
  | Build_socat nat int int u32 u16 nat

record world =
  w_tuns :: "nat \<Rightarrow> tun_ctx option"
  w_routers :: "nat \<Rightarrow> router_ctx option"
  w_mem :: qmem
  w_brk :: nat
  w_io :: "io list"

text \<open>\<open>read\<close> answers \<open>None\<close> for -1 and otherwise the bytes, of which at most the requested
  number count. \<open>epoll_wait\<close> answers \<open>None\<close> for -1 and otherwise the events with their descriptors,
  and \<open>e_establish\<close> is the descriptor of the TUN device. \<open>e_wild6\<close> is what the three IPv6 fields of a fresh router hold.\<close>

record env =
  e_malloc :: "nat \<Rightarrow> bool"
  e_lock_init :: "nat \<Rightarrow> bool"
  e_read :: "io list \<Rightarrow> int \<Rightarrow> nat \<Rightarrow> bytes option"
  e_write :: "io list \<Rightarrow> int \<Rightarrow> bytes \<Rightarrow> int"
  e_socketpair :: "io list \<Rightarrow> (int \<times> int) option"
  e_socket :: "io list \<Rightarrow> int"
  e_bind :: "io list \<Rightarrow> bool"
  e_getsockname :: "io list \<Rightarrow> u16 option"
  e_listen :: "io list \<Rightarrow> bool"
  e_protect :: "io list \<Rightarrow> bool"
  e_epoll_create :: "io list \<Rightarrow> int"
  e_epoll_del :: "io list \<Rightarrow> bool"
  e_epoll_wait :: "io list \<Rightarrow> (u32 \<times> int) list option"
  e_establish :: "io list \<Rightarrow> int"
  e_handle :: "io list \<Rightarrow> nat"
  e_address4 :: "io list \<Rightarrow> u32"
  e_socat_pid :: "io list \<Rightarrow> int"
  e_wild6 :: "nat \<Rightarrow> route6_link list option \<times> int \<times> nat"

definition emit :: "io \<Rightarrow> world \<Rightarrow> world" where
  "emit e w = w\<lparr>w_io := w_io w @ [e]\<rparr>"

text \<open>\<open>malloc\<close>: the next address, or 0.\<close>

definition malloc :: "env \<Rightarrow> world \<Rightarrow> nat \<times> world" where
  "malloc env w =
     (if e_malloc env (w_brk w) then Suc (w_brk w) else 0, w\<lparr>w_brk := Suc (w_brk w)\<rparr>)"

definition get_tun :: "world \<Rightarrow> nat \<Rightarrow> tun_ctx option" where
  "get_tun w t = (if t = 0 then None else w_tuns w t)"

definition set_tun :: "nat \<Rightarrow> tun_ctx \<Rightarrow> world \<Rightarrow> world" where
  "set_tun t c w = w\<lparr>w_tuns := (w_tuns w)(t \<mapsto> c)\<rparr>"

definition free_tun :: "nat \<Rightarrow> world \<Rightarrow> world" where
  "free_tun t w = w\<lparr>w_tuns := (w_tuns w)(t := None)\<rparr>"

definition get_router :: "world \<Rightarrow> nat \<Rightarrow> router_ctx option" where
  "get_router w r = (if r = 0 then None else w_routers w r)"

definition set_router :: "nat \<Rightarrow> router_ctx \<Rightarrow> world \<Rightarrow> world" where
  "set_router r c w = w\<lparr>w_routers := (w_routers w)(r \<mapsto> c)\<rparr>"

text \<open>An assignment to fields of a tunnel or of a router.\<close>

definition upd_tun :: "nat \<Rightarrow> (tun_ctx \<Rightarrow> tun_ctx) \<Rightarrow> world \<Rightarrow> world option" where
  "upd_tun t f w = do { c \<leftarrow> get_tun w t; Some (set_tun t (f c) w) }"

definition upd_router :: "nat \<Rightarrow> (router_ctx \<Rightarrow> router_ctx) \<Rightarrow> world \<Rightarrow> world option" where
  "upd_router r f w = do { c \<leftarrow> get_router w r; Some (set_router r (f c) w) }"

lemma world_simps [simp]:
  "w_tuns (emit e w) = w_tuns w" "w_routers (emit e w) = w_routers w" "w_mem (emit e w) = w_mem w"
  "w_brk (emit e w) = w_brk w" "w_io (emit e w) = w_io w @ [e]"
  "w_tuns (set_tun t c w) = (w_tuns w)(t \<mapsto> c)" "w_routers (set_tun t c w) = w_routers w"
  "w_mem (set_tun t c w) = w_mem w" "w_brk (set_tun t c w) = w_brk w" "w_io (set_tun t c w) = w_io w"
  "w_tuns (free_tun t w) = (w_tuns w)(t := None)" "w_routers (free_tun t w) = w_routers w"
  "w_mem (free_tun t w) = w_mem w" "w_brk (free_tun t w) = w_brk w" "w_io (free_tun t w) = w_io w"
  "w_tuns (set_router r rc w) = w_tuns w" "w_routers (set_router r rc w) = (w_routers w)(r \<mapsto> rc)"
  "w_mem (set_router r rc w) = w_mem w" "w_brk (set_router r rc w) = w_brk w"
  "w_io (set_router r rc w) = w_io w"
  by (simp_all add: emit_def set_tun_def free_tun_def set_router_def)

lemma get_simps [simp]:
  "get_tun (emit e w) t = get_tun w t" "get_router (emit e w) r = get_router w r"
  "get_router (set_tun t c w) r = get_router w r" "get_router (free_tun t w) r = get_router w r"
  "get_tun (set_router r rc w) t = get_tun w t"
  "t \<noteq> 0 \<Longrightarrow> get_tun (set_tun t c w) t = Some c"
  "t' \<noteq> t \<Longrightarrow> get_tun (set_tun t c w) t' = get_tun w t'"
  "t' \<noteq> t \<Longrightarrow> get_tun (free_tun t w) t' = get_tun w t'"
  "get_tun (free_tun t w) t = None"
  "r \<noteq> 0 \<Longrightarrow> get_router (set_router r rc w) r = Some rc"
  "r' \<noteq> r \<Longrightarrow> get_router (set_router r rc w) r' = get_router w r'"
  by (simp_all add: get_tun_def get_router_def)

lemma get_0 [simp]: "get_tun w 0 = None" "get_router w 0 = None"
  by (simp_all add: get_tun_def get_router_def)

lemma get_tun_nz: "get_tun w t = Some c \<Longrightarrow> t \<noteq> 0"
  by (auto simp: get_tun_def split: if_splits)

lemma get_router_nz: "get_router w r = Some c \<Longrightarrow> r \<noteq> 0"
  by (auto simp: get_router_def split: if_splits)

end
