(* ===== verification/Tun.thy ===== *)
theory Tun
  imports World
begin

text \<open>
  Tunnels: \<open>refs.h\<close>, \<open>pcap_output.c\<close>, \<open>java_VpnTunnel.c\<close>, \<open>java_UsernatTunnel.c\<close>, \<open>tun.c\<close>,
  \<open>tun_dev_tun.c\<close> and the constructors in \<open>tun_ipsec.c\<close>, \<open>tun_l2tp.c\<close> and \<open>tun_openvpn.c\<close>. A packet
  buffer is passed in and its new contents are returned. \<open>dev_tun_recv\<close> calls the router
  and is in \<open>Router\<close>; sending through the NAT is in \<open>UserNat\<close>.

  \<open>destroy_tun_ctx\<close> clears the fields of the tunnel before it frees it; nothing can read
  them in between, so only the calls it makes and the free are modelled.
\<close>

section \<open>Packet capture\<close>

definition pcap_output_init :: "env \<Rightarrow> world \<Rightarrow> nat \<Rightarrow> pcap_output option \<times> world" where
  "pcap_output_init env w jp =
     (let (p, w) = malloc env w in
      if p = 0 then (None, w)
      else
        let w = emit Jni_lookup w; clazz = e_handle env (w_io w);
            w = emit (New_global_ref clazz) w; cls = e_handle env (w_io w);
            w = emit Jni_lookup w; wr = e_handle env (w_io w);
            w = emit Jni_lookup w; fl = e_handle env (w_io w);
            w = emit Jni_lookup w; cl = e_handle env (w_io w)
        in if jp \<noteq> 0
           then let w = emit (New_global_ref jp) w
                in (Some \<lparr>po_class = cls, po_write = wr, po_flush = fl, po_close = cl,
                          jpcap = e_handle env (w_io w)\<rparr>, w)
           else (Some \<lparr>po_class = cls, po_write = wr, po_flush = fl, po_close = cl, jpcap = 0\<rparr>, w))"

text \<open>The callers pass the offset 0.\<close>

definition pcap_output_write :: "pcap_output option \<Rightarrow> bytes \<Rightarrow> int \<Rightarrow> world \<Rightarrow> world option" where
  "pcap_output_write out b len w =
     (case out of None \<Rightarrow> Some w
      | Some p \<Rightarrow>
          if po_class p = 0 \<or> po_write p = 0 then Some w
          else do {
            d \<leftarrow> rd_bytes b 0 (nat len);
            Some (emit (Pcap_write (jpcap p) d) w)
          })"

definition pcap_output_flush :: "pcap_output option \<Rightarrow> world \<Rightarrow> world" where
  "pcap_output_flush out w =
     (case out of None \<Rightarrow> w
      | Some p \<Rightarrow> if jpcap p = 0 then w else emit (Pcap_flush (jpcap p)) w)"

definition pcap_output_close :: "pcap_output option \<Rightarrow> world \<Rightarrow> world" where
  "pcap_output_close out w =
     (case out of None \<Rightarrow> w
      | Some p \<Rightarrow> if jpcap p = 0 then w else emit (Pcap_close (jpcap p)) w)"

text \<open>\<open>output->jpcap\<close> is cleared before it is copied into the local \<open>jpcap\<close>, so both the
  deletion of the old reference and the creation of the new one get \<open>NULL\<close>.\<close>

definition pcap_output_reset :: "env \<Rightarrow> pcap_output \<Rightarrow> nat \<Rightarrow> world \<Rightarrow> pcap_output \<times> world" where
  "pcap_output_reset env p jpcap_new w =
     (let w = pcap_output_close (Some p) (pcap_output_flush (Some p) w);
          jpcap_old = jpcap p;
          p = p\<lparr>jpcap := 0\<rparr>;
          jp = jpcap p;
          w = (if jpcap_old \<noteq> 0 then emit (Delete_global_ref (jpcap p)) w else w)
      in if jpcap_new \<noteq> 0
         then let w = emit (New_global_ref jp) w in (p\<lparr>jpcap := e_handle env (w_io w)\<rparr>, w)
         else (p, w))"

definition pcap_output_destroy :: "pcap_output option \<Rightarrow> world \<Rightarrow> world" where
  "pcap_output_destroy out w =
     (case out of None \<Rightarrow> w
      | Some p \<Rightarrow>
          let w = (if po_class p \<noteq> 0 then emit (Delete_global_ref (po_class p)) w else w)
          in if jpcap p \<noteq> 0 then emit (Delete_global_ref (jpcap p)) w else w)"

section \<open>Java wrappers\<close>

definition wrap_into_VpnTunnel :: "env \<Rightarrow> world \<Rightarrow> nat \<Rightarrow> nat option \<times> world" where
  "wrap_into_VpnTunnel env w obj =
     (let (p, w) = malloc env w in
      if p = 0 then (None, w)
      else
        let w = emit (New_global_ref obj) w; gref = e_handle env (w_io w);
            w = emit Jni_lookup (emit Jni_lookup w)
        in (Some gref, w))"

definition destroy_VpnTunnel :: "nat option \<Rightarrow> world \<Rightarrow> world" where
  "destroy_VpnTunnel inst w =
     (case inst of None \<Rightarrow> w
      | Some obj \<Rightarrow> if obj \<noteq> 0 then emit (Delete_global_ref obj) w else w)"

definition protectSocket :: "env \<Rightarrow> nat option \<Rightarrow> int \<Rightarrow> world \<Rightarrow> bool \<times> world" where
  "protectSocket env inst sock w =
     (case inst of None \<Rightarrow> (False, w)
      | Some obj \<Rightarrow> let w = emit (Protect obj sock) w in (e_protect env (w_io w), w))"

definition wrap_into_UsernatTunnel :: "env \<Rightarrow> world \<Rightarrow> nat \<Rightarrow> nat option \<times> world" where
  "wrap_into_UsernatTunnel env w obj =
     (let (p, w) = malloc env w in
      if p = 0 then (None, w)
      else
        let w = emit (New_global_ref obj) w; gref = e_handle env (w_io w);
            w = emit Jni_lookup (emit Jni_lookup (emit Jni_lookup (emit Jni_lookup w)))
        in (Some gref, w))"

definition destroy_UsernatTunnel :: "nat option \<Rightarrow> world \<Rightarrow> world" where
  "destroy_UsernatTunnel inst w =
     (case inst of None \<Rightarrow> w
      | Some obj \<Rightarrow> if obj \<noteq> 0 then emit (Delete_global_ref obj) w else w)"

section \<open>Destruction and reference counts\<close>

definition destroy_tun_ctx :: "world \<Rightarrow> nat \<Rightarrow> world option" where
  "destroy_tun_ctx w t =
     (if t = 0 then Some w
      else do {
        c \<leftarrow> get_tun w t;
        let w = (if local_fd c \<noteq> UNDEFINED_FD then emit (Shutdown (local_fd c)) w else w);
        let w = (if remote_fd c \<noteq> UNDEFINED_FD then emit (Shutdown (remote_fd c)) w else w);
        let w = destroy_VpnTunnel (j_vpn_tun c) w;
        let w = pcap_output_destroy (pcap_out c) w;
        Some (free_tun t w)
      })"

definition destroy_usernat_tun_ctx :: "world \<Rightarrow> nat \<Rightarrow> world option" where
  "destroy_usernat_tun_ctx w t =
     (if t = 0 then Some w
      else do {
        c \<leftarrow> get_tun w t;
        u \<leftarrow> tc_usernat c;
        let w = destroy_UsernatTunnel (j_usernat_tun u) w;
        w \<leftarrow> upd_tun t (\<lambda>c. c\<lparr>tc_usernat := Some (u\<lparr>j_usernat_tun := None\<rparr>)\<rparr>) w;
        case original_destroy u of
          Destroy_tun_ctx \<Rightarrow> destroy_tun_ctx w t
        | Destroy_usernat_tun_ctx \<Rightarrow> None
      })"

definition tun_destroy :: "world \<Rightarrow> nat \<Rightarrow> world option" where
  "tun_destroy w t = do {
     c \<leftarrow> get_tun w t;
     case tc_destroy c of
       Destroy_tun_ctx \<Rightarrow> destroy_tun_ctx w t
     | Destroy_usernat_tun_ctx \<Rightarrow> destroy_usernat_tun_ctx w t
   }"

text \<open>\<open>ref_get\<close> and \<open>ref_put\<close> of the library add and subtract one atomically; \<open>ref_put\<close>
  answers whether the result is zero.\<close>

definition ref_get :: "world \<Rightarrow> nat \<Rightarrow> (nat \<times> world) option" where
  "ref_get w t = do {
     c \<leftarrow> get_tun w t;
     let res = ref_count c + 1;
     Some (if res > 0 then t else 0,
           set_tun t (c\<lparr>ref_count := res, ref_generation := ref_generation c + 1\<rparr>) w)
   }"

definition ref_put :: "world \<Rightarrow> nat \<Rightarrow> (nat \<times> world) option" where
  "ref_put w t = do {
     c \<leftarrow> get_tun w t;
     let w = set_tun t (c\<lparr>ref_count := ref_count c - 1, ref_generation := ref_generation c + 1\<rparr>) w;
     if ref_count c - 1 \<noteq> 0 then Some (t, w)
     else do { w \<leftarrow> tun_destroy w t; Some (0, w) }
   }"

section \<open>Construction\<close>

definition zero_tun :: tun_ctx where
  "zero_tun = \<lparr>tc_destroy = Destroy_tun_ctx, tc_send = Tun_ctx_send, tc_recv = Tun_ctx_recv,
     ref_count = 0, ref_generation = 0, tc_rwlock = False, local_fd = 0, remote_fd = 0,
     virtual_dns_ip4 = replicate 4 0, dns_ip4 = replicate 4 0, masquerade4 = 0,
     masquerade6 = replicate 16 0, use_masquerade4 = False, use_masquerade6 = False,
     tc_router = 0, bytes_in = 0, bytes_out = 0, j_vpn_tun = None, pcap_out = None,
     tc_usernat = None\<rparr>"

text \<open>\<open>fits\<close> is \<open>len >= sizeof(struct tun_ctx_private_t)\<close>. When the lock cannot be made the
  tunnel is released while both descriptors still hold the 0 of \<open>memset\<close>.\<close>

definition create_tun_ctx :: "env \<Rightarrow> world \<Rightarrow> nat \<Rightarrow> bool \<Rightarrow> (nat \<times> world) option" where
  "create_tun_ctx env w ptr fits =
     (let (t, w) = (if ptr = 0 \<or> \<not> fits then malloc env w else (ptr, w)) in
      if t = 0 then Some (0, w)
      else do {
        let w = set_tun t zero_tun w;
        (_, w) \<leftarrow> ref_get w t;
        let (lock, w) = malloc env w;
        if lock = 0 \<or> \<not> e_lock_init env lock then ref_put w t
        else do {
          w \<leftarrow> upd_tun t (\<lambda>c. c\<lparr>tc_rwlock := True, local_fd := UNDEFINED_FD,
                 remote_fd := UNDEFINED_FD\<rparr>) w;
          Some (t, w)
        }
      })"

definition create_tun_dev_tun_ctx :: "env \<Rightarrow> world \<Rightarrow> nat \<Rightarrow> bool \<Rightarrow> (nat \<times> world) option" where
  "create_tun_dev_tun_ctx env w ptr fits = do {
     (result, w) \<leftarrow> create_tun_ctx env w ptr fits;
     if result = 0 then Some (0, w)
     else do {
       w \<leftarrow> upd_tun result (\<lambda>c. c\<lparr>tc_send := Dev_tun_send, tc_recv := Dev_tun_recv\<rparr>) w;
       Some (result, w)
     }
   }"

text \<open>The three constructors with a socket pair are the same code.\<close>

definition create_socketpair_tun_ctx :: "env \<Rightarrow> world \<Rightarrow> nat \<Rightarrow> bool \<Rightarrow> (nat \<times> world) option" where
  "create_socketpair_tun_ctx env w ptr fits = do {
     (result, w) \<leftarrow> create_tun_ctx env w ptr fits;
     if result = 0 then Some (0, w)
     else do {
       let w = emit Socketpair w;
       case e_socketpair env (w_io w) of
         None \<Rightarrow> ref_put w result
       | Some (fd0, fd1) \<Rightarrow> do {
           w \<leftarrow> upd_tun result (\<lambda>c. c\<lparr>local_fd := fd0, remote_fd := fd1\<rparr>) w;
           Some (result, w)
         }
     }
   }"

definition create_ipsec_tun_ctx where "create_ipsec_tun_ctx = create_socketpair_tun_ctx"
definition create_l2tp_tun_ctx where "create_l2tp_tun_ctx = create_socketpair_tun_ctx"
definition create_openvpn_tun_ctx where "create_openvpn_tun_ctx = create_socketpair_tun_ctx"

section \<open>Setters and getters\<close>

text \<open>A setter that is called with \<open>NULL\<close> returns at once.\<close>

definition tun_set :: "(tun_ctx \<Rightarrow> tun_ctx) \<Rightarrow> world \<Rightarrow> nat \<Rightarrow> world option" where
  "tun_set f w t = (if t = 0 then Some w else upd_tun t f w)"

definition set_tun_dev_tun_fd :: "world \<Rightarrow> nat \<Rightarrow> int \<Rightarrow> world option" where
  "set_tun_dev_tun_fd w t fd = tun_set (\<lambda>c. c\<lparr>local_fd := fd, remote_fd := fd\<rparr>) w t"

definition set_router_context :: "world \<Rightarrow> nat \<Rightarrow> nat \<Rightarrow> world option" where
  "set_router_context w t r = tun_set (\<lambda>c. c\<lparr>tc_router := r\<rparr>) w t"

definition set_java_vpn_tunnel :: "env \<Rightarrow> world \<Rightarrow> nat \<Rightarrow> nat \<Rightarrow> world option" where
  "set_java_vpn_tunnel env w t obj =
     (if t = 0 then Some w
      else let (j, w) = wrap_into_VpnTunnel env w obj in upd_tun t (\<lambda>c. c\<lparr>j_vpn_tun := j\<rparr>) w)"

definition get_local_fd :: "world \<Rightarrow> nat \<Rightarrow> int option" where
  "get_local_fd w t = (if t = 0 then Some UNDEFINED_FD else map_option local_fd (get_tun w t))"

definition get_remote_fd :: "world \<Rightarrow> nat \<Rightarrow> int option" where
  "get_remote_fd w t = (if t = 0 then Some UNDEFINED_FD else map_option remote_fd (get_tun w t))"

definition set_dns_ip4 :: "world \<Rightarrow> nat \<Rightarrow> u32 \<Rightarrow> u32 \<Rightarrow> world option" where
  "set_dns_ip4 w t idx ip4 =
     (if t = 0 \<or> idx > 3 then Some w
      else upd_tun t (\<lambda>c. c\<lparr>dns_ip4 := (dns_ip4 c)[unat idx := ip4]\<rparr>) w)"

definition set_virtual_dns_ip4 :: "world \<Rightarrow> nat \<Rightarrow> u32 \<Rightarrow> u32 \<Rightarrow> world option" where
  "set_virtual_dns_ip4 w t idx ip4 =
     (if t = 0 \<or> idx > 3 then Some w
      else upd_tun t (\<lambda>c. c\<lparr>virtual_dns_ip4 := (virtual_dns_ip4 c)[unat idx := ip4]\<rparr>) w)"

definition set_masquerade4_mode :: "world \<Rightarrow> nat \<Rightarrow> bool \<Rightarrow> world option" where
  "set_masquerade4_mode w t mode = tun_set (\<lambda>c. c\<lparr>use_masquerade4 := mode\<rparr>) w t"

definition set_masquerade4_ip :: "world \<Rightarrow> nat \<Rightarrow> u32 \<Rightarrow> world option" where
  "set_masquerade4_ip w t ip = tun_set (\<lambda>c. c\<lparr>masquerade4 := ip\<rparr>) w t"

definition set_masquerade6_mode :: "world \<Rightarrow> nat \<Rightarrow> bool \<Rightarrow> world option" where
  "set_masquerade6_mode w t mode = tun_set (\<lambda>c. c\<lparr>use_masquerade6 := mode\<rparr>) w t"

text \<open>The code copies 16 bytes from the pointer it gets.\<close>

definition set_masquerade6_ip :: "world \<Rightarrow> nat \<Rightarrow> bytes \<Rightarrow> world option" where
  "set_masquerade6_ip w t ip =
     (if t = 0 then Some w
      else do { a \<leftarrow> rd_bytes ip 0 16; upd_tun t (\<lambda>c. c\<lparr>masquerade6 := a\<rparr>) w })"

text \<open>\<open>tun_ctx\<close> is not compared with \<open>NULL\<close> here.\<close>

definition debug_restart_pcap :: "env \<Rightarrow> world \<Rightarrow> nat \<Rightarrow> nat \<Rightarrow> world option" where
  "debug_restart_pcap env w t obj = do {
     c \<leftarrow> get_tun w t;
     case pcap_out c of
       Some p \<Rightarrow> let (p, w) = pcap_output_reset env p obj w
                 in upd_tun t (\<lambda>c. c\<lparr>pcap_out := Some p\<rparr>) w
     | None \<Rightarrow> let (p, w) = pcap_output_init env w obj
                in upd_tun t (\<lambda>c. c\<lparr>pcap_out := p\<rparr>) w
   }"

definition debug_stop_pcap :: "world \<Rightarrow> nat \<Rightarrow> world option" where
  "debug_stop_pcap w t = do {
     c \<leftarrow> get_tun w t;
     case pcap_out c of
       None \<Rightarrow> Some w
     | Some p \<Rightarrow>
         let w = pcap_output_destroy (Some p) (pcap_output_close (Some p) (pcap_output_flush (Some p) w))
         in upd_tun t (\<lambda>c. c\<lparr>pcap_out := None\<rparr>) w
   }"

section \<open>Rewriting packets\<close>

text \<open>The \<open>switch\<close> over the payload protocol that follows every rewriting of an IPv4
  header.\<close>

definition calc_payload_checksum4 :: "u8 \<Rightarrow> bytes \<Rightarrow> int \<Rightarrow> bytes option" where
  "calc_payload_checksum4 proto b len =
     (if proto = IPPROTO_TCP then map_option snd (ip4_calc_tcp_checksum b len)
      else if proto = IPPROTO_UDP then map_option snd (ip4_calc_udp_checksum b len)
      else Some b)"

text \<open>The IPv6 counterpart. \<open>common_sum\<close> is declared \<open>uint16_t\<close>, so the 32-bit sum is
  truncated.\<close>

definition calc_payload_checksum6 :: "ocpa_ip_packet \<Rightarrow> bytes \<Rightarrow> bytes option" where
  "calc_payload_checksum6 p b =
     (if payload_proto p = IPPROTO_TCP then do {
        s \<leftarrow> ip6_calc_common_pseudoheader_sum b;
        let common_sum = (ucast s :: u16);
        (_, b) \<leftarrow> ip6_calc_tcp_checksum (ucast common_sum) b (unat (payload_offs p)) (sint (payload_len p));
        Some b
      }
      else if payload_proto p = IPPROTO_UDP then do {
        s \<leftarrow> ip6_calc_common_pseudoheader_sum b;
        let common_sum = (ucast s :: u16);
        (_, b) \<leftarrow> ip6_calc_udp_checksum (ucast common_sum) b (unat (payload_offs p)) (sint (payload_len p));
        Some b
      }
      else Some b)"

text \<open>The loop over the four DNS addresses: where the address at \<open>offs\<close> equals \<open>old\<close>, the
  replacement is \<open>new\<close>. The header is read only for entries that are set.\<close>

fun dns_scan :: "bytes \<Rightarrow> nat \<Rightarrow> (u32 \<times> u32) list \<Rightarrow> u32 option option" where
  "dns_scan b offs [] = Some None"
| "dns_scan b offs ((old, new) # rest) =
     (if old \<noteq> 0 \<and> new \<noteq> 0 then do {
        a \<leftarrow> rd32 b offs;
        if a = old then Some (Some new) else dns_scan b offs rest
      }
      else dns_scan b offs rest)"

definition dns_rewrite :: "bytes \<Rightarrow> nat \<Rightarrow> (u32 \<times> u32) list \<Rightarrow> u8 \<Rightarrow> int \<Rightarrow> bytes option" where
  "dns_rewrite b offs table proto len = do {
     hit \<leftarrow> dns_scan b offs table;
     case hit of
       None \<Rightarrow> Some b
     | Some new \<Rightarrow> do {
         b \<leftarrow> wr32 b offs new;
         (_, b) \<leftarrow> ip4_calc_ip_checksum b len;
         calc_payload_checksum4 proto b len
       }
   }"

text \<open>Offsets 12 and 8 are the source address of an IPv4 and of an IPv6 header, 16 and 24
  the destination address.\<close>

definition masquerade :: "nat \<Rightarrow> nat \<Rightarrow> world \<Rightarrow> nat \<Rightarrow> bytes \<Rightarrow> int \<Rightarrow> bytes option" where
  "masquerade offs4 offs6 w t b len =
     (if t = 0 then Some b
      else do {
        p \<leftarrow> ip_parse_packet (new_packet b len len);
        c \<leftarrow> get_tun w t;
        if ipver p = 4 \<and> use_masquerade4 c then do {
          b \<leftarrow> wr32 b offs4 (masquerade4 c);
          (_, b) \<leftarrow> ip4_calc_ip_checksum b len;
          calc_payload_checksum4 (payload_proto p) b len
        }
        else if ipver p = 6 \<and> use_masquerade6 c then do {
          b \<leftarrow> wr_bytes b offs6 (masquerade6 c);
          calc_payload_checksum6 p b
        }
        else Some b
      })"

definition masquerade_src :: "world \<Rightarrow> nat \<Rightarrow> bytes \<Rightarrow> int \<Rightarrow> bytes option" where
  "masquerade_src = masquerade 12 8"

definition masquerade_dst :: "world \<Rightarrow> nat \<Rightarrow> bytes \<Rightarrow> int \<Rightarrow> bytes option" where
  "masquerade_dst = masquerade 16 24"

section \<open>Sending and receiving\<close>

definition sys_write :: "env \<Rightarrow> world \<Rightarrow> int \<Rightarrow> bytes \<Rightarrow> int \<Rightarrow> (int \<times> world) option" where
  "sys_write env w fd b len = do {
     d \<leftarrow> rd_bytes b 0 (nat len);
     let w = emit (Write fd d) w;
     Some (e_write env (w_io w) fd d, w)
   }"

text \<open>The result is the return value and the buffer with the bytes that were read.\<close>

definition read_ip_packet :: "env \<Rightarrow> world \<Rightarrow> int \<Rightarrow> bytes \<Rightarrow> int \<Rightarrow> (int \<times> bytes \<times> world) option" where
  "read_ip_packet env w fd b len =
     (let w = emit (Read fd (nat len)) w in
      case e_read env (w_io w) fd (nat len) of
        None \<Rightarrow> Some (- 1, b, w)
      | Some d \<Rightarrow> do {
          let d = take (nat len) d;
          b \<leftarrow> wr_bytes b 0 d;
          Some (int (length d), b, w)
        })"

definition dev_tun_send :: "env \<Rightarrow> world \<Rightarrow> nat \<Rightarrow> bytes \<Rightarrow> int \<Rightarrow> (int \<times> bytes \<times> world) option" where
  "dev_tun_send env w t b len = do {
     c \<leftarrow> get_tun w t;
     w \<leftarrow> pcap_output_write (pcap_out c) b len w;
     (size, w) \<leftarrow> sys_write env w (local_fd c) b len;
     Some (size, b, w)
   }"

definition tun_ctx_send :: "env \<Rightarrow> world \<Rightarrow> nat \<Rightarrow> bytes \<Rightarrow> int \<Rightarrow> (int \<times> bytes \<times> world) option" where
  "tun_ctx_send env w t b len =
     (if t = 0 then Some (- 1, b, w)
      else do {
        p \<leftarrow> ip_parse_packet (new_packet b len len);
        c \<leftarrow> get_tun w t;
        b \<leftarrow> dns_rewrite b 16 (zip (virtual_dns_ip4 c) (dns_ip4 c)) (payload_proto p) len;
        w \<leftarrow> pcap_output_write (pcap_out c) b len w;
        w \<leftarrow> upd_tun t (\<lambda>c. c\<lparr>bytes_out := bytes_out c + of_int len\<rparr>) w;
        (size, w) \<leftarrow> sys_write env w (local_fd c) b len;
        Some (size, b, w)
      })"

text \<open>\<open>send\<close> of the tunnel in \<open>dev_tun_ctx\<close>. \<open>router_init\<close> makes it with
  \<open>create_tun_dev_tun_ctx\<close> and nothing changes its function pointers, so it is never the
  send function of the NAT.\<close>

definition dev_send :: "env \<Rightarrow> world \<Rightarrow> nat \<Rightarrow> bytes \<Rightarrow> int \<Rightarrow> (int \<times> bytes \<times> world) option" where
  "dev_send env w t b len = do {
     c \<leftarrow> get_tun w t;
     case tc_send c of
       Dev_tun_send \<Rightarrow> dev_tun_send env w t b len
     | Tun_ctx_send \<Rightarrow> tun_ctx_send env w t b len
     | Usernat_tun_ctx_send \<Rightarrow> None
   }"

definition tun_ctx_recv :: "env \<Rightarrow> world \<Rightarrow> nat \<Rightarrow> bytes \<Rightarrow> int \<Rightarrow> (int \<times> bytes \<times> world) option" where
  "tun_ctx_recv env w t b len =
     (if t = 0 then Some (- 1, b, w)
      else do {
        c \<leftarrow> get_tun w t;
        (res, b, w) \<leftarrow> read_ip_packet env w (local_fd c) b len;
        if res < 0 then Some (res, b, w)
        else do {
          w \<leftarrow> upd_tun t (\<lambda>c. c\<lparr>bytes_in := bytes_in c + of_int res\<rparr>) w;
          w \<leftarrow> pcap_output_write (pcap_out c) b res w;
          r \<leftarrow> get_router w (tc_router c);
          p \<leftarrow> ip_parse_packet (new_packet b len res);
          b \<leftarrow> dns_rewrite b 12 (zip (dns_ip4 c) (virtual_dns_ip4 c)) (payload_proto p) res;
          b \<leftarrow> masquerade_dst w (dev_tun r) b res;
          dev_send env w (dev_tun r) b res
        }
      })"

end
