(* ===== verification/Masquerade.thy ===== *)
theory Masquerade
  imports Tun
begin

text \<open>
  What the rewriting of addresses in \<open>tun.c\<close> does to a packet: the masquerading of source
  and destination addresses and the translation between virtual and real DNS servers.
\<close>

section \<open>Rewriting an IPv4 address\<close>

text \<open>A well-formed IPv4 packet with a TCP segment, of which \<open>len\<close> bytes are in use.\<close>

definition ip4_tcp_packet :: "bytes \<Rightarrow> int \<Rightarrow> bool" where
  "ip4_tcp_packet b len \<longleftrightarrow>
     40 \<le> len \<and> len \<le> int (length b) \<and> b ! 0 AND 240 = 64 \<and> b ! 9 = IPPROTO_TCP \<and>
     5 \<le> hdr_ihl (b ! 0) \<and> 4 * int (hdr_ihl (b ! 0)) \<le> len \<and> 18 \<le> ip4_tcp_len b \<and>
     4 * hdr_ihl (b ! 0) + ip4_tcp_len b \<le> length b"

text \<open>\<open>b'\<close> is \<open>b\<close> with the address \<open>a\<close> at \<open>offs\<close>: both checksums are right, and nothing but
  the address and the checksums has changed.\<close>

definition ip4_tcp_rewritten :: "nat \<Rightarrow> u32 \<Rightarrow> bytes \<Rightarrow> bytes \<Rightarrow> bool" where
  "ip4_tcp_rewritten offs a b b' \<longleftrightarrow>
     rd32 b' offs = Some a \<and> ip4_header_valid b' \<and> ip4_tcp_valid b' \<and> length b' = length b \<and>
     (\<forall>i < length b. i \<notin> {offs, offs + 1, offs + 2, offs + 3, 10, 11,
        4 * hdr_ihl (b ! 0) + 16, 4 * hdr_ihl (b ! 0) + 17} \<longrightarrow> b' ! i = b ! i)"

lemma seg_sum_cong:
  "(\<And>i. i < base + len \<Longrightarrow> b' ! i = b ! i) \<Longrightarrow> seg_sum b' base len = seg_sum b base len"
proof -
  assume eq: "\<And>i. i < base + len \<Longrightarrow> b' ! i = b ! i"
  have "(\<Sum>i<len div 2. unat (word_at b' (base + 2 * i))) = (\<Sum>i<len div 2. unat (word_at b (base + 2 * i)))"
    using eq by (intro sum.cong) (auto simp: word_at_def)
  moreover have "b' ! (base + 2 * (len div 2)) = b ! (base + 2 * (len div 2))" if "odd len"
    using eq that by (intro eq) (auto elim: oddE)
  ultimately show ?thesis by (simp add: seg_sum_def)
qed

lemma ip4_header_valid_cong:
  assumes "\<And>i. i < 20 \<or> i < 4 * hdr_ihl (b ! 0) \<Longrightarrow> b' ! i = b ! i" "ip4_header_valid b"
  shows "ip4_header_valid b'"
proof -
  have "b' ! 0 = b ! 0" using assms(1) by simp
  moreover have "seg_sum b' 0 (4 * hdr_ihl (b ! 0)) = seg_sum b 0 (4 * hdr_ihl (b ! 0))"
    using assms(1) by (intro seg_sum_cong) simp
  ultimately show ?thesis using assms(2) by (simp add: ip4_header_valid_def)
qed

lemma rd32_cong:
  "length b' = length b \<Longrightarrow> (\<And>i. offs \<le> i \<Longrightarrow> i < offs + 4 \<Longrightarrow> b' ! i = b ! i) \<Longrightarrow>
   rd32 b' offs = rd32 b offs"
  by (simp add: rd32_def)

text \<open>Both checksums of a well-formed packet: they become right and change nothing else.\<close>

lemma checksums_tcp:
  assumes p: "ip4_tcp_packet b len"
  shows "\<exists>c b2 b3. ip4_calc_ip_checksum b len = Some (c, b2) \<and>
    calc_payload_checksum4 IPPROTO_TCP b2 len = Some b3 \<and> ip4_header_valid b3 \<and> ip4_tcp_valid b3 \<and>
    length b3 = length b \<and> (\<forall>i < length b. i \<notin> {10, 11, 4 * hdr_ihl (b ! 0) + 16, 4 * hdr_ihl (b ! 0) + 17}
      \<longrightarrow> b3 ! i = b ! i)"
proof -
  let ?ihl = "hdr_ihl (b ! 0)"
  have P: "40 \<le> len" "len \<le> int (length b)" "5 \<le> ?ihl" "4 * int ?ihl \<le> len"
    "18 \<le> ip4_tcp_len b" "4 * ?ihl + ip4_tcp_len b \<le> length b"
    using p by (simp_all add: ip4_tcp_packet_def)
  have L: "40 \<le> length b" using P by linarith
  obtain c b2 where b2: "ip4_calc_ip_checksum b len = Some (c, b2)" "ip4_header_valid b2"
    "length b2 = length b" "\<And>i. i < length b \<Longrightarrow> i \<noteq> 10 \<Longrightarrow> i \<noteq> 11 \<Longrightarrow> b2 ! i = b ! i"
    using ip4_ip_checksum_ok [of len b] P by auto
  have h2: "b2 ! 0 = b ! 0" using b2(4) [of 0] L by (cases b) auto
  have "word_at b2 2 = word_at b 2"
    using b2(4) [of 2] b2(4) [of 3] L by (auto simp: word_at_def)
  then have t2: "ip4_tcp_len b2 = ip4_tcp_len b" by (simp add: ip4_tcp_len_def h2)
  obtain d b3 where b3: "ip4_calc_tcp_checksum b2 len = Some (d, b3)" "ip4_tcp_valid b3"
    "length b3 = length b"
    "\<And>i. i < length b \<Longrightarrow> i \<noteq> 4 * ?ihl + 16 \<Longrightarrow> i \<noteq> 4 * ?ihl + 17 \<Longrightarrow> b3 ! i = b2 ! i"
    using ip4_tcp_checksum_ok [of len b2] P h2 t2 b2(3) L by auto
  have n3: "b3 ! i = b2 ! i" if "i < 20 \<or> i < 4 * ?ihl" for i
    using b3(4) [of i] that P L by linarith
  have "ip4_header_valid b3"
    using ip4_header_valid_cong [OF _ b2(2)] n3 h2 by simp
  then show ?thesis using b2 b3 by (auto simp: calc_payload_checksum4_def)
qed

text \<open>Well-formedness looks at the version, the lengths and the protocol only.\<close>

lemma ip4_tcp_packet_cong:
  assumes "ip4_tcp_packet b len" "length b' = length b" "\<And>i. i < 10 \<Longrightarrow> b' ! i = b ! i"
  shows "ip4_tcp_packet b' len"
proof -
  have "word_at b' 2 = word_at b 2" using assms(3) by (simp add: word_at_def)
  then show ?thesis using assms by (simp add: ip4_tcp_packet_def ip4_tcp_len_def)
qed

lemma rewrite_ip4_tcp:
  assumes p: "ip4_tcp_packet b len" and offs: "offs = 12 \<or> offs = 16"
  shows "\<exists>b1 c b2 b3. wr32 b offs a = Some b1 \<and> ip4_calc_ip_checksum b1 len = Some (c, b2) \<and>
    calc_payload_checksum4 IPPROTO_TCP b2 len = Some b3 \<and> ip4_tcp_rewritten offs a b b3"
proof -
  let ?ihl = "hdr_ihl (b ! 0)"
  have L: "40 \<le> length b" "5 \<le> ?ihl" using p by (auto simp: ip4_tcp_packet_def)
  obtain b1 where b1: "wr32 b offs a = Some b1"
    using wr32_Some [of b offs a] L offs by auto
  have n1: "b1 ! i = b ! i" if "i < length b" "i \<notin> {offs, offs + 1, offs + 2, offs + 3}" for i
    using wr32_nth [OF b1 that(1)] that(2) by (cases "i < offs \<or> offs + 4 \<le> i") auto
  have l1: "length b1 = length b" using wr32_length [OF b1] .
  have n1': "b1 ! i = b ! i" if "i < 10" for i using n1 [of i] that L offs by auto
  have "ip4_tcp_packet b1 len" by (rule ip4_tcp_packet_cong [OF p l1 n1'])
  from checksums_tcp [OF this] obtain c b2 b3 where
    k: "ip4_calc_ip_checksum b1 len = Some (c, b2)" "calc_payload_checksum4 IPPROTO_TCP b2 len = Some b3"
    "ip4_header_valid b3" "ip4_tcp_valid b3" "length b3 = length b" and
    n3: "\<And>i. i < length b \<Longrightarrow> i \<notin> {10, 11, 4 * ?ihl + 16, 4 * ?ihl + 17} \<Longrightarrow> b3 ! i = b1 ! i"
    using n1' [of 0] l1 by auto
  have "rd32 b3 offs = rd32 b1 offs"
    using k(5) l1 n3 L offs by (intro rd32_cong) auto
  then have "rd32 b3 offs = Some a" using rd32_wr32_same [OF b1] by simp
  moreover have "\<forall>i < length b. i \<notin> {offs, offs + 1, offs + 2, offs + 3, 10, 11,
        4 * ?ihl + 16, 4 * ?ihl + 17} \<longrightarrow> b3 ! i = b ! i"
    using n3 n1 by simp
  ultimately show ?thesis using b1 k by (auto simp: ip4_tcp_rewritten_def)
qed

lemma parse_ip4_tcp:
  assumes "ip4_tcp_packet b len" "0 < (of_int blen :: u32)"
  shows "\<exists>p. ip_parse_packet (new_packet b blen len) = Some p \<and> ipver p = 4 \<and>
    payload_proto p = IPPROTO_TCP"
proof -
  let ?p = "(new_packet b blen len)\<lparr>src_port := 0, dst_port := 0, ip_header := Some 0\<rparr>"
  let ?offs = "4 * hdr_ihl (b ! 0)"
  have P: "40 \<le> length b" "b \<noteq> []" "?offs + 18 \<le> length b" "b ! 0 AND 240 = 64" "b ! 9 = 6"
    using assms(1) by (auto simp: ip4_tcp_packet_def ipproto_defs)
  obtain p1 where "ip_detect_ipver ?p = Some p1" "p1 = ?p\<lparr>ipver := 4\<rparr>"
    using ip_detect_ipver_Some [of ?p b] assms(2) P by (auto simp: new_packet_def)
  then show ?thesis using P
    by (simp add: ip_parse_packet_def new_packet_def parse_ip4_def Let_def ipproto_defs
        rd8_def rd16_word_at del: of_nat_mult)
qed

lemma len_u32: "0 < len \<Longrightarrow> len < 2 ^ 32 \<Longrightarrow> 0 < (of_int len :: u32)"
proof -
  assume "0 < len" "len < 2 ^ 32"
  then have "(of_int len :: u32) \<noteq> 0"
    by (simp add: word_of_int_eq_0_iff zdvd_not_zless)
  then show ?thesis by (simp add: word_gt_0)
qed


section \<open>Masquerading\<close>

lemma masquerade_tcp4_at:
  assumes "get_tun w t = Some c" "use_masquerade4 c" "ip4_tcp_packet b len" "len < 2 ^ 31"
    and "offs4 = 12 \<or> offs4 = 16"
  shows "\<exists>b'. masquerade offs4 offs6 w t b len = Some b' \<and>
    ip4_tcp_rewritten offs4 (masquerade4 c) b b'"
proof -
  have "0 < len" using assms(3) by (simp add: ip4_tcp_packet_def)
  then have "0 < (of_int len :: u32)" using len_u32 assms(4) by simp
  then obtain p where p: "ip_parse_packet (new_packet b len len) = Some p" "ipver p = 4"
    "payload_proto p = IPPROTO_TCP"
    using parse_ip4_tcp [OF assms(3)] by blast
  obtain b1 k b2 b3 where "wr32 b offs4 (masquerade4 c) = Some b1"
    "ip4_calc_ip_checksum b1 len = Some (k, b2)"
    "calc_payload_checksum4 IPPROTO_TCP b2 len = Some b3"
    "ip4_tcp_rewritten offs4 (masquerade4 c) b b3"
    using rewrite_ip4_tcp [OF assms(3,5)] by blast
  then show ?thesis
    using assms(1,2) get_tun_nz [OF assms(1)] p by (simp add: masquerade_def)
qed

text \<open>A tunnel for the examples, and a world that holds it at address 1.\<close>

definition sample_tun :: tun_ctx where
  "sample_tun = zero_tun\<lparr>ref_count := 1, local_fd := 5, remote_fd := 6, masquerade4 := 0x0A080001,
     use_masquerade4 := True, use_masquerade6 := True, virtual_dns_ip4 := [0x0A000002, 0, 0, 0],
     dns_ip4 := [0x08080808, 0, 0, 0]\<rparr>"

definition empty_world :: world where
  "empty_world = \<lparr>w_tuns = (\<lambda>_. None), w_routers = (\<lambda>_. None),
     w_mem = \<lparr>links = (\<lambda>_. None), queues = (\<lambda>_. None)\<rparr>, w_brk = 10, w_io = []\<rparr>"

definition sample_world :: world where
  "sample_world = set_tun 1 sample_tun empty_world"

lemma sample_world_get [simp]: "get_tun sample_world (Suc 0) = Some sample_tun"
  by (simp add: sample_world_def)

lemma sample_ip4_tcp: "ip4_tcp_packet sample_ip4 40"
  by (simp add: ip4_tcp_packet_def sample_ip4_facts ipproto_defs) (simp add: sample_ip4_def)

text \<open>C13: masquerading keeps TCP packets valid. With IPv4 masquerading on,
  \<open>masquerade_src\<close> and \<open>masquerade_dst\<close> put the configured address in place of the source
  and of the destination of a well-formed TCP packet; afterwards the header checksum and
  the TCP checksum both verify and no other byte has changed.\<close>

theorem masquerade_tcp4:
  assumes "get_tun w t = Some c" "use_masquerade4 c" "ip4_tcp_packet b len" "len < 2 ^ 31"
  shows "(\<exists>b'. masquerade_src w t b len = Some b' \<and> ip4_tcp_rewritten 12 (masquerade4 c) b b') \<and>
    (\<exists>b'. masquerade_dst w t b len = Some b' \<and> ip4_tcp_rewritten 16 (masquerade4 c) b b')"
  using masquerade_tcp4_at [OF assms, of 12] masquerade_tcp4_at [OF assms, of 16]
  by (simp add: masquerade_src_def masquerade_dst_def)

theorem masquerade_tcp4_witness:
  "\<exists>b'. masquerade_src sample_world 1 sample_ip4 40 = Some b' \<and>
     ip4_tcp_rewritten 12 0x0A080001 sample_ip4 b'"
  using masquerade_tcp4 [of sample_world 1 sample_tun sample_ip4 40] sample_ip4_tcp
  by (simp add: sample_tun_def [THEN arg_cong [of _ _ use_masquerade4]]
      sample_tun_def [THEN arg_cong [of _ _ masquerade4]] zero_tun_def)

lemma sint_ucast_16_32: "sint (ucast (x :: u16) :: u32) = int (unat x)"
proof -
  have "uint x < 2 ^ 31" using uint_lt2p [of x] by (rule less_le_trans) simp
  moreover have "- (2 ^ 31) \<le> uint x" by (rule order.trans [of _ 0]) simp_all
  ultimately have "signed_take_bit 31 (uint x) = uint x"
    by (intro signed_take_bit_int_eq_self)
  moreover have "uint (ucast x :: u32) = uint x"
    using unat_ucast_16_32 [of x] by (simp only: uint_nat)
  ultimately show ?thesis by (simp add: sint_uint)
qed

lemma checksum6_overread:
  assumes "40 \<le> len" "length b < offs + 2 * (nat len div 2)"
  shows "ip6_calc_tcp_checksum common b offs len = None"
proof -
  have "checksum_loop b offs 8 0 (nat len div 2) s = None" for s
    by (rule checksum_loop_fault) (use assms in auto)
  then show ?thesis using assms(1) by (simp add: ip6_calc_tcp_checksum_def Let_def)
qed

text \<open>Masquerading of IPv6 TCP packets runs out of the buffer. The length that reaches
  the checksum routine is the payload length with its bytes swapped; whenever that is more
  than the buffer holds behind the 40-byte header (for a 1500-byte buffer, for every
  payload length whose low byte exceeds its high byte by enough, like 60, which becomes
  15360) the routine reads past the end.\<close>

lemma masquerade6_tcp_overread:
  assumes "get_tun w t = Some c" "use_masquerade6 c" "length (masquerade6 c) = 16"
    and "44 \<le> len" "len < 2 ^ 31" "len \<le> int (length b)"
    and "b ! 0 AND 240 = 96" "b ! 6 = IPPROTO_TCP"
    and "40 \<le> unat (bswap16 (word_at b 4))"
    and "length b < 40 + 2 * (unat (bswap16 (word_at b 4)) div 2)"
  shows "masquerade_src w t b len = None"
proof -
  let ?p = "(new_packet b len len)\<lparr>src_port := 0, dst_port := 0, ip_header := Some 0\<rparr>"
  have len: "44 \<le> length b" "b \<noteq> []" using assms(4,6) by auto
  have "0 < (of_int len :: u32)" using len_u32 assms(4,5) by simp
  then obtain p1 where p1: "ip_detect_ipver ?p = Some p1" "p1 = ?p\<lparr>ipver := 6\<rparr>"
    using ip_detect_ipver_Some [of ?p b] len assms(7) by (auto simp: new_packet_def)
  obtain p where p: "ip6_find_payload p1 = Some p" "payload_proto p = b ! 6" "payload_offs p = 40"
    "payload_len p = ucast (bswap16 (word_at b 4))"
    using ip6_parse_plain [of p1 b] p1(2) len assms(8) by (auto simp: new_packet_def ipproto_defs)
  have "ipver p = 6"
    using p(1) p1(2) by (auto simp: ip6_find_payload_def set_payload6_def Let_def new_packet_def
        bind_eq_Some_iff split: if_splits)
  moreover have "ip_parse_packet (new_packet b len len) = Some p"
    using p(1) p1 by (simp add: ip_parse_packet_def new_packet_def)
  moreover have "\<exists>b'. wr_bytes b 8 (masquerade6 c) = Some b'"
    using len assms(3) by (simp add: wr_bytes_def)
  then obtain b' where b': "wr_bytes b 8 (masquerade6 c) = Some b'" "length b' = length b"
    using wr_bytes_length by blast
  moreover have "calc_payload_checksum6 p b' = None"
  proof -
    define n where "n = unat (bswap16 (word_at b 4))"
    have "sint (payload_len p) = int n"
      unfolding p(4) n_def by (rule sint_ucast_16_32)
    then have o: "ip6_calc_tcp_checksum s b' (unat (payload_offs p)) (sint (payload_len p)) = None" for s
      using checksum6_overread [of "int n" b' 40] p(3) assms(9,10) [folded n_def] b'(2) by simp
    have tcp: "payload_proto p = IPPROTO_TCP" using p(2) assms(8) by simp
    show ?thesis unfolding calc_payload_checksum6_def Let_def o if_P [OF tcp]
      by (simp split: bind_split)
  qed
  ultimately show ?thesis
    using assms(1,2) get_tun_nz [OF assms(1)] by (simp add: masquerade_src_def masquerade_def)
qed


definition sample_ip6 :: bytes where
  "sample_ip6 = [96,0,0,0, 0,60,6,64] @ replicate 92 1"

theorem masquerade6_tcp_overread_witness: "masquerade_src sample_world 1 sample_ip6 100 = None"
proof (rule masquerade6_tcp_overread [of _ _ sample_tun])
  have w: "word_at sample_ip6 4 = 60" by (simp add: word_at_def sample_ip6_def be16_def)
  have "bswap16 60 = (15360 :: u16)" by (simp add: bswap16_def be16_def hi8_def lo8_def)
  then show "40 \<le> unat (bswap16 (word_at sample_ip6 4))"
    "length sample_ip6 < 40 + 2 * (unat (bswap16 (word_at sample_ip6 4)) div 2)"
    unfolding w by (simp_all add: sample_ip6_def)
qed (simp_all add: sample_tun_def zero_tun_def sample_ip6_def ipproto_defs)

section \<open>DNS translation\<close>

lemma dns_scan_find:
  assumes "offs + 4 \<le> length b"
  shows "dns_scan b offs table = Some (map_option snd
    (find (\<lambda>(old, new). old \<noteq> 0 \<and> new \<noteq> 0 \<and> rd32 b offs = Some old) table))"
proof -
  obtain a where a: "rd32 b offs = Some a" using assms by (auto simp: rd32_def)
  show ?thesis by (induction table) (auto simp: a split: if_splits)
qed

text \<open>What the loop over the four DNS entries finds: the first set pair whose first
  component is the address.\<close>

definition dns_hit :: "u32 list \<Rightarrow> u32 list \<Rightarrow> bytes \<Rightarrow> nat \<Rightarrow> u32 option" where
  "dns_hit from to b offs = map_option snd
     (find (\<lambda>(old, new). old \<noteq> 0 \<and> new \<noteq> 0 \<and> rd32 b offs = Some old) (zip from to))"

lemma dns_rewrite_tcp:
  assumes "ip4_tcp_packet b len" "offs = 12 \<or> offs = 16"
  shows "\<exists>b'. dns_rewrite b offs (zip from to) IPPROTO_TCP len = Some b' \<and>
    (case dns_hit from to b offs of None \<Rightarrow> b' = b | Some a \<Rightarrow> ip4_tcp_rewritten offs a b b')"
proof -
  have "40 \<le> length b" using assms(1) by (auto simp: ip4_tcp_packet_def)
  then have scan: "dns_scan b offs (zip from to) = Some (dns_hit from to b offs)"
    using assms(2) dns_scan_find [of offs b "zip from to"] by (auto simp: dns_hit_def)
  show ?thesis
  proof (cases "dns_hit from to b offs")
    case None
    then show ?thesis by (simp add: dns_rewrite_def scan)
  next
    case (Some a)
    then show ?thesis using rewrite_ip4_tcp [OF assms, of a]
      by (auto simp: dns_rewrite_def scan)
  qed
qed

lemma rd_bytes_take: "0 \<le> len \<Longrightarrow> len \<le> int (length b) \<Longrightarrow> rd_bytes b 0 (nat len) = Some (take (nat len) b)"
  by (simp add: rd_bytes_def)

lemma pcap_output_write_Some:
  "0 \<le> len \<Longrightarrow> len \<le> int (length b) \<Longrightarrow> \<exists>w'. pcap_output_write out b len w = Some w' \<and>
     w_tuns w' = w_tuns w \<and> w_routers w' = w_routers w \<and> w_mem w' = w_mem w \<and>
     (w_io w' = w_io w \<or> (\<exists>j. w_io w' = w_io w @ [Pcap_write j (take (nat len) b)]))"
  by (auto simp: pcap_output_write_def rd_bytes_take split: option.splits)



definition sample_env :: env where
  "sample_env = \<lparr>e_malloc = (\<lambda>_. True), e_lock_init = (\<lambda>_. True),
     e_read = (\<lambda>_ _ _. Some sample_ip4), e_write = (\<lambda>_ _ d. int (length d)),
     e_socketpair = (\<lambda>_. Some (20, 21)), e_socket = (\<lambda>io. 30 + int (length io)),
     e_bind = (\<lambda>_. True), e_getsockname = (\<lambda>_. Some 4000), e_listen = (\<lambda>_. True),
     e_protect = (\<lambda>_. True), e_epoll_create = (\<lambda>_. 7),
     e_epoll_del = (\<lambda>_. True), e_epoll_wait = (\<lambda>_. Some [(1, 5)]), e_establish = (\<lambda>_. 9), e_handle = (\<lambda>io. 100 + length io),
     e_address4 = (\<lambda>_. 0x0A000001), e_socat_pid = (\<lambda>_. 77), e_wild6 = (\<lambda>_. (Some [], 0, 0))\<rparr>"


end
