(* ===== verification/UserNat.thy ===== *)
theory UserNat
  imports Tun
begin

text \<open>
  The user-space NAT of \<open>ocpa/tun_usernat.c\<close>. An outgoing connection gets a link with a
  listening and a connecting socket, and a Java thread is asked to run \<open>socat\<close> between
  them; the packets of the connection are rewritten so that the kernel delivers them to
  the listening socket, and the replies are rewritten back. Until the process identifier
  of \<open>socat\<close> is reported the packets wait in a queue.

  \<open>buildSocatTunnel\<close> only queues a request on the Java side and returns; the report comes
  later through \<open>usernat_set_pid_for_link\<close>. Connections over IPv6 are not implemented in
  the code. A call through a null pointer to a Java wrapper is a fault.
\<close>

section \<open>Links\<close>

definition NAT_LINK_IP6 :: u8 where "NAT_LINK_IP6 = 2"
definition NAT_LINK_TCP4 :: u8 where "NAT_LINK_TCP4 = 0"
definition NAT_LINK_UDP4 :: u8 where "NAT_LINK_UDP4 = 1"

definition AF_SOCK_STREAM :: int where "AF_SOCK_STREAM = 1"
definition AF_SOCK_DGRAM :: int where "AF_SOCK_DGRAM = 2"

definition get_usernat :: "world \<Rightarrow> nat \<Rightarrow> usernat option" where
  "get_usernat w t = do { c \<leftarrow> get_tun w t; tc_usernat c }"

definition upd_usernat :: "nat \<Rightarrow> (usernat \<Rightarrow> usernat) \<Rightarrow> world \<Rightarrow> world option" where
  "upd_usernat t f w = do {
     c \<leftarrow> get_tun w t;
     u \<leftarrow> tc_usernat c;
     Some (set_tun t (c\<lparr>tc_usernat := Some (f u)\<rparr>) w)
   }"

definition link_init :: "env \<Rightarrow> world \<Rightarrow> (nat \<times> nat_link) option \<times> world" where
  "link_init env w =
     (let (p, w) = malloc env w in
      if p = 0 then (None, w)
      else
        let (q, w) = malloc env w;
            (q, m) = queue_init (w_mem w) q
        in (Some (p, \<lparr>link_type = 0, sock_accept = 0, sock_connect = 0, enqueue_packets = True,
              packets_queue = q, socat_pid = 0, hop_port = 0, cycles_to_live = 0, usernat_ctx = 0,
              real_src_addr = 0, real_src_port = 0, real_dst_addr = 0, real_dst_port = 0\<rparr>),
            w\<lparr>w_mem := m\<rparr>))"

definition link_deinit :: "nat_link \<Rightarrow> world \<Rightarrow> world option" where
  "link_deinit l w = do {
     (_, m) \<leftarrow> queue_deinit (w_mem w) (packets_queue l);
     Some (w\<lparr>w_mem := m\<rparr>)
   }"

definition create_socket :: "env \<Rightarrow> world \<Rightarrow> nat \<Rightarrow> int \<Rightarrow> int \<Rightarrow> bool \<Rightarrow> (int \<times> world) option" where
  "create_socket env w t socktype protocol protect = do {
     let w = emit (Socket socktype protocol) w;
     let sock = e_socket env (w_io w);
     if sock = - 1 then Some (sock, w)
     else if protect then do {
       c \<leftarrow> get_tun w t;
       j \<leftarrow> j_vpn_tun c;
       let (is_protected, w) = protectSocket env (Some j) sock w;
       if \<not> is_protected then Some (- 1, emit (Close sock) w) else Some (sock, w)
     }
     else Some (sock, w)
   }"

text \<open>Filling in the addresses of a new link from the packet; \<open>ph\<close> is the offset of the
  transport header.\<close>

definition fill_link :: "env \<Rightarrow> world \<Rightarrow> bytes \<Rightarrow> nat \<Rightarrow> int \<Rightarrow> int \<Rightarrow> u16 \<Rightarrow> ((nat \<times> nat_link) option \<times> world) option" where
  "fill_link env w b ph sacc scon port =
     (let (result, w) = link_init env w in
      case result of
        None \<Rightarrow> Some (None, w)
      | Some (p, l) \<Rightarrow> do {
          saddr \<leftarrow> rd32 b 12; sport \<leftarrow> rd16 b ph;
          daddr \<leftarrow> rd32 b 16; dport \<leftarrow> rd16 b (ph + 2);
          Some (Some (p, l\<lparr>real_src_addr := saddr, real_src_port := sport, real_dst_addr := daddr,
                  real_dst_port := dport, sock_accept := sacc, sock_connect := scon,
                  hop_port := port\<rparr>), w)
        })"

text \<open>The \<open>syn\<close> flag is bit 1 of byte 13 of the TCP header. The failures of \<open>bind\<close>,
  \<open>getsockname\<close> and \<open>listen\<close> return without closing the socket.\<close>

definition create_link_tcp4 :: "env \<Rightarrow> world \<Rightarrow> nat \<Rightarrow> bytes \<Rightarrow> ocpa_ip_packet \<Rightarrow> ((nat \<times> nat_link) option \<times> world) option" where
  "create_link_tcp4 env w t b p = do {
     ph \<leftarrow> payload_header p;
     flags \<leftarrow> rd8 b (ph + 13);
     u \<leftarrow> get_usernat w t;
     if flags AND 2 = 0 then Some (None, w)
     else do {
       (sacc, w) \<leftarrow> create_socket env w t AF_SOCK_STREAM 6 False;
       if sacc = - 1 then Some (None, w)
       else do {
         let w = emit (Bind sacc (local4 u)) w;
         if \<not> e_bind env (w_io w) then Some (None, w)
         else do {
           let w = emit (Getsockname sacc) w;
           case e_getsockname env (w_io w) of
             None \<Rightarrow> Some (None, w)
           | Some port \<Rightarrow> do {
               let w = emit (Listen sacc) w;
               if \<not> e_listen env (w_io w) then Some (None, w)
               else do {
                 (scon, w) \<leftarrow> create_socket env w t AF_SOCK_STREAM 6 True;
                 if scon = - 1 then Some (None, emit (Close sacc) w)
                 else do {
                   daddr \<leftarrow> rd32 b 16;
                   dport \<leftarrow> rd16 b (ph + 2);
                   let w = emit (Connect scon daddr dport) w;
                   fill_link env w b ph sacc scon port
                 }
               }
             }
         }
       }
     }
   }"

definition create_link_udp4 :: "env \<Rightarrow> world \<Rightarrow> nat \<Rightarrow> bytes \<Rightarrow> ocpa_ip_packet \<Rightarrow> ((nat \<times> nat_link) option \<times> world) option" where
  "create_link_udp4 env w t b p = do {
     ph \<leftarrow> payload_header p;
     u \<leftarrow> get_usernat w t;
     (sacc, w) \<leftarrow> create_socket env w t AF_SOCK_DGRAM 17 False;
     if sacc = - 1 then Some (None, w)
     else do {
       let w = emit (Bind sacc (local4 u)) w;
       if \<not> e_bind env (w_io w) then Some (None, emit (Close sacc) w)
       else do {
         let w = emit (Getsockname sacc) w;
         case e_getsockname env (w_io w) of
           None \<Rightarrow> Some (None, emit (Close sacc) w)
         | Some port \<Rightarrow> do {
             (scon, w) \<leftarrow> create_socket env w t AF_SOCK_DGRAM 17 True;
             if scon = - 1 then Some (None, emit (Close sacc) w)
             else do {
               sport \<leftarrow> rd16 b ph;
               let w = emit (Connect sacc (remote4 u) sport) w;
               daddr \<leftarrow> rd32 b 16;
               dport \<leftarrow> rd16 b (ph + 2);
               let w = emit (Connect scon daddr dport) w;
               fill_link env w b ph sacc scon port
             }
           }
       }
     }
   }"

definition create_link :: "env \<Rightarrow> world \<Rightarrow> nat \<Rightarrow> bytes \<Rightarrow> ocpa_ip_packet \<Rightarrow> u8 \<Rightarrow> ((nat \<times> nat_link) option \<times> world) option" where
  "create_link env w t b p local_link_type = do {
     (result, w) \<leftarrow>
       (if local_link_type = NAT_LINK_TCP4 then create_link_tcp4 env w t b p
        else if local_link_type = NAT_LINK_UDP4 then create_link_udp4 env w t b p
        else Some (None, w));
     Some (map_option (\<lambda>(a, l). (a, l\<lparr>usernat_ctx := t, link_type := local_link_type\<rparr>)) result, w)
   }"

text \<open>The search of \<open>find_link4\<close>; the result is the address of the link or 0.\<close>

fun find_link4 :: "world \<Rightarrow> (nat \<times> nat_link) list \<Rightarrow> u8 \<Rightarrow> u32 \<Rightarrow> u16 \<Rightarrow> u32 \<Rightarrow> u16 \<Rightarrow> bool \<Rightarrow> nat option" where
  "find_link4 w [] ltype laddr lport raddr rport is_incoming = Some 0"
| "find_link4 w ((a, l) # next) ltype laddr lport raddr rport is_incoming =
     (if link_type l AND NAT_LINK_IP6 \<noteq> 0 then find_link4 w next ltype laddr lport raddr rport is_incoming
      else if link_type l \<noteq> ltype then find_link4 w next ltype laddr lport raddr rport is_incoming
      else if \<not> ip4_addr_eq (real_src_addr l) laddr \<or> lport \<noteq> real_src_port l
      then find_link4 w next ltype laddr lport raddr rport is_incoming
      else if is_incoming then do {
        u \<leftarrow> get_usernat w (usernat_ctx l);
        if \<not> (ip4_addr_eq (remote4 u) raddr \<and> rport = hop_port l)
        then find_link4 w next ltype laddr lport raddr rport is_incoming
        else Some a
      }
      else if \<not> (ip4_addr_eq (real_dst_addr l) raddr \<and> rport = real_dst_port l)
      then find_link4 w next ltype laddr lport raddr rport is_incoming
      else Some a)"

section \<open>Reporting the process of a link\<close>

text \<open>The walk over the links: links without a process age and are removed at 0, until the
  wanted link is met. The result is the new list, the removed links and the position of
  the wanted link.\<close>

fun pid_walk :: "nat \<Rightarrow> (nat \<times> nat_link) list \<Rightarrow> (nat \<times> nat_link) list \<times> nat_link list \<times> nat option" where
  "pid_walk link [] = ([], [], None)"
| "pid_walk link ((a, l) # next) =
     (let l = (if cycles_to_live l > 0 \<and> socat_pid l = - 1
               then l\<lparr>cycles_to_live := cycles_to_live l - 1\<rparr> else l) in
      if cycles_to_live l = 0 \<and> socat_pid l = - 1
      then let (rest, dead, pos) = pid_walk link next in (rest, l # dead, pos)
      else if a = link then ((a, l) # next, [], Some 0)
      else let (rest, dead, pos) = pid_walk link next in ((a, l) # rest, dead, map_option Suc pos))"

fun deinit_links :: "nat_link list \<Rightarrow> world \<Rightarrow> world option" where
  "deinit_links [] w = Some w"
| "deinit_links (l # ls) w = do { w \<leftarrow> link_deinit l w; deinit_links ls w }"

text \<open>The loop that writes the waiting packets to the TUN device.\<close>

partial_function (option) flush_queue :: "env \<Rightarrow> world \<Rightarrow> nat \<Rightarrow> nat \<Rightarrow> world option" where
  "flush_queue env w dev q =
     Option.bind (queue_get (w_mem w) q) (\<lambda>(ql, m).
       if ql = 0 then Some (w\<lparr>w_mem := m\<rparr>)
       else Option.bind (Queues.links m ql) (\<lambda>l.
         Option.bind (ql_buff l) (\<lambda>d.
           Option.bind (dev_send env (w\<lparr>w_mem := m\<rparr>) dev d (ql_size l)) (\<lambda>(_, _, w).
             Option.bind (queue_link_deinit (w_mem w) ql) (\<lambda>(_, m).
               flush_queue env (w\<lparr>w_mem := m\<rparr>) dev q)))))"

definition usernat_set_pid_for_link :: "env \<Rightarrow> world \<Rightarrow> nat \<Rightarrow> nat \<Rightarrow> int \<Rightarrow> world option" where
  "usernat_set_pid_for_link env w t link pid =
     (if t = 0 \<or> link = 0 then Some w
      else do {
        c \<leftarrow> get_tun w t;
        u \<leftarrow> tc_usernat c;
        let (ls, dead, pos) = pid_walk link (nat_links u);
        w \<leftarrow> deinit_links dead w;
        case pos of
          None \<Rightarrow> upd_usernat t (\<lambda>u. u\<lparr>nat_links := ls\<rparr>) w
        | Some i \<Rightarrow> do {
            let (a, l) = ls ! i;
            let q = packets_queue l;
            let l = l\<lparr>socat_pid := pid, enqueue_packets := False, packets_queue := 0\<rparr>;
            let l = (if pid = - 1 then l\<lparr>cycles_to_live := 100\<rparr> else l);
            w \<leftarrow> upd_usernat t (\<lambda>u. u\<lparr>nat_links := ls[i := (a, l)]\<rparr>) w;
            if q = 0 then Some w
            else do {
              r \<leftarrow> get_router w (tc_router c);
              w \<leftarrow> flush_queue env w (dev_tun r) q;
              (_, m) \<leftarrow> queue_deinit (w_mem w) q;
              Some (w\<lparr>w_mem := m\<rparr>)
            }
          }
      })"

section \<open>Finding the link of a packet\<close>

text \<open>The second part of \<open>find_link\<close>, for an IPv4 packet without a link: make one, put it in
  front and ask for a tunnel. When Java refuses, the listening socket is closed and the
  link is reported with process -1.\<close>

definition open_link :: "env \<Rightarrow> world \<Rightarrow> nat \<Rightarrow> bytes \<Rightarrow> ocpa_ip_packet \<Rightarrow> u8 \<Rightarrow> (nat \<times> world) option" where
  "open_link env w t b p ltype = do {
     (result, w) \<leftarrow> create_link env w t b p ltype;
     case result of
       None \<Rightarrow> Some (0, w)
     | Some (a, l) \<Rightarrow> do {
         w \<leftarrow> upd_usernat t (\<lambda>u. u\<lparr>nat_links := (a, l) # nat_links u\<rparr>) w;
         u \<leftarrow> get_usernat w t;
         j \<leftarrow> j_usernat_tun u;
         let w = emit (Build_socat j (sock_accept l) (sock_connect l) (real_dst_addr l) (real_dst_port l) a) w;
         let pid = e_socat_pid env (w_io w);
         w \<leftarrow> upd_usernat t (\<lambda>u. u\<lparr>nat_links := (a, l\<lparr>socat_pid := pid\<rparr>) # tl (nat_links u)\<rparr>) w;
         if pid = - 1 then do {
           let w = emit (Close (sock_accept l)) w;
           w \<leftarrow> usernat_set_pid_for_link env w t a (- 1);
           Some (0, w)
         }
         else Some (a, w)
       }
   }"

text \<open>The result is the link (or 0), the direction and the buffer, whose destination may
  have been translated.\<close>

definition find_link :: "env \<Rightarrow> world \<Rightarrow> nat \<Rightarrow> bytes \<Rightarrow> ocpa_ip_packet \<Rightarrow> (nat \<times> bool \<times> bytes \<times> world) option" where
  "find_link env w t b p = do {
     c \<leftarrow> get_tun w t;
     u \<leftarrow> tc_usernat c;
     if ip_header p = None \<or> ipver p \<noteq> 4 then Some (0, False, b, w)
     else do {
       daddr \<leftarrow> rd32 b 16;
       saddr \<leftarrow> rd32 b 12;
       dir \<leftarrow>
         (if ip4_addr_eq (remote4 u) daddr
          then Some (Some (True, dst_port p, remote4 u, src_port p, b))
          else if ip4_addr_eq (local4 u) saddr then do {
            hit \<leftarrow> dns_scan b 16 (zip (virtual_dns_ip4 c) (dns_ip4 c));
            b \<leftarrow> (case hit of None \<Rightarrow> Some b | Some a \<Rightarrow> wr32 b 16 a);
            raddr \<leftarrow> rd32 b 16;
            Some (Some (False, src_port p, raddr, dst_port p, b))
          }
          else Some None);
       case dir of
         None \<Rightarrow> Some (0, False, b, w)
       | Some (is_incoming, lport, raddr, rport, b) \<Rightarrow>
           if payload_proto p \<noteq> IPPROTO_TCP \<and> payload_proto p \<noteq> IPPROTO_UDP
           then Some (0, is_incoming, b, w)
           else do {
             let ltype = (if payload_proto p = IPPROTO_TCP then NAT_LINK_TCP4 else NAT_LINK_UDP4);
             result \<leftarrow> find_link4 w (nat_links u) ltype (local4 u) lport raddr rport is_incoming;
             if result \<noteq> 0 \<or> is_incoming then Some (result, is_incoming, b, w)
             else do {
               (result, w) \<leftarrow> open_link env w t b p ltype;
               Some (result, is_incoming, b, w)
             }
           }
     }
   }"

section \<open>Sending through the NAT\<close>

text \<open>The rewriting of an IPv4 packet of a link; \<open>ph\<close> is the offset of its transport header.\<close>

definition nat_rewrite :: "tun_ctx \<Rightarrow> usernat \<Rightarrow> nat_link \<Rightarrow> bool \<Rightarrow> nat \<Rightarrow> bytes \<Rightarrow> bytes option" where
  "nat_rewrite c u l is_incoming ph b =
     (if is_incoming then do {
        b \<leftarrow> wr32 b 12 (real_dst_addr l);
        b \<leftarrow> wr32 b 16 (local4 u);
        b \<leftarrow> wr16 b ph (real_dst_port l);
        hit \<leftarrow> dns_scan b 12 (zip (dns_ip4 c) (virtual_dns_ip4 c));
        case hit of None \<Rightarrow> Some b | Some a \<Rightarrow> wr32 b 12 a
      }
      else do {
        b \<leftarrow> wr32 b 12 (remote4 u);
        b \<leftarrow> wr32 b 16 (local4 u);
        wr16 b (ph + 2) (hop_port l)
      })"

text \<open>Putting a copy of the packet into the queue of a link. The result says whether the
  packet was taken (also when \<open>queue_put\<close> refused the link).\<close>

definition enqueue_packet :: "env \<Rightarrow> world \<Rightarrow> nat \<Rightarrow> bytes \<Rightarrow> int \<Rightarrow> (bool \<times> world) option" where
  "enqueue_packet env w q b len = do {
     let (new_buff, w) = malloc env w;
     let (ql, w) = malloc env w;
     let (ql, m) = queue_link_init (w_mem w) ql;
     if new_buff \<noteq> 0 \<and> ql \<noteq> 0 then do {
       d \<leftarrow> rd_bytes b 0 (nat len);
       l \<leftarrow> Queues.links m ql;
       let m = set_link m ql (l\<lparr>ql_buff := Some d, ql_size := len\<rparr>);
       (_, m) \<leftarrow> queue_put m q ql;
       Some (True, w\<lparr>w_mem := m\<rparr>)
     }
     else do {
       (_, m) \<leftarrow> queue_link_deinit m ql;
       Some (False, w\<lparr>w_mem := m\<rparr>)
     }
   }"

definition usernat_tun_ctx_send :: "env \<Rightarrow> world \<Rightarrow> nat \<Rightarrow> bytes \<Rightarrow> int \<Rightarrow> (int \<times> bytes \<times> world) option" where
  "usernat_tun_ctx_send env w t b len =
     (if t = 0 then Some (- 1, b, w)
      else do {
        p \<leftarrow> ip_parse_packet (new_packet b len len);
        (link, is_incoming, b, w) \<leftarrow> find_link env w t b p;
        if link = 0 then Some (0, b, w)
        else do {
          c \<leftarrow> get_tun w t;
          u \<leftarrow> tc_usernat c;
          l \<leftarrow> map_of (nat_links u) link;
          b \<leftarrow> (if ipver p = 4 then do {
                 ph \<leftarrow> payload_header p;
                 b \<leftarrow> nat_rewrite c u l is_incoming ph b;
                 (_, b) \<leftarrow> ip4_calc_ip_checksum b len;
                 calc_payload_checksum4 (payload_proto p) b len
               }
               else Some b);
          w \<leftarrow> pcap_output_write (pcap_out c) b len w;
          (queued, w) \<leftarrow>
            (if enqueue_packets l then enqueue_packet env w (packets_queue l) b len
             else Some (False, w));
          if queued then Some (0, b, w)
          else do {
            r \<leftarrow> get_router w (tc_router c);
            dev_send env w (dev_tun r) b len
          }
        }
      })"

definition usernat_tun_ctx_recv :: "world \<Rightarrow> bytes \<Rightarrow> (int \<times> bytes \<times> world) option" where
  "usernat_tun_ctx_recv w b = Some (- 1, b, w)"

section \<open>Construction\<close>

definition create_usernat_tun_ctx :: "env \<Rightarrow> world \<Rightarrow> nat \<Rightarrow> bool \<Rightarrow> nat \<Rightarrow> (nat \<times> world) option" where
  "create_usernat_tun_ctx env w ptr fits jtun_instance =
     (let (t, w) = (if ptr = 0 \<or> \<not> fits then malloc env w else (ptr, w)) in
      if t = 0 then Some (0, w)
      else do {
        (result, w) \<leftarrow> create_tun_ctx env w t True;
        if result = 0 then Some (0, w)
        else do {
          c \<leftarrow> get_tun w t;
          let (j, w) = wrap_into_UsernatTunnel env w jtun_instance;
          let u = \<lparr>original_destroy = tc_destroy c, local4 = 0, local6 = replicate 16 0, remote4 = 0,
                   remote6 = replicate 16 0, nat_links = [], j_usernat_tun = j\<rparr>;
          _ \<leftarrow> j;
          let w = emit Get_address4 w;
          let u = u\<lparr>local4 := e_address4 env (w_io w)\<rparr>;
          let w = emit Get_address4 w;
          let u = u\<lparr>remote4 := e_address4 env (w_io w)\<rparr>;
          w \<leftarrow> upd_tun t (\<lambda>c. c\<lparr>tc_destroy := Destroy_usernat_tun_ctx, tc_send := Usernat_tun_ctx_send,
                 tc_recv := Usernat_tun_ctx_recv, tc_usernat := Some u\<rparr>) w;
          Some (t, w)
        }
      })"

end
