(* ===== verification/Router.thy ===== *)
theory Router
  imports UserNat Routes6
begin

text \<open>
  The router of \<open>ocpa/router.c\<close> and the receive function of the TUN device in
  \<open>ocpa/tun_dev_tun.c\<close>, which calls it. The route lists are those of \<open>Routes\<close>; here they are
  put together with the reference counts of the tunnels, the default routes and the table
  of descriptors that the loop polls.
\<close>

section \<open>Life cycle\<close>

definition router_init :: "env \<Rightarrow> world \<Rightarrow> (nat \<times> world) option" where
  "router_init env w =
     (let (r, w) = malloc env w in
      if r = 0 then Some (0, w)
      else
      let (lock, w) = malloc env w in
      if lock = 0 \<or> \<not> e_lock_init env lock then Some (0, w)
      else do {
        (d, w) \<leftarrow> create_tun_dev_tun_ctx env w 0 False;
        if d = 0 then Some (0, w)
        else do {
          w \<leftarrow> set_router_context w d r;
          let (buf, w) = malloc env w;
          if buf = 0 then do { (_, w) \<leftarrow> ref_put w d; Some (0, w) }
          else do {
            let w = emit Epoll_create w;
            let efd = e_epoll_create env (w_io w);
            if efd = - 1 then do { (_, w) \<leftarrow> ref_put w d; Some (0, w) }
            else do {
              let (es, w) = malloc env w;
              if es = 0 then do {
                let w = emit (Close efd) w;
                (_, w) \<leftarrow> ref_put w d;
                Some (0, w)
              }
              else do {
                let (rs6, n6, d6) = e_wild6 env r;
                Some (r, set_router r
                  \<lparr>dev_tun = d, ip4_routes = [], ip4_routes_count = 0, ip4_default = 0,
                   ip6_routes = rs6, ip6_routes_count = n6, ip6_default = d6, epoll_fd = efd,
                   epoll_links = Some (replicate 4 \<lparr>el_fd = 0, el_events = 0, el_evt_fd = 0, el_tun = 0\<rparr>),
                   epoll_links_capacity = 4, epoll_links_count = 0, routes_updated = False,
                   paused = False, terminate = False\<rparr> w)
              }
            }
          }
        }
      })"

text \<open>The routes are freed without releasing their tunnels, and neither the default routes
  nor the polled tunnels are released.\<close>

definition router_deinit :: "world \<Rightarrow> nat \<Rightarrow> world option" where
  "router_deinit w r =
     (if r = 0 then Some w
      else do {
        rc \<leftarrow> get_router w r;
        (_, w) \<leftarrow> ref_put w (dev_tun rc);
        let w = (if epoll_fd rc \<noteq> - 1 then emit (Close (epoll_fd rc)) w else w);
        Some (w\<lparr>w_routers := (w_routers w)(r := None)\<rparr>)
      })"

section \<open>Routes\<close>

text \<open>\<open>malloc\<close> of a link is not checked, so a failure is a fault.\<close>

definition route4 :: "env \<Rightarrow> world \<Rightarrow> nat \<Rightarrow> u32 \<Rightarrow> u32 \<Rightarrow> nat \<Rightarrow> world option" where
  "route4 env w r ip4 plen tun =
     (if r = 0 \<or> tun = 0 then Some w
      else do {
        let plen = (if plen > 32 then 32 else plen);
        let netmask = (ucast plen :: u8);
        ip4 \<leftarrow> mask_ip4 ip4 netmask;
        rc \<leftarrow> get_router w r;
        let (p, w) = malloc env w;
        if p = 0 then None
        else do {
          (t, w) \<leftarrow> ref_get w tun;
          let (rs, n, old) = route4_insert \<lparr>r4_ip = ip4, r4_mask = netmask, r4_tun = t\<rparr> (ip4_routes rc);
          (_, w) \<leftarrow> (case old of None \<Rightarrow> Some (0, w) | Some x \<Rightarrow> ref_put w x);
          upd_router r (\<lambda>rc. rc\<lparr>ip4_routes := rs, ip4_routes_count := ip4_routes_count rc + n,
            routes_updated := True\<rparr>) w
        }
      })"

definition route6 :: "env \<Rightarrow> world \<Rightarrow> nat \<Rightarrow> bytes \<Rightarrow> u32 \<Rightarrow> nat \<Rightarrow> world option" where
  "route6 env w r ip6 plen tun =
     (if r = 0 \<or> tun = 0 then Some w
      else do {
        let plen = (if plen > 128 then 128 else plen);
        let netmask = (ucast plen :: u8);
        rc \<leftarrow> get_router w r;
        let (p, w) = malloc env w;
        if p = 0 then None
        else do {
          ip6 \<leftarrow> mask_ip6 ip6 netmask;
          (t, w) \<leftarrow> ref_get w tun;
          routes \<leftarrow> ip6_routes rc;
          let (rs, n, old) = route6_insert \<lparr>r6_ip = ip6, r6_mask = netmask, r6_tun = t\<rparr> routes;
          (_, w) \<leftarrow> (case old of None \<Rightarrow> Some (0, w) | Some x \<Rightarrow> ref_put w x);
          upd_router r (\<lambda>rc. rc\<lparr>ip6_routes := Some rs, ip6_routes_count := ip6_routes_count rc + n,
            routes_updated := True\<rparr>) w
        }
      })"

fun put_n :: "nat \<Rightarrow> nat \<Rightarrow> world \<Rightarrow> world option" where
  "put_n t 0 w = Some w"
| "put_n t (Suc n) w = do { (_, w) \<leftarrow> ref_put w t; put_n t n w }"

text \<open>The loop over the first \<open>epoll_links_count\<close> polled tunnels.\<close>

fun unroute_links :: "nat \<Rightarrow> nat \<Rightarrow> epoll_link list \<Rightarrow> world \<Rightarrow> (epoll_link list \<times> world) option" where
  "unroute_links t 0 es w = Some (es, w)"
| "unroute_links t (Suc n) [] w = None"
| "unroute_links t (Suc n) (e # es) w =
     (if el_tun e = t then do {
        (_, w) \<leftarrow> ref_put w t;
        (es, w) \<leftarrow> unroute_links t n es w;
        Some (e\<lparr>el_tun := 0\<rparr> # es, w)
      }
      else do {
        (es, w) \<leftarrow> unroute_links t n es w;
        Some (e # es, w)
      })"

text \<open>Releasing a default route that is the tunnel: the new default and whether it changed.\<close>

definition unroute_default :: "nat \<Rightarrow> nat \<Rightarrow> world \<Rightarrow> (nat \<times> bool \<times> world) option" where
  "unroute_default t d w =
     (if d = t then do { (_, w) \<leftarrow> ref_put w t; Some (0, True, w) } else Some (d, False, w))"

definition unroute :: "world \<Rightarrow> nat \<Rightarrow> nat \<Rightarrow> world option" where
  "unroute w r tun =
     (if r = 0 \<or> tun = 0 then Some w
      else do {
        rc \<leftarrow> get_router w r;
        fd \<leftarrow> get_local_fd w tun;
        let w = emit (Epoll_del (epoll_fd rc) fd) w;
        (es, w) \<leftarrow> (if epoll_links_count rc = 0 then Some (epoll_links rc, w)
           else do {
             es \<leftarrow> epoll_links rc;
             (es, w) \<leftarrow> unroute_links tun (epoll_links_count rc) es w;
             Some (Some es, w)
           });
        let (rs4, n4) = unroute4_walk tun (ip4_routes rc);
        w \<leftarrow> put_n tun n4 w;
        (d4, c4, w) \<leftarrow> unroute_default tun (ip4_default rc) w;
        routes6 \<leftarrow> ip6_routes rc;
        let (rs6, n6) = unroute6_walk tun routes6;
        w \<leftarrow> put_n tun n6 w;
        (d6, c6, w) \<leftarrow> unroute_default tun (ip6_default rc) w;
        upd_router r (\<lambda>rc. rc\<lparr>epoll_links := es, ip4_routes := rs4,
          ip4_routes_count := ip4_routes_count rc - int n4, ip4_default := d4,
          ip6_routes := Some rs6, ip6_routes_count := ip6_routes_count rc - int n6, ip6_default := d6,
          routes_updated := (routes_updated rc \<or> 0 < n4 \<or> c4 \<or> 0 < n6 \<or> c6)\<rparr>) w
      })"

definition unroute4 :: "world \<Rightarrow> nat \<Rightarrow> u32 \<Rightarrow> u32 \<Rightarrow> world option" where
  "unroute4 w r ip4 plen =
     (if r = 0 then Some w
      else do {
        rc \<leftarrow> get_router w r;
        let (rs, old) = unroute4_remove ip4 (ip4_routes rc);
        case old of
          None \<Rightarrow> Some w
        | Some t \<Rightarrow> do {
            (_, w) \<leftarrow> (if t \<noteq> 0 then ref_put w t else Some (0, w));
            upd_router r (\<lambda>rc. rc\<lparr>ip4_routes := rs, ip4_routes_count := ip4_routes_count rc - 1,
              routes_updated := True\<rparr>) w
          }
      })"

definition unroute6 :: "world \<Rightarrow> nat \<Rightarrow> bytes \<Rightarrow> u32 \<Rightarrow> world option" where
  "unroute6 w r ip6 plen =
     (if r = 0 then Some w
      else do {
        rc \<leftarrow> get_router w r;
        routes \<leftarrow> ip6_routes rc;
        let (rs, old) = unroute6_remove ip6 routes;
        case old of
          None \<Rightarrow> Some w
        | Some t \<Rightarrow> do {
            (_, w) \<leftarrow> (if t \<noteq> 0 then ref_put w t else Some (0, w));
            upd_router r (\<lambda>rc. rc\<lparr>ip6_routes := Some rs, ip6_routes_count := ip6_routes_count rc - 1,
              routes_updated := True\<rparr>) w
          }
      })"

text \<open>The old default is released before the new one is taken.\<close>

definition default4 :: "world \<Rightarrow> nat \<Rightarrow> nat \<Rightarrow> world option" where
  "default4 w r tun =
     (if r = 0 then Some w
      else do {
        rc \<leftarrow> get_router w r;
        (_, w) \<leftarrow> (if ip4_default rc \<noteq> 0 then ref_put w (ip4_default rc) else Some (0, w));
        (t, w) \<leftarrow> ref_get w tun;
        upd_router r (\<lambda>rc. rc\<lparr>ip4_default := t, routes_updated := True\<rparr>) w
      })"

definition default6 :: "world \<Rightarrow> nat \<Rightarrow> nat \<Rightarrow> world option" where
  "default6 w r tun =
     (if r = 0 then Some w
      else do {
        rc \<leftarrow> get_router w r;
        (_, w) \<leftarrow> (if ip6_default rc \<noteq> 0 then ref_put w (ip6_default rc) else Some (0, w));
        (t, w) \<leftarrow> ref_get w tun;
        upd_router r (\<lambda>rc. rc\<lparr>ip6_default := t, routes_updated := True\<rparr>) w
      })"

section \<open>Sending\<close>

definition tun_send :: "env \<Rightarrow> world \<Rightarrow> nat \<Rightarrow> bytes \<Rightarrow> int \<Rightarrow> (int \<times> bytes \<times> world) option" where
  "tun_send env w t b len = do {
     c \<leftarrow> get_tun w t;
     case tc_send c of
       Dev_tun_send \<Rightarrow> dev_tun_send env w t b len
     | Tun_ctx_send \<Rightarrow> tun_ctx_send env w t b len
     | Usernat_tun_ctx_send \<Rightarrow> usernat_tun_ctx_send env w t b len
   }"

text \<open>The tail of \<open>send4\<close> and \<open>send6\<close>: \<open>t\<close> is the tunnel of the route, \<open>d\<close> the default.\<close>

definition send_via :: "env \<Rightarrow> world \<Rightarrow> nat \<Rightarrow> nat \<Rightarrow> bytes \<Rightarrow> int \<Rightarrow> (int \<times> bytes \<times> world) option" where
  "send_via env w t d b len =
     (let t = (if t = 0 then d else t) in
      if t \<noteq> 0 then do {
        b \<leftarrow> masquerade_src w t b len;
        tun_send env w t b len
      }
      else Some (0, b, w))"

definition send4 :: "env \<Rightarrow> world \<Rightarrow> nat \<Rightarrow> bytes \<Rightarrow> int \<Rightarrow> (int \<times> bytes \<times> world) option" where
  "send4 env w r b len =
     (if r = 0 then Some (- 1, b, w)
      else do {
        rc \<leftarrow> get_router w r;
        ip4 \<leftarrow> rd32 b 16;
        t \<leftarrow> route4_lookup ip4 (ip4_routes rc);
        send_via env w t (ip4_default rc) b len
      })"

definition send6 :: "env \<Rightarrow> world \<Rightarrow> nat \<Rightarrow> bytes \<Rightarrow> int \<Rightarrow> (int \<times> bytes \<times> world) option" where
  "send6 env w r b len =
     (if r = 0 then Some (- 1, b, w)
      else do {
        rc \<leftarrow> get_router w r;
        ip6 \<leftarrow> rd_bytes b 24 16;
        routes \<leftarrow> ip6_routes rc;
        t \<leftarrow> route6_lookup ip6 routes;
        send_via env w t (ip6_default rc) b len
      })"

text \<open>The call of \<open>send6\<close> is commented out in the code.\<close>

definition ipsend :: "env \<Rightarrow> world \<Rightarrow> nat \<Rightarrow> ocpa_ip_packet \<Rightarrow> (int \<times> bytes \<times> world) option" where
  "ipsend env w r p = do {
     p \<leftarrow> (if ipver p = 0 then ip_detect_ipver p else Some p);
     b \<leftarrow> buff p;
     if ipver p = 4 then send4 env w r b (sint (pkt_len p)) else Some (0, b, w)
   }"

text \<open>The packet is parsed before it is read, so the version is that of the bytes the
  buffer held before.\<close>

definition dev_tun_recv :: "env \<Rightarrow> world \<Rightarrow> nat \<Rightarrow> bytes \<Rightarrow> int \<Rightarrow> (int \<times> bytes \<times> world) option" where
  "dev_tun_recv env w t b len =
     (if t = 0 then Some (- 1, b, w)
      else do {
        c \<leftarrow> get_tun w t;
        p \<leftarrow> ip_parse_packet (new_packet b len len);
        (res, b, w) \<leftarrow> read_ip_packet env w (local_fd c) b len;
        if res < 0 then Some (res, b, w)
        else do {
          let p = p\<lparr>buff := Some b, pkt_len := of_int res\<rparr>;
          w \<leftarrow> pcap_output_write (pcap_out c) b res w;
          ipsend env w (tc_router c) p
        }
      })"

definition tun_recv :: "env \<Rightarrow> world \<Rightarrow> nat \<Rightarrow> bytes \<Rightarrow> int \<Rightarrow> (int \<times> bytes \<times> world) option" where
  "tun_recv env w t b len = do {
     c \<leftarrow> get_tun w t;
     case tc_recv c of
       Dev_tun_recv \<Rightarrow> dev_tun_recv env w t b len
     | Tun_ctx_recv \<Rightarrow> tun_ctx_recv env w t b len
     | Usernat_tun_ctx_recv \<Rightarrow> usernat_tun_ctx_recv w b
   }"

section \<open>The polled descriptors\<close>

text \<open>
  The loop that collects the tunnels of the routes into the array \<open>ctxs\<close> of \<open>cap\<close> entries.
  The \<open>continue\<close> for a tunnel without a descriptor does not advance \<open>curr\<close>, so the loop
  then repeats the same state for ever: the function is undefined there. A write behind
  the array is a fault.
\<close>

partial_function (option) collect_tuns ::
  "nat \<Rightarrow> route4_link list \<Rightarrow> nat list \<Rightarrow> world \<Rightarrow> (nat list \<times> world) option" where
  "collect_tuns cap rs ctxs w =
     (case rs of [] \<Rightarrow> Some (ctxs, w)
      | link # next \<Rightarrow>
          if r4_tun link = 0 then collect_tuns cap next ctxs w
          else Option.bind (get_local_fd w (r4_tun link)) (\<lambda>fd.
            if fd = UNDEFINED_FD then collect_tuns cap rs ctxs w
            else if r4_tun link \<in> set ctxs then collect_tuns cap next ctxs w
            else Option.bind (ref_get w (r4_tun link)) (\<lambda>(t, w).
              if length ctxs < cap then collect_tuns cap next (ctxs @ [t]) w else None)))"

text \<open>The release of all polled tunnels before the table is reallocated.\<close>

fun release_links :: "epoll_link list \<Rightarrow> world \<Rightarrow> world option" where
  "release_links [] w = Some w"
| "release_links (e # es) w =
     (if el_tun e \<noteq> 0 then do { (_, w) \<leftarrow> ref_put w (el_tun e); release_links es w }
      else release_links es w)"

definition EPOLLIN :: u32 where "EPOLLIN = 1"
definition EPOLLHUP :: u32 where "EPOLLHUP = 16"

text \<open>The loop that fills the table; the errors of \<open>epoll_ctl\<close> are only logged.\<close>

fun fill_links :: "int \<Rightarrow> nat list \<Rightarrow> nat \<Rightarrow> epoll_link list \<Rightarrow> world \<Rightarrow> (epoll_link list \<times> world) option" where
  "fill_links efd [] i es w = Some (es, w)"
| "fill_links efd (t # ts) i es w =
     (if i < length es then do {
        fd \<leftarrow> get_local_fd w t;
        fill_links efd ts (Suc i)
          (es[i := \<lparr>el_fd = fd, el_events = EPOLLIN, el_evt_fd = fd, el_tun = t\<rparr>])
          (emit (Epoll_add efd fd) w)
      }
      else None)"

definition rebuild_epoll_struct :: "env \<Rightarrow> world \<Rightarrow> nat \<Rightarrow> world option" where
  "rebuild_epoll_struct env w r =
     (if r = 0 then Some w
      else do {
        rc \<leftarrow> get_router w r;
        let (arr, w) = malloc env w;
        let cap = nat (ip4_routes_count rc + 2);
        if arr = 0 then upd_router r (\<lambda>rc. rc\<lparr>routes_updated := False\<rparr>) w
        else do {
          (d, w) \<leftarrow> ref_get w (dev_tun rc);
          ctxs \<leftarrow> (if 0 < cap then Some [d] else None);
          fd \<leftarrow> get_local_fd w (ip4_default rc);
          (ctxs, w) \<leftarrow>
            (if ip4_default rc \<noteq> 0 \<and> fd \<noteq> UNDEFINED_FD then do {
               (t, w) \<leftarrow> ref_get w (ip4_default rc);
               if 1 < cap then Some (ctxs @ [t], w) else None
             }
             else Some (ctxs, w));
          (ctxs, w) \<leftarrow> collect_tuns cap (ip4_routes rc) ctxs w;
          let poll_count = length ctxs;
          if poll_count > epoll_links_capacity rc \<or> poll_count < epoll_links_capacity rc div 2
          then do {
            es \<leftarrow> (if epoll_links_capacity rc = 0 then Some [] else epoll_links rc);
            w \<leftarrow> release_links (take (epoll_links_capacity rc) es) w;
            let new_poll_count = poll_count + poll_count div 2;
            let (p, w) = malloc env w;
            if p = 0 then upd_router r (\<lambda>rc. rc\<lparr>epoll_links := None, routes_updated := False\<rparr>) w
            else do {
              (es, w) \<leftarrow> fill_links (epoll_fd rc) ctxs 0
                (replicate new_poll_count \<lparr>el_fd = 0, el_events = 0, el_evt_fd = 0, el_tun = 0\<rparr>) w;
              upd_router r (\<lambda>rc. rc\<lparr>epoll_links := Some es, epoll_links_capacity := new_poll_count,
                epoll_links_count := poll_count, routes_updated := False\<rparr>) w
            }
          }
          else do {
            _ \<leftarrow> epoll_links rc;
            (es, w) \<leftarrow> fill_links (epoll_fd rc) ctxs 0
              (replicate (epoll_links_capacity rc) \<lparr>el_fd = 0, el_events = 0, el_evt_fd = 0, el_tun = 0\<rparr>) w;
            upd_router r (\<lambda>rc. rc\<lparr>epoll_links := Some es, routes_updated := False\<rparr>) w
          }
        }
      })"

definition router_is_paused :: "world \<Rightarrow> nat \<Rightarrow> bool option" where
  "router_is_paused w r = (if r = 0 then Some False else map_option paused (get_router w r))"

definition router_pause :: "world \<Rightarrow> nat \<Rightarrow> bool \<Rightarrow> (bool \<times> world) option" where
  "router_pause w r p =
     (if r = 0 then Some (False, w)
      else do {
        rc \<leftarrow> get_router w r;
        Some (paused rc, set_router r (rc\<lparr>paused := p\<rparr>) w)
      })"

end
