(* ===== verification/RouterLoop.thy ===== *)
theory RouterLoop
  imports Router
begin

text \<open>
  The native methods of the Java classes: \<open>jni_RouterLoop.c\<close>, \<open>jni_VpnTunnel.c\<close>,
  \<open>jni_IpSecTunnel.c\<close>, \<open>jni_L2tpTunnel.c\<close>, \<open>jni_OpenVpnTunnel.c\<close> and \<open>jni_UsernatTunnel.c\<close>. The
  loop of \<open>routerLoop\<close> is one step per turn, so that the calls of other threads can come
  between two turns; \<open>router_system\<close> is the resulting system.
\<close>

section \<open>Native methods of RouterLoop\<close>

definition initIpRouter :: "env \<Rightarrow> world \<Rightarrow> (nat \<times> world) option" where
  "initIpRouter = router_init"

definition deinitIpRouter :: "world \<Rightarrow> nat \<Rightarrow> world option" where
  "deinitIpRouter = router_deinit"

definition addRoute4 :: "env \<Rightarrow> world \<Rightarrow> nat \<Rightarrow> u32 \<Rightarrow> u32 \<Rightarrow> nat \<Rightarrow> world option" where
  "addRoute4 env w r ip4 plen tun =
     (if r = 0 \<or> tun = 0 then Some w
      else do {
        (_, w) \<leftarrow> ref_get w tun;
        w \<leftarrow> set_router_context w tun r;
        w \<leftarrow> route4 env w r ip4 plen tun;
        (_, w) \<leftarrow> ref_put w tun;
        Some w
      })"

definition defaultRoute4 :: "world \<Rightarrow> nat \<Rightarrow> nat \<Rightarrow> world option" where
  "defaultRoute4 w r tun =
     (if r = 0 \<or> tun = 0 then Some w
      else do {
        (_, w) \<leftarrow> ref_get w tun;
        w \<leftarrow> set_router_context w tun r;
        w \<leftarrow> default4 w r tun;
        (_, w) \<leftarrow> ref_put w tun;
        Some w
      })"

definition removeRoute4 :: "world \<Rightarrow> nat \<Rightarrow> u32 \<Rightarrow> u32 \<Rightarrow> world option" where
  "removeRoute4 w r ip4 plen = (if r = 0 then Some w else unroute4 w r ip4 plen)"

text \<open>The list that Java gets: tunnel, address and mask of the default route and of every
  route. The mask of a route is always reported as 32.\<close>

definition getRoutes4 :: "world \<Rightarrow> nat \<Rightarrow> (nat \<times> u32 \<times> u32) list option" where
  "getRoutes4 w r =
     (if r = 0 then Some []
      else do {
        rc \<leftarrow> get_router w r;
        Some ((ip4_default rc, 0, 0) # map (\<lambda>l. (r4_tun l, r4_ip l, 32)) (ip4_routes rc))
      })"

definition removeTunnel :: "env \<Rightarrow> world \<Rightarrow> nat \<Rightarrow> nat \<Rightarrow> world option" where
  "removeTunnel env w r tun =
     (if tun = 0 then Some w
      else do {
        (_, w) \<leftarrow> ref_get w tun;
        w \<leftarrow> unroute w r tun;
        w \<leftarrow> rebuild_epoll_struct env w r;
        (_, w) \<leftarrow> ref_put w tun;
        Some w
      })"

definition isPausedRouterLoop :: "world \<Rightarrow> nat \<Rightarrow> bool option" where
  "isPausedRouterLoop w r = (if r = 0 then Some False else router_is_paused w r)"

definition pauseRouterLoop :: "world \<Rightarrow> nat \<Rightarrow> bool \<Rightarrow> (bool \<times> world) option" where
  "pauseRouterLoop w r p = (if r = 0 then Some (False, w) else router_pause w r p)"

definition terminateRouterLoop :: "world \<Rightarrow> nat \<Rightarrow> world option" where
  "terminateRouterLoop w r =
     (if r = 0 then Some w else upd_router r (\<lambda>rc. rc\<lparr>terminate := True\<rparr>) w)"

text \<open>The methods that pass their argument on to the tunnel of the TUN device.\<close>

definition with_dev :: "(world \<Rightarrow> nat \<Rightarrow> world option) \<Rightarrow> world \<Rightarrow> nat \<Rightarrow> world option" where
  "with_dev f w r = (if r = 0 then Some w else do { rc \<leftarrow> get_router w r; f w (dev_tun rc) })"

definition setMasqueradeIp4Mode where
  "setMasqueradeIp4Mode w r on = with_dev (\<lambda>w d. set_masquerade4_mode w d on) w r"

definition setMasqueradeIp4 where
  "setMasqueradeIp4 w r ip = with_dev (\<lambda>w d. set_masquerade4_ip w d ip) w r"

definition setMasqueradeIp6Mode where
  "setMasqueradeIp6Mode w r on = with_dev (\<lambda>w d. set_masquerade6_mode w d on) w r"

definition setMasqueradeIp6 where
  "setMasqueradeIp6 w r ip = with_dev (\<lambda>w d. set_masquerade6_ip w d ip) w r"

definition debugRestartPcap where
  "debugRestartPcap env w r obj = with_dev (\<lambda>w d. debug_restart_pcap env w d obj) w r"

definition debugStopPcap where
  "debugStopPcap w r = with_dev debug_stop_pcap w r"

section \<open>Native methods of the tunnels\<close>

text \<open>The methods of \<open>VpnTunnel\<close> test the tunnel against \<open>NULL\<close> and call its setter.\<close>

definition vpn_setDnsIp4 where "vpn_setDnsIp4 w t idx ip = (if t = 0 then Some w else set_dns_ip4 w t idx ip)"
definition vpn_setVirtualDnsIp4 where
  "vpn_setVirtualDnsIp4 w t idx ip = (if t = 0 then Some w else set_virtual_dns_ip4 w t idx ip)"
definition vpn_setMasqueradeIp4Mode where
  "vpn_setMasqueradeIp4Mode w t on = (if t = 0 then Some w else set_masquerade4_mode w t on)"
definition vpn_setMasqueradeIp4 where
  "vpn_setMasqueradeIp4 w t ip = (if t = 0 then Some w else set_masquerade4_ip w t ip)"
definition vpn_debugRestartPcap where
  "vpn_debugRestartPcap env w t obj = (if t = 0 then Some w else debug_restart_pcap env w t obj)"
definition vpn_debugStopPcap where
  "vpn_debugStopPcap w t = (if t = 0 then Some w else debug_stop_pcap w t)"

definition init_tun :: "(env \<Rightarrow> world \<Rightarrow> nat \<Rightarrow> bool \<Rightarrow> (nat \<times> world) option) \<Rightarrow>
    env \<Rightarrow> world \<Rightarrow> nat \<Rightarrow> (nat \<times> world) option" where
  "init_tun create env w this = do {
     (t, w) \<leftarrow> create env w 0 False;
     if t \<noteq> 0 then do { w \<leftarrow> set_java_vpn_tunnel env w t this; Some (t, w) } else Some (t, w)
   }"

definition initIpSecTun where "initIpSecTun = init_tun create_ipsec_tun_ctx"
definition initL2tpTun where "initL2tpTun = init_tun create_l2tp_tun_ctx"
definition initOpenVpnTun where "initOpenVpnTun = init_tun create_openvpn_tun_ctx"
definition initUsernatTun where
  "initUsernatTun env w this = init_tun (\<lambda>env w p fits. create_usernat_tun_ctx env w p fits this) env w this"

text \<open>The four \<open>deinit\<close> methods are the same.\<close>

definition deinit_tun :: "world \<Rightarrow> nat \<Rightarrow> world option" where
  "deinit_tun w t = (if t \<noteq> 0 then do { (_, w) \<leftarrow> ref_put w t; Some w } else Some w)"

definition jni_getLocalFd where "jni_getLocalFd w t = (if t = 0 then Some UNDEFINED_FD else get_local_fd w t)"
definition jni_getRemoteFd where "jni_getRemoteFd w t = (if t = 0 then Some UNDEFINED_FD else get_remote_fd w t)"
definition setPidForLink where "setPidForLink = usernat_set_pid_for_link"

section \<open>The loop\<close>

text \<open>The search for the tunnel of a descriptor among the polled ones.\<close>

definition polled_tun :: "router_ctx \<Rightarrow> int \<Rightarrow> nat option" where
  "polled_tun rc fd =
     (if epoll_links_count rc = 0 then Some 0
      else do {
        es \<leftarrow> epoll_links rc;
        case find (\<lambda>e. el_fd e = fd) (take (epoll_links_count rc) es) of
          Some e \<Rightarrow> Some (el_tun e)
        | None \<Rightarrow> if epoll_links_count rc \<le> length es then Some 0 else None
      })"

text \<open>One event. The result is the buffer and the world, or \<open>None\<close> inside when the loop
  fails.\<close>

definition handle_event :: "env \<Rightarrow> nat \<Rightarrow> u32 \<times> int \<Rightarrow> bytes \<Rightarrow> world \<Rightarrow> ((bytes \<times> world) option \<times> world) option" where
  "handle_event env r ev b w =
     (let (events, fd) = ev in do {
        rc \<leftarrow> get_router w r;
        (b, w, skip) \<leftarrow>
          (if events AND EPOLLIN \<noteq> 0 then do {
             t \<leftarrow> polled_tun rc fd;
             if t = 0 then Some (b, w, True)
             else do {
               (res, b, w) \<leftarrow> tun_recv env w t b 1500;
               Some (b, w, res < 0)
             }
           }
           else Some (b, w, False));
        if \<not> skip \<and> events AND EPOLLHUP \<noteq> 0 then
          (let w = emit (Epoll_del (epoll_fd rc) fd) w
           in if e_epoll_del env (w_io w) then Some (Some (b, w), w) else Some (None, w))
        else Some (Some (b, w), w)
      })"

fun handle_events :: "env \<Rightarrow> nat \<Rightarrow> (u32 \<times> int) list \<Rightarrow> bytes \<Rightarrow> world \<Rightarrow> ((bytes \<times> world) option \<times> world) option" where
  "handle_events env r [] b w = Some (Some (b, w), w)"
| "handle_events env r (ev # evs) b w = do {
     (res, w) \<leftarrow> handle_event env r ev b w;
     case res of None \<Rightarrow> Some (None, w) | Some (b, w) \<Rightarrow> handle_events env r evs b w
   }"

datatype loop_state = Running bytes bool | Exited int

text \<open>One turn of the loop: the buffer and \<open>do_rebuild_epoll_struct\<close> are its local state.\<close>

definition loop_turn :: "env \<Rightarrow> nat \<Rightarrow> bytes \<Rightarrow> bool \<Rightarrow> world \<Rightarrow> (loop_state \<times> world) option" where
  "loop_turn env r b rebuild w = do {
     is_paused \<leftarrow> router_is_paused w r;
     if is_paused then Some (Running b rebuild, w)
     else do {
       w \<leftarrow> (if rebuild then rebuild_epoll_struct env w r else Some w);
       rc \<leftarrow> get_router w r;
       if routes_updated rc then Some (Running b True, w)
       else do {
         let w = emit (Epoll_wait (epoll_fd rc)) w;
         case e_epoll_wait env (w_io w) of
           None \<Rightarrow> Some (Exited (- 1), w)
         | Some evs \<Rightarrow> do {
             (res, w) \<leftarrow> handle_events env r (take 10 evs) b w;
             case res of
               None \<Rightarrow> Some (Exited (- 1), w)
             | Some (b, w) \<Rightarrow> do {
                 rc \<leftarrow> get_router w r;
                 if terminate rc then Some (Exited 0, w) else Some (Running b False, w)
               }
           }
       }
     }
   }"

text \<open>The part before the loop; \<open>junk\<close> is what the packet buffer of 1500 bytes holds.\<close>

definition loop_start :: "env \<Rightarrow> bytes \<Rightarrow> nat \<Rightarrow> world \<Rightarrow> (loop_state \<times> world) option" where
  "loop_start env junk r w = do {
     let w = emit Jni_lookup w;
     if e_handle env (w_io w) = 0 then Some (Exited (- 1), w)
     else do {
       let w = emit Establish w;
       let fd = e_establish env (w_io w);
       if fd = - 1 \<or> r = 0 then Some (Exited (- 1), w)
       else do {
         rc \<leftarrow> get_router w r;
         w \<leftarrow> set_tun_dev_tun_fd w (dev_tun rc) fd;
         let (p, w) = malloc env w;
         if p = 0 then None
         else do {
           w \<leftarrow> rebuild_epoll_struct env w r;
           Some (Running junk False, w)
         }
       }
     }
   }"

partial_function (option) loop_run :: "env \<Rightarrow> nat \<Rightarrow> bytes \<Rightarrow> bool \<Rightarrow> world \<Rightarrow> (int \<times> world) option" where
  "loop_run env r b rebuild w =
     Option.bind (loop_turn env r b rebuild w) (\<lambda>(st, w).
       case st of Exited res \<Rightarrow> Some (res, w) | Running b rebuild \<Rightarrow> loop_run env r b rebuild w)"

text \<open>The whole method when no other thread interferes.\<close>

definition routerLoop :: "env \<Rightarrow> bytes \<Rightarrow> nat \<Rightarrow> world \<Rightarrow> (int \<times> world) option" where
  "routerLoop env junk r w = do {
     (st, w) \<leftarrow> loop_start env junk r w;
     case st of Exited res \<Rightarrow> Some (res, w) | Running b rebuild \<Rightarrow> loop_run env r b rebuild w
   }"

section \<open>The loop among the other threads\<close>

datatype jni_call =
    Add_route4 u32 u32 nat
  | Default_route4 nat
  | Remove_route4 u32 u32
  | Unroute_tunnel nat
  | Pause bool
  | Terminate

text \<open>The calls of other threads on the router, each one critical section.\<close>

fun jni_exec :: "env \<Rightarrow> nat \<Rightarrow> jni_call \<Rightarrow> world \<Rightarrow> world option" where
  "jni_exec env r (Add_route4 ip plen t) w = addRoute4 env w r ip plen t"
| "jni_exec env r (Default_route4 t) w = defaultRoute4 w r t"
| "jni_exec env r (Remove_route4 ip plen) w = removeRoute4 w r ip plen"
| "jni_exec env r (Unroute_tunnel t) w = unroute w r t"
| "jni_exec env r (Pause p) w = map_option snd (pauseRouterLoop w r p)"
| "jni_exec env r Terminate w = terminateRouterLoop w r"

inductive router_system :: "env \<Rightarrow> nat \<Rightarrow> loop_state \<times> world \<Rightarrow> loop_state \<times> world \<Rightarrow> bool"
  for env r where
  turn: "loop_turn env r b rebuild w = Some (st, w') \<Longrightarrow>
    router_system env r (Running b rebuild, w) (st, w')"
| call: "jni_exec env r c w = Some w' \<Longrightarrow> router_system env r (st, w) (st, w')"

end
