(* ===== verification/Refs.thy ===== *)
theory Refs
  imports Masquerade
begin

text \<open>
  Reference counts of tunnels (\<open>refs.h\<close>). The locale \<open>refcounted\<close> is what a holder of
  references relies on; \<open>ref_get\<close> and \<open>ref_put\<close> of a tunnel are an instance. \<open>ref_put_Some\<close>
  describes one release completely and is what the router and the NAT use.
\<close>

section \<open>The contract of a counted object\<close>

datatype ref_op = Get | Put

fun run_refs :: "('w \<Rightarrow> (nat \<times> 'w) option) \<Rightarrow> ('w \<Rightarrow> (nat \<times> 'w) option) \<Rightarrow> ref_op list \<Rightarrow> 'w \<Rightarrow> 'w option" where
  "run_refs get put [] w = Some w"
| "run_refs get put (Get # ops) w = do { (_, w) \<leftarrow> get w; run_refs get put ops w }"
| "run_refs get put (Put # ops) w = do { (_, w) \<leftarrow> put w; run_refs get put ops w }"

text \<open>The number of references after each operation; \<open>None\<close> when a reference is taken or
  released that nobody holds, or the counter would overflow.\<close>

fun balance :: "nat \<Rightarrow> nat \<Rightarrow> ref_op list \<Rightarrow> nat option" where
  "balance m n [] = Some n"
| "balance m n (Get # ops) = (if 0 < n \<and> n < m then balance m (n + 1) ops else None)"
| "balance m n (Put # ops) = (if 0 < n then balance m (n - 1) ops else None)"

locale refcounted =
  fixes get put :: "'w \<Rightarrow> (nat \<times> 'w) option" and count :: "'w \<Rightarrow> nat" and inv :: "'w \<Rightarrow> bool"
    and limit :: nat
  assumes get_counts: "inv w \<Longrightarrow> 0 < count w \<Longrightarrow> count w < limit \<Longrightarrow>
      \<exists>r w'. get w = Some (r, w') \<and> inv w' \<and> count w' = count w + 1"
    and put_counts: "inv w \<Longrightarrow> 0 < count w \<Longrightarrow>
      \<exists>r w'. put w = Some (r, w') \<and> inv w' \<and> count w' = count w - 1"
begin

lemma run_balanced:
  "inv w \<Longrightarrow> balance limit (count w) ops = Some n \<Longrightarrow>
   \<exists>w'. run_refs get put ops w = Some w' \<and> inv w' \<and> count w' = n"
proof (induction ops arbitrary: w)
  case Nil
  then show ?case by simp
next
  case (Cons op ops)
  show ?case
  proof (cases op)
    case Get
    then obtain r w' where "get w = Some (r, w')" "inv w'" "count w' = count w + 1"
      using get_counts [of w] Cons.prems by (auto split: if_splits)
    then show ?thesis using Cons Get by (auto split: if_splits)
  next
    case Put
    then obtain r w' where "put w = Some (r, w')" "inv w'" "count w' = count w - 1"
      using put_counts [of w] Cons.prems by (auto split: if_splits)
    then show ?thesis using Cons Put by (auto split: if_splits)
  qed
qed

end

section \<open>Releasing a tunnel\<close>

text \<open>A tunnel whose \<open>destroy\<close> is the NAT's has the fields of the NAT, and the function it
  saved is the one of \<open>tun.c\<close>.\<close>

definition wf_tun :: "tun_ctx \<Rightarrow> bool" where
  "wf_tun c \<longleftrightarrow> (tc_destroy c = Destroy_usernat_tun_ctx \<longrightarrow>
     (\<exists>u. tc_usernat c = Some u \<and> original_destroy u = Destroy_tun_ctx))"

definition wf_tuns :: "world \<Rightarrow> bool" where
  "wf_tuns w \<longleftrightarrow> (\<forall>t c. get_tun w t = Some c \<longrightarrow> wf_tun c)"

text \<open>The calls that the destruction of a tunnel makes, in order.\<close>

definition destroy_events :: "tun_ctx \<Rightarrow> io list" where
  "destroy_events c =
     (case (tc_destroy c, tc_usernat c) of
        (Destroy_usernat_tun_ctx, Some u) \<Rightarrow>
          (case j_usernat_tun u of Some j \<Rightarrow> if j \<noteq> 0 then [Delete_global_ref j] else [] | None \<Rightarrow> [])
      | _ \<Rightarrow> []) @
     (if local_fd c \<noteq> UNDEFINED_FD then [Shutdown (local_fd c)] else []) @
     (if remote_fd c \<noteq> UNDEFINED_FD then [Shutdown (remote_fd c)] else []) @
     (case j_vpn_tun c of Some j \<Rightarrow> if j \<noteq> 0 then [Delete_global_ref j] else [] | None \<Rightarrow> []) @
     (case pcap_out c of None \<Rightarrow> []
      | Some p \<Rightarrow> (if po_class p \<noteq> 0 then [Delete_global_ref (po_class p)] else []) @
                   (if jpcap p \<noteq> 0 then [Delete_global_ref (jpcap p)] else []))"

lemma world_eqI:
  "w_tuns w = w_tuns w' \<Longrightarrow> w_routers w = w_routers w' \<Longrightarrow> w_mem w = w_mem w' \<Longrightarrow>
   w_brk w = w_brk w' \<Longrightarrow> w_io w = w_io w' \<Longrightarrow> w = (w' :: world)"
  by simp

definition trace :: "io list \<Rightarrow> world \<Rightarrow> world" where
  "trace es w = w\<lparr>w_io := w_io w @ es\<rparr>"

lemma emit_trace: "emit e w = trace [e] w"
  by (simp add: emit_def trace_def)

lemma trace_simps [simp]:
  "trace [] w = w" "trace es' (trace es w) = trace (es @ es') w"
  "w_tuns (trace es w) = w_tuns w" "w_routers (trace es w) = w_routers w"
  "w_mem (trace es w) = w_mem w" "w_brk (trace es w) = w_brk w" "w_io (trace es w) = w_io w @ es"
  "get_tun (trace es w) t = get_tun w t" "get_router (trace es w) r = get_router w r"
  by (simp_all add: trace_def get_tun_def get_router_def)

lemma free_set_tun [simp]: "free_tun t (set_tun t c w) = free_tun t w"
  "free_tun t (trace es w) = trace es (free_tun t w)"
  "set_tun t c (trace es w) = trace es (set_tun t c w)"
  by (simp_all add: free_tun_def set_tun_def trace_def)

lemma destroy_tun_ctx_Some:
  assumes "get_tun w t = Some c"
  shows "destroy_tun_ctx w t =
    Some (trace (destroy_events (c\<lparr>tc_destroy := Destroy_tun_ctx\<rparr>)) (free_tun t w))"
  using assms get_tun_nz [OF assms]
  by (auto simp: destroy_tun_ctx_def destroy_events_def emit_trace destroy_VpnTunnel_def
      pcap_output_destroy_def Let_def split: option.splits)

lemma tun_destroy_Some:
  assumes "get_tun w t = Some c" "wf_tun c"
  shows "tun_destroy w t = Some (trace (destroy_events c) (free_tun t w))"
proof (cases "tc_destroy c")
  case Destroy_tun_ctx
  then show ?thesis using assms
    by (simp add: tun_destroy_def destroy_tun_ctx_Some destroy_events_def)
next
  case Destroy_usernat_tun_ctx
  then obtain u where u: "tc_usernat c = Some u" "original_destroy u = Destroy_tun_ctx"
    using assms(2) by (auto simp: wf_tun_def)
  let ?es = "case j_usernat_tun u of Some j \<Rightarrow> if j \<noteq> 0 then [Delete_global_ref j] else [] | None \<Rightarrow> []"
  let ?c = "c\<lparr>tc_usernat := Some (u\<lparr>j_usernat_tun := None\<rparr>)\<rparr>"
  have d: "destroy_UsernatTunnel (j_usernat_tun u) w = trace ?es w"
    by (simp add: destroy_UsernatTunnel_def emit_trace split: option.splits)
  have nz: "t \<noteq> 0" using get_tun_nz assms(1) by blast
  then have "destroy_tun_ctx (set_tun t ?c (trace ?es w)) t =
      Some (trace (?es @ destroy_events (?c\<lparr>tc_destroy := Destroy_tun_ctx\<rparr>)) (free_tun t w))"
    by (subst destroy_tun_ctx_Some [of _ _ ?c]) simp_all
  also have "?es @ destroy_events (?c\<lparr>tc_destroy := Destroy_tun_ctx\<rparr>) = destroy_events c"
    using Destroy_usernat_tun_ctx u by (simp add: destroy_events_def)
  finally show ?thesis using assms nz Destroy_usernat_tun_ctx u
    by (simp add: tun_destroy_def destroy_usernat_tun_ctx_def d upd_tun_def)
qed

lemma ref_get_Some:
  "get_tun w t = Some c \<Longrightarrow> unat (ref_count c) < 2 ^ 32 - 1 \<Longrightarrow>
   ref_get w t = Some (t, set_tun t (c\<lparr>ref_count := ref_count c + 1,
     ref_generation := ref_generation c + 1\<rparr>) w) \<and> unat (ref_count c + 1) = unat (ref_count c) + 1"
  by (auto simp: ref_get_def word_less_nat_alt unat_word_ariths)

lemma ref_put_Some:
  assumes "get_tun w t = Some c" "wf_tun c"
  shows "ref_put w t = Some (if ref_count c = 1 then (0, trace (destroy_events c) (free_tun t w))
    else (t, set_tun t (c\<lparr>ref_count := ref_count c - 1, ref_generation := ref_generation c + 1\<rparr>) w))"
proof -
  let ?c = "c\<lparr>ref_count := ref_count c - 1, ref_generation := ref_generation c + 1\<rparr>"
  have "tun_destroy (set_tun t ?c w) t = Some (trace (destroy_events ?c) (free_tun t w))"
    using get_tun_nz [OF assms(1)] assms(2)
    by (subst tun_destroy_Some [of _ _ ?c]) (simp_all add: wf_tun_def)
  moreover have "destroy_events ?c = destroy_events c" by (simp add: destroy_events_def)
  ultimately have d: "tun_destroy (set_tun t ?c w) t = Some (trace (destroy_events c) (free_tun t w))"
    by simp
  show ?thesis
  proof (cases "ref_count c = 1")
    case True
    then show ?thesis using assms(1) d by (simp add: ref_put_def)
  next
    case False
    then have "ref_count c - 1 \<noteq> 0" by auto
    then show ?thesis using assms(1) False by (simp add: ref_put_def)
  qed
qed

text \<open>The number of references to a tunnel; 0 for a tunnel that does not exist.\<close>

definition refs :: "world \<Rightarrow> nat \<Rightarrow> nat" where
  "refs w t = (case get_tun w t of None \<Rightarrow> 0 | Some c \<Rightarrow> unat (ref_count c))"

lemma refs_pos: "0 < refs w t \<Longrightarrow> \<exists>c. get_tun w t = Some c \<and> refs w t = unat (ref_count c) \<and> ref_count c \<noteq> 0"
  by (auto simp: refs_def split: option.splits)

lemma refs_cong [simp]:
  "refs (trace es w) t = refs w t" "refs (emit e w) t = refs w t"
  "refs (set_router r rc w) t = refs w t"
  by (simp_all add: refs_def)

lemma wf_tuns_cong [simp]:
  "wf_tuns (trace es w) = wf_tuns w" "wf_tuns (emit e w) = wf_tuns w"
  "wf_tuns (set_router r rc w) = wf_tuns w"
  by (simp_all add: wf_tuns_def)

lemma wf_tuns_set: "wf_tuns w \<Longrightarrow> wf_tun c \<Longrightarrow> wf_tuns (set_tun t c w)"
  unfolding wf_tuns_def
proof (intro allI impI)
  fix x d
  assume "\<forall>t c. get_tun w t = Some c \<longrightarrow> wf_tun c" "wf_tun c" "get_tun (set_tun t c w) x = Some d"
  then show "wf_tun d" using get_tun_nz by (cases "x = t") fastforce+
qed

lemma wf_tuns_free: "wf_tuns w \<Longrightarrow> wf_tuns (free_tun t w)"
  unfolding wf_tuns_def
proof (intro allI impI)
  fix x d
  assume "\<forall>t c. get_tun w t = Some c \<longrightarrow> wf_tun c" "get_tun (free_tun t w) x = Some d"
  then show "wf_tun d" by (cases "x = t") fastforce+
qed

lemma wf_tunsD: "wf_tuns w \<Longrightarrow> get_tun w t = Some c \<Longrightarrow> wf_tun c"
  by (simp add: wf_tuns_def)

text \<open>Taking and releasing a reference, seen through \<open>refs\<close>.\<close>

lemma ref_get_refs:
  assumes "wf_tuns w" "0 < refs w t" "refs w t < 2 ^ 32 - 1"
  shows "\<exists>w'. ref_get w t = Some (t, w') \<and> wf_tuns w' \<and> refs w' = (refs w)(t := refs w t + 1) \<and>
    w_routers w' = w_routers w \<and> w_mem w' = w_mem w \<and> w_io w' = w_io w \<and> w_brk w' = w_brk w \<and>
    (\<forall>x. map_option local_fd (get_tun w' x) = map_option local_fd (get_tun w x))"
proof -
  obtain c where c: "get_tun w t = Some c" "refs w t = unat (ref_count c)"
    using refs_pos assms(2) by blast
  let ?c = "c\<lparr>ref_count := ref_count c + 1, ref_generation := ref_generation c + 1\<rparr>"
  have r: "ref_get w t = Some (t, set_tun t ?c w)" "unat (ref_count c + 1) = unat (ref_count c) + 1"
    using ref_get_Some [OF c(1)] assms(3) c(2) by auto
  have nz: "t \<noteq> 0" using get_tun_nz c(1) by blast
  have "refs (set_tun t ?c w) = (refs w)(t := refs w t + 1)"
    using nz c r(2) by (auto simp: refs_def fun_eq_iff get_tun_def)
  moreover have "wf_tun ?c" using wf_tunsD [OF assms(1) c(1)] by (simp add: wf_tun_def)
  moreover have "map_option local_fd (get_tun (set_tun t ?c w) x) = map_option local_fd (get_tun w x)" for x
    using c(1) nz by (cases "x = t") simp_all
  ultimately show ?thesis using r(1) wf_tuns_set [OF assms(1)] by simp
qed

lemma ref_put_refs:
  assumes "wf_tuns w" "0 < refs w t"
  shows "\<exists>r w'. ref_put w t = Some (r, w') \<and> wf_tuns w' \<and> refs w' = (refs w)(t := refs w t - 1) \<and>
    w_routers w' = w_routers w \<and> w_mem w' = w_mem w \<and> w_brk w' = w_brk w \<and>
    r = (if refs w t = 1 then 0 else t) \<and>
    (\<forall>x. 0 < refs w' x \<longrightarrow> map_option local_fd (get_tun w' x) = map_option local_fd (get_tun w x))"
proof -
  obtain c where c: "get_tun w t = Some c" "refs w t = unat (ref_count c)" "ref_count c \<noteq> 0"
    using refs_pos assms(2) by blast
  have nz: "t \<noteq> 0" using get_tun_nz c(1) by blast
  note p = ref_put_Some [OF c(1) wf_tunsD [OF assms(1) c(1)]]
  show ?thesis
  proof (cases "ref_count c = 1")
    case True
    have "refs (free_tun t w) = (refs w)(t := 0)"
      by (auto simp: refs_def fun_eq_iff get_tun_def free_tun_def)
    moreover have "get_tun (free_tun t w) x = (if x = t then None else get_tun w x)" for x by simp
    ultimately show ?thesis using p True c(2) wf_tuns_free [OF assms(1), of t] by auto
  next
    case False
    let ?c = "c\<lparr>ref_count := ref_count c - 1, ref_generation := ref_generation c + 1\<rparr>"
    have "unat (ref_count c - 1) = unat (ref_count c) - 1"
      using c(3) by (simp add: unat_minus_one)
    then have "refs (set_tun t ?c w) = (refs w)(t := refs w t - 1)"
      using nz c by (auto simp: refs_def fun_eq_iff get_tun_def)
    moreover have "unat (ref_count c) \<noteq> 1" using False by (simp add: word_unat_eq_iff)
    moreover have "wf_tun ?c" using wf_tunsD [OF assms(1) c(1)] by (simp add: wf_tun_def)
    moreover have "map_option local_fd (get_tun (set_tun t ?c w) x) = map_option local_fd (get_tun w x)" for x
      using c(1) nz by (cases "x = t") simp_all
    ultimately show ?thesis using p False c(2) wf_tuns_set [OF assms(1)] by simp
  qed
qed

interpretation tun_refs: refcounted "\<lambda>w. ref_get w t" "\<lambda>w. ref_put w t" "\<lambda>w. refs w t" wf_tuns
  "2 ^ 32 - 1"
proof
  fix w assume "wf_tuns w" "0 < refs w t" "refs w t < 2 ^ 32 - 1"
  from ref_get_refs [OF this] show "\<exists>r w'. ref_get w t = Some (r, w') \<and> wf_tuns w' \<and> refs w' t = refs w t + 1"
    by auto
next
  fix w assume "wf_tuns w" "0 < refs w t"
  from ref_put_refs [OF this] show "\<exists>r w'. ref_put w t = Some (r, w') \<and> wf_tuns w' \<and> refs w' t = refs w t - 1"
    by auto
qed


section \<open>Properties\<close>

lemma sample_world_wf: "wf_tuns sample_world"
  by (auto simp: wf_tuns_def sample_world_def empty_world_def get_tun_def wf_tun_def
      sample_tun_def zero_tun_def split: if_splits)

lemma sample_world_refs: "refs sample_world 1 = 1"
  by (simp add: refs_def) (simp add: sample_tun_def zero_tun_def)

text \<open>C7: reference counting balances. Any sequence of \<open>ref_get\<close> and \<open>ref_put\<close> on a tunnel
  in which nobody takes or releases a reference that is not there runs without a fault and
  leaves the counter at the initial value plus the gets minus the puts; a counter of 0
  means that the tunnel is gone.\<close>

theorem tun_ref_balance:
  assumes "wf_tuns w" "balance (2 ^ 32 - 1) (refs w t) ops = Some n"
  shows "\<exists>w'. run_refs (\<lambda>w. ref_get w t) (\<lambda>w. ref_put w t) ops w = Some w' \<and> refs w' t = n"
  using tun_refs.run_balanced [OF assms] by blast

theorem tun_ref_balance_witness:
  "\<exists>w'. run_refs (\<lambda>w. ref_get w 1) (\<lambda>w. ref_put w 1) [Get, Get, Put, Put, Put] sample_world = Some w' \<and>
     refs w' 1 = 0"
  by (rule tun_ref_balance [OF sample_world_wf]) (use sample_world_refs in simp)

text \<open>C18: the last release destroys, and only the last. With more than one reference
  \<open>ref_put\<close> makes no call and keeps the tunnel; with one it returns \<open>NULL\<close>, removes the
  tunnel, leaves every other tunnel alone and makes exactly the calls of its \<open>destroy\<close>: it
  drops the NAT's Java object first if there is one, shuts both descriptors down unless
  they are undefined, then drops the Java tunnel and the capture.\<close>

theorem ref_put_destroys_last:
  assumes "get_tun w t = Some c" "wf_tun c" "ref_count c \<noteq> 0"
  shows "\<exists>r w'. ref_put w t = Some (r, w') \<and>
    (if ref_count c = 1
     then r = 0 \<and> get_tun w' t = None \<and> w_io w' = w_io w @ destroy_events c
     else r = t \<and> w_io w' = w_io w \<and>
       get_tun w' t = Some (c\<lparr>ref_count := ref_count c - 1, ref_generation := ref_generation c + 1\<rparr>)) \<and>
    (\<forall>t'. t' \<noteq> t \<longrightarrow> get_tun w' t' = get_tun w t')"
  using ref_put_Some [OF assms(1,2)] get_tun_nz [OF assms(1)] by auto

theorem ref_put_destroys_last_witness:
  "\<exists>w'. ref_put sample_world 1 = Some (0, w') \<and> get_tun w' 1 = None \<and>
     w_io w' = w_io sample_world @ [Shutdown 5, Shutdown 6]"
proof -
  have c: "wf_tun sample_tun" "ref_count sample_tun = 1" "destroy_events sample_tun = [Shutdown 5, Shutdown 6]"
    by (simp_all add: sample_tun_def zero_tun_def wf_tun_def destroy_events_def UNDEFINED_FD_def)
  then show ?thesis using ref_put_destroys_last [of sample_world 1 sample_tun] by auto
qed

text \<open>C29: what \<open>create_tun_ctx\<close> leaves behind. With memory and a lock it returns a fresh
  tunnel with one reference, undefined descriptors and no call made. Without memory for
  the structure it returns \<open>NULL\<close> and does nothing. When only the lock fails, the tunnel is
  released again, but its descriptors still hold the zeros of \<open>memset\<close> and not
  \<open>UNDEFINED_FD\<close>, so descriptor 0 of the process is shut down twice.\<close>

theorem create_tun_ctx_result:
  assumes "ptr = 0"
  shows "\<exists>t w'. create_tun_ctx env w ptr fits = Some (t, w') \<and>
    (if \<not> e_malloc env (w_brk w) then t = 0 \<and> w_tuns w' = w_tuns w \<and> w_io w' = w_io w
     else if e_malloc env (Suc (w_brk w)) \<and> e_lock_init env (Suc (Suc (w_brk w)))
     then t = Suc (w_brk w) \<and> refs w' t = 1 \<and> get_local_fd w' t = Some UNDEFINED_FD \<and>
          get_remote_fd w' t = Some UNDEFINED_FD \<and> w_io w' = w_io w
     else t = 0 \<and> w_io w' = w_io w @ [Shutdown 0, Shutdown 0] \<and>
          w_tuns w' = (w_tuns w)(Suc (w_brk w) := None))"
proof (cases "e_malloc env (w_brk w)")
  case False
  then show ?thesis using assms by (simp add: create_tun_ctx_def malloc_def)
next
  case True
  let ?t = "Suc (w_brk w)" and ?w = "w\<lparr>w_brk := Suc (w_brk w)\<rparr>"
  let ?c = "zero_tun\<lparr>ref_count := 1, ref_generation := 1\<rparr>"
  have g: "ref_get (set_tun ?t zero_tun ?w) ?t = Some (?t, set_tun ?t ?c ?w)"
    by (simp add: ref_get_def) (simp add: set_tun_def zero_tun_def)
  let ?l = "if e_malloc env (Suc (w_brk w)) then Suc (Suc (w_brk w)) else 0"
  let ?w2 = "(set_tun ?t ?c ?w)\<lparr>w_brk := Suc (Suc (w_brk w))\<rparr>"
  have m: "malloc env (set_tun ?t ?c ?w) = (?l, ?w2)" by (simp add: malloc_def)
  have t2: "get_tun ?w2 ?t = Some ?c" by (simp add: get_tun_def)
  have c: "create_tun_ctx env w ptr fits =
      (if ?l = 0 \<or> \<not> e_lock_init env ?l then ref_put ?w2 ?t
       else Some (?t, set_tun ?t (?c\<lparr>tc_rwlock := True, local_fd := UNDEFINED_FD,
          remote_fd := UNDEFINED_FD\<rparr>) ?w2))"
    using assms True g m t2 by (simp add: create_tun_ctx_def malloc_def [of env w] upd_tun_def)
  show ?thesis
  proof (cases "e_malloc env (Suc (w_brk w)) \<and> e_lock_init env (Suc (Suc (w_brk w)))")
    case lock: True
    then show ?thesis using True c
      by (simp add: refs_def get_local_fd_def get_remote_fd_def)
  next
    case False
    have "ref_put ?w2 ?t = Some (0, trace [Shutdown 0, Shutdown 0] (free_tun ?t ?w2))"
      using ref_put_Some [OF t2]
      by (simp add: wf_tun_def zero_tun_def destroy_events_def UNDEFINED_FD_def)
    then show ?thesis using True False c by (auto simp: free_tun_def set_tun_def)
  qed
qed

theorem create_tun_ctx_result_witness:
  "\<exists>w'. create_tun_ctx (sample_env\<lparr>e_lock_init := (\<lambda>_. False)\<rparr>) empty_world 0 False = Some (0, w') \<and>
     w_io w' = [Shutdown 0, Shutdown 0]"
  using create_tun_ctx_result [of 0 "sample_env\<lparr>e_lock_init := (\<lambda>_. False)\<rparr>" empty_world False]
  by (auto simp: sample_env_def empty_world_def)

end
