(* ===== verification/RouterSafe.thy ===== *)
theory RouterSafe
  imports RouterLoop Refs
begin

text \<open>
  Who holds references to a tunnel: the routes, the defaults and the polled descriptors of
  the router, and everybody else (\<open>ext\<close>: Java objects, calls in progress). \<open>owns\<close> says that
  every reference is backed by the counter of a live tunnel. The operations of the router
  keep it and do not fault, so no route ever leads to a freed tunnel.
\<close>

section \<open>References held by a router\<close>

definition cnt4 :: "nat \<Rightarrow> route4_link list \<Rightarrow> nat" where
  "cnt4 t rs = length (filter (\<lambda>l. r4_tun l = t) rs)"

definition cnt6 :: "nat \<Rightarrow> route6_link list \<Rightarrow> nat" where
  "cnt6 t rs = length (filter (\<lambda>l. r6_tun l = t) rs)"

definition cnt_links :: "nat \<Rightarrow> epoll_link list \<Rightarrow> nat" where
  "cnt_links t es = length (filter (\<lambda>e. el_tun e = t) es)"

definition held :: "router_ctx \<Rightarrow> nat \<Rightarrow> nat" where
  "held rc t = cnt4 t (ip4_routes rc) + (if ip4_default rc = t then 1 else 0)
     + (case ip6_routes rc of None \<Rightarrow> 0 | Some rs \<Rightarrow> cnt6 t rs) + (if ip6_default rc = t then 1 else 0)
     + (case epoll_links rc of None \<Rightarrow> 0 | Some es \<Rightarrow> cnt_links t es) + (if dev_tun rc = t then 1 else 0)"

definition wf_router :: "router_ctx \<Rightarrow> bool" where
  "wf_router rc \<longleftrightarrow> table4 (ip4_routes rc) \<and> (\<forall>l \<in> set (ip4_routes rc). r4_tun l \<noteq> 0) \<and>
     (\<exists>rs. ip6_routes rc = Some rs \<and> (\<forall>l \<in> set rs. r6_tun l \<noteq> 0)) \<and>
     (\<exists>es. epoll_links rc = Some es \<and> length es = epoll_links_capacity rc) \<and>
     epoll_links_count rc \<le> epoll_links_capacity rc \<and> dev_tun rc \<noteq> 0"

definition backed :: "world \<Rightarrow> (nat \<Rightarrow> nat) \<Rightarrow> bool" where
  "backed w f \<longleftrightarrow> wf_tuns w \<and> (\<forall>t. t \<noteq> 0 \<longrightarrow> f t \<le> refs w t)"

definition owns :: "world \<Rightarrow> nat \<Rightarrow> (nat \<Rightarrow> nat) \<Rightarrow> bool" where
  "owns w r ext \<longleftrightarrow> (\<exists>rc. get_router w r = Some rc \<and> wf_router rc \<and> backed w (\<lambda>t. held rc t + ext t))"

lemma cnt_simps [simp]:
  "cnt4 t [] = 0" "cnt4 t (l # rs) = (if r4_tun l = t then 1 else 0) + cnt4 t rs"
  "cnt6 t [] = 0" "cnt6 t (m # rs') = (if r6_tun m = t then 1 else 0) + cnt6 t rs'"
  "cnt_links t [] = 0" "cnt_links t (e # es) = (if el_tun e = t then 1 else 0) + cnt_links t es"
  by (simp_all add: cnt4_def cnt6_def cnt_links_def)

lemma get_router_cong: "w_routers w' = w_routers w \<Longrightarrow> get_router w' r = get_router w r"
  by (simp add: get_router_def)

section \<open>Taking and releasing\<close>

lemma backed_get:
  assumes "backed w f" "0 < f t" "t \<noteq> 0" "refs w t < 2 ^ 32 - 1"
  shows "\<exists>w'. ref_get w t = Some (t, w') \<and> backed w' (f(t := f t + 1)) \<and> w_routers w' = w_routers w \<and>
    w_brk w' = w_brk w"
proof -
  have "0 < refs w t" using assms(1-3) by (auto simp: backed_def intro: less_le_trans)
  then show ?thesis
    using ref_get_refs [OF _ _ assms(4)] assms(1,3) by (fastforce simp: backed_def)
qed

lemma backed_put:
  assumes "backed w f" "0 < f t" "t \<noteq> 0"
  shows "\<exists>x w'. ref_put w t = Some (x, w') \<and> backed w' (f(t := f t - 1)) \<and> w_routers w' = w_routers w \<and>
    w_brk w' = w_brk w"
proof -
  have "0 < refs w t" using assms by (auto simp: backed_def intro: less_le_trans)
  moreover have wf: "wf_tuns w" using assms(1) by (simp add: backed_def)
  ultimately obtain x w' where p: "ref_put w t = Some (x, w')" "wf_tuns w'"
    "refs w' = (refs w)(t := refs w t - 1)" "w_routers w' = w_routers w" "w_brk w' = w_brk w"
    using ref_put_refs by blast
  have "backed w' (f(t := f t - 1))"
    using assms(1) p(2,3) by (auto simp: backed_def intro: diff_le_mono)
  then show ?thesis using p by blast
qed

lemma backed_put_n:
  "backed w f \<Longrightarrow> n \<le> f t \<Longrightarrow> t \<noteq> 0 \<Longrightarrow>
   \<exists>w'. put_n t n w = Some w' \<and> backed w' (f(t := f t - n)) \<and> w_routers w' = w_routers w"
proof (induction n arbitrary: w f)
  case 0
  then show ?case by simp
next
  case (Suc n)
  then obtain x w1 where 1: "ref_put w t = Some (x, w1)" "backed w1 (f(t := f t - 1))"
    "w_routers w1 = w_routers w" using backed_put [of w f t] by auto
  have "n \<le> (f(t := f t - 1)) t" using Suc.prems by simp
  moreover have "(f(t := f t - 1))(t := (f(t := f t - 1)) t - n) = f(t := f t - Suc n)" by auto
  ultimately obtain w2 where 2: "put_n t n w1 = Some w2"
    "backed w2 (f(t := f t - Suc n))" "w_routers w2 = w_routers w1"
    using Suc.IH [OF 1(2) _ Suc.prems(3)] by metis
  have "put_n t (Suc n) w = Some w2" "w_routers w2 = w_routers w" using 1 2 by simp_all
  then show ?case using 2(2) by blast
qed

lemma backed_cong: "backed w f \<Longrightarrow> (\<And>t. t \<noteq> 0 \<Longrightarrow> g t \<le> f t) \<Longrightarrow> backed w g"
  by (auto simp: backed_def intro: le_trans)

lemma backed_world [simp]:
  "backed (emit e w) f = backed w f" "backed (set_router r rc w) f = backed w f"
  by (simp_all add: backed_def)

lemma backed_brk [simp]: "backed (w\<lparr>w_brk := n\<rparr>) f = backed w f"
  by (simp add: backed_def wf_tuns_def refs_def get_tun_def)

lemma backed_live: "backed w f \<Longrightarrow> 0 < f t \<Longrightarrow> t \<noteq> 0 \<Longrightarrow> \<exists>c. get_tun w t = Some c"
proof -
  assume a: "backed w f" "0 < f t" "t \<noteq> 0"
  then have "0 < refs w t" by (auto simp: backed_def intro: less_le_trans)
  then show ?thesis using refs_pos by blast
qed

text \<open>Setting fields other than the counter and the functions.\<close>

lemma backed_upd:
  assumes "backed w f" "0 < f t" "t \<noteq> 0"
    and "\<And>c. ref_count (g c) = ref_count c" "\<And>c. wf_tun (g c) = wf_tun c"
  shows "\<exists>w'. upd_tun t g w = Some w' \<and> backed w' f \<and> refs w' = refs w \<and> w_routers w' = w_routers w \<and>
    w_brk w' = w_brk w"
proof -
  obtain c where c: "get_tun w t = Some c" using backed_live assms(1-3) by blast
  then have "refs (set_tun t (g c) w) = refs w"
    using assms(3,4) by (auto simp: refs_def fun_eq_iff get_tun_def)
  moreover have "wf_tuns (set_tun t (g c) w)"
    using assms(1,5) c by (intro wf_tuns_set) (auto simp: backed_def dest: wf_tunsD)
  ultimately show ?thesis using c assms(1) by (simp add: upd_tun_def backed_def)
qed

section \<open>Routes\<close>

lemma route4_walk_cnt:
  "rs \<noteq> [] \<Longrightarrow> route4_walk l rs = (rs', n, old) \<Longrightarrow>
   cnt4 t rs' + (if old = Some t then 1 else 0) = cnt4 t rs + (if r4_tun l = t then 1 else 0)"
proof (induction rs arbitrary: rs' n old)
  case Nil
  then show ?case by simp
next
  case (Cons c rs)
  show ?case
  proof (cases "rs = []")
    case True
    then show ?thesis using Cons.prems by (auto split: if_splits)
  next
    case False
    obtain r1 n1 o1 where w: "route4_walk l rs = (r1, n1, o1)" by (cases "route4_walk l rs") auto
    show ?thesis using Cons.IH [OF False w] Cons.prems w False
      by (auto split: if_splits)
  qed
qed

lemma route4_insert_cnt:
  "route4_insert l rs = (rs', n, old) \<Longrightarrow>
   cnt4 t rs' + (if old = Some t then 1 else 0) = cnt4 t rs + (if r4_tun l = t then 1 else 0)"
  using route4_walk_cnt [of rs l rs' n old t] by (auto simp: route4_insert_def split: if_splits)

lemma route4_insert_wf:
  assumes "valid4 l" "table4 rs" "route4_insert l rs = (rs', n, old)"
  shows "table4 rs'" "set rs' \<subseteq> insert l (set rs)" "\<And>x. old = Some x \<Longrightarrow> x \<in> r4_tun ` set rs"
  using routes4.insert_list [OF assms(1) table4_D [OF assms(2)] assms(3)] assms(1,2)
  by (auto simp: table4_def key4_eq find_Some_iff)

lemma mask_ip4_ok:
  assumes "0 < plen" "n = (ucast (if plen > 32 then 32 else plen :: u32) :: u8)"
  shows "0 < n \<and> n \<le> 32 \<and> (\<exists>m. mask_ip4 ip n = Some m \<and> mask_ip4 m n = Some m)"
proof -
  let ?m = "if plen > 32 then 32 else plen :: u32"
  have "?m \<noteq> 0" "?m \<le> 32" using assms(1) by auto
  then have "0 < unat ?m" "unat ?m \<le> 32" by (simp_all add: unat_gt_0 word_le_nat_alt del: if_split)
  moreover have "unat n = unat ?m mod 256" unfolding assms(2) by (simp add: unsigned_ucast_eq take_bit_eq_mod)
  ultimately have "unat n = unat ?m" "0 < unat n" "unat n \<le> 32" by simp_all
  then have "0 < n" "n \<le> 32" by (simp_all add: word_less_nat_alt word_le_nat_alt)
  then show ?thesis using mask_ip4_Some [of n ip] valid4_mask [of n ip] by blast
qed

lemma owns_route4:
  assumes "owns w r ext" "0 < ext t" "t \<noteq> 0" "0 < plen" "refs w t < 2 ^ 32 - 1"
    and "e_malloc env (w_brk w)"
  shows "\<exists>w'. route4 env w r ip plen t = Some w' \<and> owns w' r ext"
proof -
  obtain rc where rc: "get_router w r = Some rc" "wf_router rc" "backed w (\<lambda>t. held rc t + ext t)"
    using assms(1) by (auto simp: owns_def)
  have r: "r \<noteq> 0" using get_router_nz rc(1) by blast
  define n where "n = (ucast (if plen > 32 then 32 else plen) :: u8)"
  obtain m where m: "0 < n" "n \<le> 32" "mask_ip4 ip n = Some m" "mask_ip4 m n = Some m"
    using mask_ip4_ok [OF assms(4) n_def] by blast
  let ?w = "w\<lparr>w_brk := Suc (w_brk w)\<rparr>"
  have mal: "malloc env w = (Suc (w_brk w), ?w)" using assms(6) by (simp add: malloc_def)
  have "refs ?w t = refs w t" by (simp add: refs_def get_tun_def)
  then have "refs ?w t < 2 ^ 32 - 1" using assms(5) by simp
  moreover have "backed ?w (\<lambda>t. held rc t + ext t)" using rc(3) by simp
  ultimately obtain w1 where w1: "ref_get ?w t = Some (t, w1)"
    "backed w1 ((\<lambda>t. held rc t + ext t)(t := held rc t + ext t + 1))" "w_routers w1 = w_routers w"
    using backed_get [of ?w _ t] assms(2,3) by fastforce
  let ?l = "\<lparr>r4_ip = m, r4_mask = n, r4_tun = t\<rparr>"
  obtain rs k old where ins: "route4_insert ?l (ip4_routes rc) = (rs, k, old)"
    by (cases "route4_insert ?l (ip4_routes rc)") auto
  have tab: "table4 (ip4_routes rc)" "\<forall>l \<in> set (ip4_routes rc). r4_tun l \<noteq> 0"
    using rc(2) by (simp_all add: wf_router_def)
  have v: "valid4 ?l" using m by (simp add: valid4_def)
  note ii = route4_insert_wf [OF v tab(1) ins]
  let ?rc = "rc\<lparr>ip4_routes := rs, ip4_routes_count := ip4_routes_count rc + k, routes_updated := True\<rparr>"
  have h: "held ?rc x + (if old = Some x then 1 else 0) = held rc x + (if t = x then 1 else 0)" for x
    using route4_insert_cnt [OF ins, of x] by (simp add: held_def)
  have wf: "wf_router ?rc" using rc(2) ii(1,2) assms(3) by (auto simp: wf_router_def)
  obtain x w2 where w2: "(case old of None \<Rightarrow> Some (0, w1) | Some x \<Rightarrow> ref_put w1 x) = Some (x, w2)"
    "backed w2 (\<lambda>x. held ?rc x + ext x)" "w_routers w2 = w_routers w1"
  proof (cases old)
    case None
    have "backed w1 (\<lambda>x. held ?rc x + ext x)"
      by (rule backed_cong [OF w1(2)]) (use h None in auto)
    then show ?thesis using that None by auto
  next
    case (Some y)
    have y: "y \<noteq> 0" using ii(3) [OF Some] tab(2) by auto
    have "0 < cnt4 y (ip4_routes rc)"
      using ii(3) [OF Some] by (auto simp: cnt4_def filter_empty_conv)
    then have "0 < ((\<lambda>t. held rc t + ext t)(t := held rc t + ext t + 1)) y" by (simp add: held_def)
    from backed_put [OF w1(2) this y] obtain z w2 where
      z: "ref_put w1 y = Some (z, w2)" "w_routers w2 = w_routers w1"
      "backed w2 (((\<lambda>t. held rc t + ext t)(t := held rc t + ext t + 1))
        (y := ((\<lambda>t. held rc t + ext t)(t := held rc t + ext t + 1)) y - 1))" by blast
    have "backed w2 (\<lambda>x. held ?rc x + ext x)"
    proof (rule backed_cong [OF z(3)])
      fix x
      show "held ?rc x + ext x \<le> (((\<lambda>t. held rc t + ext t)(t := held rc t + ext t + 1))
        (y := ((\<lambda>t. held rc t + ext t)(t := held rc t + ext t + 1)) y - 1)) x"
        using h [of x] Some by (auto split: if_splits)
    qed
    then show ?thesis using that z Some by auto
  qed
  have "get_router w2 r = Some rc" using rc(1) w1(3) w2(3) r by (simp add: get_router_def)
  then have "route4 env w r ip plen t = Some (set_router r ?rc w2)"
    using assms(3) r m rc(1) mal w1(1) ins w2(1)
    by (simp add: route4_def n_def [symmetric] upd_router_def)
  moreover have "owns (set_router r ?rc w2) r ext"
    using w2(2) wf r by (simp add: owns_def)
  ultimately show ?thesis by blast
qed


section \<open>Default routes and single routes\<close>

lemma owns_default4:
  assumes "owns w r ext" "0 < ext t" "t \<noteq> 0" "refs w t < 2 ^ 32 - 1"
  shows "\<exists>w'. default4 w r t = Some w' \<and> owns w' r ext"
proof -
  obtain rc where rc: "get_router w r = Some rc" "wf_router rc" "backed w (\<lambda>t. held rc t + ext t)"
    using assms(1) by (auto simp: owns_def)
  have r: "r \<noteq> 0" using get_router_nz rc(1) by blast
  let ?d = "ip4_default rc" and ?f = "\<lambda>t. held rc t + ext t"
  let ?g = "if ?d = 0 then ?f else ?f(?d := ?f ?d - 1)"
  obtain x w1 where w1: "(if ?d \<noteq> 0 then ref_put w ?d else Some (0, w)) = Some (x, w1)"
    "backed w1 ?g" "w_routers w1 = w_routers w" "refs w1 t < 2 ^ 32 - 1"
  proof (cases "?d = 0")
    case True
    then show ?thesis using that rc(3) assms(4) by simp
  next
    case False
    have "0 < held rc ?d" by (simp add: held_def)
    then have p: "0 < ?f ?d" "wf_tuns w" "0 < refs w ?d"
      using rc(3) False by (auto simp: backed_def intro: less_le_trans)
    obtain x w1 where "ref_put w ?d = Some (x, w1)" "backed w1 (?f(?d := ?f ?d - 1))"
      "w_routers w1 = w_routers w" using backed_put [OF rc(3) p(1) False] by blast
    moreover from this have "refs w1 t \<le> refs w t"
      using ref_put_refs [OF p(2,3)] by auto
    ultimately show ?thesis using that False assms(4) by simp
  qed
  have "0 < ?g t" using assms(2) by (auto simp: held_def)
  then obtain w2 where w2: "ref_get w1 t = Some (t, w2)" "backed w2 (?g(t := ?g t + 1))"
    "w_routers w2 = w_routers w1"
    using backed_get [OF w1(2) _ assms(3) w1(4)] by blast
  let ?rc = "rc\<lparr>ip4_default := t, routes_updated := True\<rparr>"
  have "backed w2 (\<lambda>x. held ?rc x + ext x)"
    by (rule backed_cong [OF w2(2)]) (auto simp: held_def)
  moreover have "wf_router ?rc" using rc(2) by (simp add: wf_router_def)
  moreover have "get_router w2 r = Some rc" using rc(1) w1(3) w2(3) r by (simp add: get_router_def)
  ultimately have "default4 w r t = Some (set_router r ?rc w2) \<and> owns (set_router r ?rc w2) r ext"
    using r rc(1) w1(1) w2(1) by (simp add: default4_def upd_router_def owns_def)
  then show ?thesis by blast
qed

lemma cnt4_remove1:
  "l \<in> set rs \<Longrightarrow> cnt4 t (remove1 l rs) + (if r4_tun l = t then 1 else 0) = cnt4 t rs"
  by (induction rs) auto

lemma table4_remove1: "table4 rs \<Longrightarrow> table4 (remove1 l rs)"
  by (induction rs) (auto simp: table4_def dest: notin_set_remove1)

lemma owns_unroute4:
  assumes "owns w r ext"
  shows "\<exists>w'. unroute4 w r ip plen = Some w' \<and> owns w' r ext"
proof -
  obtain rc where rc: "get_router w r = Some rc" "wf_router rc" "backed w (\<lambda>t. held rc t + ext t)"
    using assms(1) by (auto simp: owns_def)
  have r: "r \<noteq> 0" using get_router_nz rc(1) by blast
  let ?rs = "ip4_routes rc"
  have tab: "table4 ?rs" "\<forall>l \<in> set ?rs. r4_tun l \<noteq> 0"
    using rc(2) by (simp_all add: wf_router_def)
  have rem: "unroute4_remove ip ?rs = (case find (\<lambda>r. r4_ip r = ip) ?rs of None \<Rightarrow> (?rs, None)
      | Some r \<Rightarrow> (remove1 r ?rs, Some (r4_tun r)))"
    by (rule routes4.remove_addr_list [OF table4_D(1) [OF tab(1)] TrueI table4_D(2) [OF tab(1)]])
  show ?thesis
  proof (cases "find (\<lambda>r. r4_ip r = ip) ?rs")
    case None
    then show ?thesis using assms rem rc(1) r by (simp add: unroute4_def)
  next
    case (Some l)
    then have l: "l \<in> set ?rs" by (auto simp: find_Some_iff)
    then have t: "r4_tun l \<noteq> 0" using tab(2) by blast
    let ?rc = "rc\<lparr>ip4_routes := remove1 l ?rs, ip4_routes_count := ip4_routes_count rc - 1,
      routes_updated := True\<rparr>"
    have h: "held ?rc x + (if r4_tun l = x then 1 else 0) = held rc x" for x
      using cnt4_remove1 [OF l, of x] by (simp add: held_def)
    have "0 < held rc (r4_tun l)" using h [of "r4_tun l"] by simp
    then obtain x w1 where w1: "ref_put w (r4_tun l) = Some (x, w1)" "w_routers w1 = w_routers w"
      "backed w1 ((\<lambda>t. held rc t + ext t)(r4_tun l := held rc (r4_tun l) + ext (r4_tun l) - 1))"
      using backed_put [OF rc(3) _ t] by fastforce
    have "backed w1 (\<lambda>x. held ?rc x + ext x)"
    proof (rule backed_cong [OF w1(3)])
      fix x
      show "held ?rc x + ext x
        \<le> ((\<lambda>t. held rc t + ext t)(r4_tun l := held rc (r4_tun l) + ext (r4_tun l) - 1)) x"
        using h [of x] by (auto split: if_splits)
    qed
    moreover have "wf_router ?rc"
      using rc(2) table4_remove1 [OF tab(1), of l] by (auto simp: wf_router_def dest: notin_set_remove1)
    moreover have "get_router w1 r = Some rc" using rc(1) w1(2) r by (simp add: get_router_def)
    ultimately have "unroute4 w r ip plen = Some (set_router r ?rc w1) \<and> owns (set_router r ?rc w1) r ext"
      using r rc(1) w1(1) rem Some t by (simp add: unroute4_def upd_router_def owns_def)
    then show ?thesis by blast
  qed
qed


section \<open>Removing a tunnel\<close>

lemma backed_unroute_links:
  "backed w f \<Longrightarrow> t \<noteq> 0 \<Longrightarrow> n \<le> length es \<Longrightarrow> cnt_links t (take n es) \<le> f t \<Longrightarrow>
   \<exists>es' w'. unroute_links t n es w = Some (es', w') \<and>
     backed w' (f(t := f t - cnt_links t (take n es))) \<and> w_routers w' = w_routers w \<and>
     length es' = length es \<and> cnt_links t (take n es') = 0 \<and>
     (\<forall>x. x \<noteq> 0 \<longrightarrow> cnt_links x es' + (if x = t then cnt_links t (take n es) else 0) = cnt_links x es)"
proof (induction t n es w arbitrary: f rule: unroute_links.induct)
  case (3 t n e es w)
  show ?case
  proof (cases "el_tun e = t")
    case True
    then obtain x w1 where 1: "ref_put w t = Some (x, w1)" "backed w1 (f(t := f t - 1))"
      "w_routers w1 = w_routers w" using backed_put [of w f t] 3(3-6) by auto
    let ?k = "cnt_links t (take n es)"
    have "?k \<le> (f(t := f t - 1)) t" "n \<le> length es" using 3(5,6) True by simp_all
    then obtain es' w2 where 2: "unroute_links t n es w1 = Some (es', w2)"
      "backed w2 ((f(t := f t - 1))(t := (f(t := f t - 1)) t - ?k))" "w_routers w2 = w_routers w1"
      "length es' = length es" "cnt_links t (take n es') = 0"
      "\<forall>x. x \<noteq> 0 \<longrightarrow> cnt_links x es' + (if x = t then ?k else 0) = cnt_links x es"
      using 3(1) [OF True 1(1) refl 1(2) 3(4)] by blast
    have "backed w2 (f(t := f t - cnt_links t (take (Suc n) (e # es))))"
      by (rule backed_cong [OF 2(2)]) (use True in auto)
    moreover have "unroute_links t (Suc n) (e # es) w = Some (e\<lparr>el_tun := 0\<rparr> # es', w2)"
      "w_routers w2 = w_routers w" using True 1 2 by simp_all
    moreover have "length (e\<lparr>el_tun := 0\<rparr> # es') = length (e # es)"
      "cnt_links t (take (Suc n) (e\<lparr>el_tun := 0\<rparr> # es')) = 0" using 2 3(4) by simp_all
    moreover have "\<forall>x. x \<noteq> 0 \<longrightarrow> cnt_links x (e\<lparr>el_tun := 0\<rparr> # es') +
        (if x = t then cnt_links t (take (Suc n) (e # es)) else 0) = cnt_links x (e # es)"
    proof (intro allI impI)
      fix x :: nat assume "x \<noteq> 0"
      then show "cnt_links x (e\<lparr>el_tun := 0\<rparr> # es') +
        (if x = t then cnt_links t (take (Suc n) (e # es)) else 0) = cnt_links x (e # es)"
        using 2(6) [rule_format, of x] True by (cases "x = t") auto
    qed
    ultimately show ?thesis by blast
  next
    case False
    have "n \<le> length es" "cnt_links t (take n es) \<le> f t" using 3(5,6) False by simp_all
    then obtain es' w2 where 2: "unroute_links t n es w = Some (es', w2)"
      "backed w2 (f(t := f t - cnt_links t (take n es)))" "w_routers w2 = w_routers w"
      "length es' = length es" "cnt_links t (take n es') = 0"
      "\<forall>x. x \<noteq> 0 \<longrightarrow> cnt_links x es' + (if x = t then cnt_links t (take n es) else 0) = cnt_links x es"
      using 3(2) [OF False 3(3,4)] by blast
    moreover have "cnt_links t (take (Suc n) (e # es)) = cnt_links t (take n es)" using False by simp
    moreover have "unroute_links t (Suc n) (e # es) w = Some (e # es', w2)"
      "length (e # es') = length (e # es)" "cnt_links t (take (Suc n) (e # es')) = 0"
      using 2 False by simp_all
    moreover have "\<forall>x. x \<noteq> 0 \<longrightarrow> cnt_links x (e # es') +
        (if x = t then cnt_links t (take n es) else 0) = cnt_links x (e # es)"
      using 2(6) by simp
    ultimately show ?thesis by metis
  qed
qed auto

lemma backed_unroute_default:
  assumes "backed w f" "t \<noteq> 0" "d = t \<Longrightarrow> 0 < f t"
  shows "\<exists>w'. unroute_default t d w = Some (if d = t then 0 else d, d = t, w') \<and>
    backed w' (f(t := f t - (if d = t then 1 else 0))) \<and> w_routers w' = w_routers w"
proof (cases "d = t")
  case True
  then show ?thesis using assms(3) backed_put [OF assms(1) _ assms(2)]
    by (auto simp: unroute_default_def)
qed (use assms(1) in \<open>simp add: unroute_default_def\<close>)

lemma cnt4_filter: "cnt4 x (filter (\<lambda>l. r4_tun l \<noteq> t) rs) = (if x = t then 0 else cnt4 x rs)"
  by (induction rs) auto

lemma cnt6_filter: "cnt6 x (filter (\<lambda>l. r6_tun l \<noteq> t) rs) = (if x = t then 0 else cnt6 x rs)"
  by (induction rs) auto

lemma table4_filter: "table4 rs \<Longrightarrow> table4 (filter P rs)"
  by (induction rs) (auto simp: table4_def)

text \<open>What is left of the router after \<open>unroute\<close>.\<close>

definition unrouted :: "router_ctx \<Rightarrow> nat \<Rightarrow> bool" where
  "unrouted rc t \<longleftrightarrow> (\<forall>l \<in> set (ip4_routes rc). r4_tun l \<noteq> t) \<and> ip4_default rc \<noteq> t \<and>
     (\<forall>rs. ip6_routes rc = Some rs \<longrightarrow> (\<forall>l \<in> set rs. r6_tun l \<noteq> t)) \<and> ip6_default rc \<noteq> t \<and>
     (\<forall>es. epoll_links rc = Some es \<longrightarrow> (\<forall>e \<in> set (take (epoll_links_count rc) es). el_tun e \<noteq> t))"

lemma owns_unroute:
  assumes "owns w r ext" "0 < ext t" "t \<noteq> 0"
  shows "\<exists>w' rc. unroute w r t = Some w' \<and> owns w' r ext \<and> get_router w' r = Some rc \<and> unrouted rc t"
proof -
  obtain rc where rc: "get_router w r = Some rc" "wf_router rc" "backed w (\<lambda>t. held rc t + ext t)"
    using assms(1) by (auto simp: owns_def)
  have r: "r \<noteq> 0" using get_router_nz rc(1) by blast
  obtain rs6 es where R: "ip6_routes rc = Some rs6" "epoll_links rc = Some es"
    "epoll_links_count rc \<le> length es"
    using rc(2) by (auto simp: wf_router_def)
  let ?f = "\<lambda>t. held rc t + ext t" and ?n = "epoll_links_count rc"
  let ?k = "cnt_links t (take ?n es)" and ?n4 = "cnt4 t (ip4_routes rc)" and ?n6 = "cnt6 t rs6"
  let ?c4 = "if ip4_default rc = t then 1 else 0 :: nat" and ?c6 = "if ip6_default rc = t then 1 else 0 :: nat"
  have "filter (\<lambda>e. el_tun e = t) es =
      filter (\<lambda>e. el_tun e = t) (take ?n es) @ filter (\<lambda>e. el_tun e = t) (drop ?n es)"
    by (metis append_take_drop_id filter_append)
  then have k: "?k \<le> cnt_links t es" by (simp add: cnt_links_def)
  have total: "?k + ?n4 + ?c4 + ?n6 + ?c6 + ext t \<le> ?f t"
    using k R by (simp add: held_def)
  obtain c where c: "get_tun w t = Some c" using backed_live [OF rc(3) _ assms(3)] assms(2) by auto
  let ?w0 = "emit (Epoll_del (epoll_fd rc) (local_fd c)) w"
  have b0: "backed ?w0 ?f" using rc(3) by simp
  obtain es' w1 where 1: "unroute_links t ?n es ?w0 = Some (es', w1)"
    "backed w1 (?f(t := ?f t - ?k))" "w_routers w1 = w_routers ?w0"
    "length es' = length es" "cnt_links t (take ?n es') = 0"
    "\<forall>x. x \<noteq> 0 \<longrightarrow> cnt_links x es' + (if x = t then ?k else 0) = cnt_links x es"
    using backed_unroute_links [OF b0 assms(3) R(3)] total by fastforce
  obtain w2 where 2: "put_n t ?n4 w1 = Some w2" "backed w2 (?f(t := ?f t - ?k - ?n4))"
    "w_routers w2 = w_routers w1"
    using backed_put_n [OF 1(2), of ?n4 t] total assms(3) by fastforce
  obtain w3 where 3: "unroute_default t (ip4_default rc) w2 =
      Some (if ip4_default rc = t then 0 else ip4_default rc, ip4_default rc = t, w3)"
    "backed w3 (?f(t := ?f t - ?k - ?n4 - ?c4))" "w_routers w3 = w_routers w2"
    using backed_unroute_default [OF 2(2) assms(3), of "ip4_default rc"] total assms(2) by fastforce
  obtain w4 where 4: "put_n t ?n6 w3 = Some w4" "backed w4 (?f(t := ?f t - ?k - ?n4 - ?c4 - ?n6))"
    "w_routers w4 = w_routers w3"
    using backed_put_n [OF 3(2), of ?n6 t] total assms(3) by fastforce
  obtain w5 where 5: "unroute_default t (ip6_default rc) w4 =
      Some (if ip6_default rc = t then 0 else ip6_default rc, ip6_default rc = t, w5)"
    "backed w5 (?f(t := ?f t - ?k - ?n4 - ?c4 - ?n6 - ?c6))" "w_routers w5 = w_routers w4"
    using backed_unroute_default [OF 4(2) assms(3), of "ip6_default rc"] total assms(2) by fastforce
  have walk4: "unroute4_walk t (ip4_routes rc) = (filter (\<lambda>l. r4_tun l \<noteq> t) (ip4_routes rc), ?n4)"
    by (simp add: routes4.remove_tun_list cnt4_def)
  have walk6: "unroute6_walk t rs6 = (filter (\<lambda>l. r6_tun l \<noteq> t) rs6, ?n6)"
    by (simp add: routes6.remove_tun_list cnt6_def)
  let ?rc = "rc\<lparr>epoll_links := Some es', ip4_routes := filter (\<lambda>l. r4_tun l \<noteq> t) (ip4_routes rc),
    ip4_routes_count := ip4_routes_count rc - int ?n4,
    ip4_default := if ip4_default rc = t then 0 else ip4_default rc,
    ip6_routes := Some (filter (\<lambda>l. r6_tun l \<noteq> t) rs6),
    ip6_routes_count := ip6_routes_count rc - int ?n6,
    ip6_default := if ip6_default rc = t then 0 else ip6_default rc,
    routes_updated := (routes_updated rc \<or> 0 < ?n4 \<or> ip4_default rc = t \<or> 0 < ?n6 \<or> ip6_default rc = t)\<rparr>"
  have g5: "get_router w5 r = Some rc"
    using rc(1) 1(3) 2(3) 3(3) 4(3) 5(3) r by (simp add: get_router_def)
  have run: "unroute w r t = Some (set_router r ?rc w5)"
    using r assms(3) rc(1) c R 1(1) walk4 walk6 2(1) 3(1) 4(1) 5(1) g5
    by (cases "?n = 0") (simp_all add: unroute_def get_local_fd_def upd_router_def Let_def)
  have "backed w5 (\<lambda>x. held ?rc x + ext x)"
  proof (rule backed_cong [OF 5(2)])
    fix x :: nat
    assume "x \<noteq> 0"
    then show "held ?rc x + ext x \<le> (?f(t := ?f t - ?k - ?n4 - ?c4 - ?n6 - ?c6)) x"
      using 1(6) [rule_format, of x] total R
      by (auto simp: held_def cnt4_filter cnt6_filter split: if_splits)
  qed
  moreover have "wf_router ?rc"
    using rc(2) R 1(4) table4_filter by (auto simp: wf_router_def)
  moreover have "unrouted ?rc t"
    using 1(5) assms(3) by (auto simp: unrouted_def cnt_links_def filter_empty_conv)
  ultimately show ?thesis using run r by (auto simp: owns_def)
qed


section \<open>The calls from Java\<close>

lemma owns_get:
  assumes "owns w r ext" "0 < ext t" "t \<noteq> 0" "refs w t < 2 ^ 32 - 1"
  shows "\<exists>w'. ref_get w t = Some (t, w') \<and> owns w' r (ext(t := ext t + 1)) \<and> w_brk w' = w_brk w \<and>
    refs w' t = refs w t + 1"
proof -
  obtain rc where rc: "get_router w r = Some rc" "wf_router rc" "backed w (\<lambda>t. held rc t + ext t)"
    using assms(1) by (auto simp: owns_def)
  have r: "r \<noteq> 0" using get_router_nz rc(1) by blast
  obtain w' where w': "ref_get w t = Some (t, w')" "w_routers w' = w_routers w" "w_brk w' = w_brk w"
    "backed w' ((\<lambda>t. held rc t + ext t)(t := held rc t + ext t + 1))"
    using backed_get [OF rc(3) _ assms(3,4)] assms(2) by auto
  have "0 < refs w t" using rc(3) assms(2,3) by (auto simp: backed_def intro: less_le_trans)
  then have "refs w' t = refs w t + 1"
    using ref_get_refs [of w t] rc(3) assms(4) w'(1) by (auto simp: backed_def)
  moreover have "backed w' (\<lambda>x. held rc x + (ext(t := ext t + 1)) x)"
    by (rule backed_cong [OF w'(4)]) simp
  moreover have "get_router w' r = Some rc" using rc(1) w'(2) r by (simp add: get_router_def)
  ultimately show ?thesis using w' rc(2) unfolding owns_def by blast
qed

lemma owns_put:
  assumes "owns w r ext" "0 < ext t" "t \<noteq> 0"
  shows "\<exists>x w'. ref_put w t = Some (x, w') \<and> owns w' r (ext(t := ext t - 1))"
proof -
  obtain rc where rc: "get_router w r = Some rc" "wf_router rc" "backed w (\<lambda>t. held rc t + ext t)"
    using assms(1) by (auto simp: owns_def)
  have r: "r \<noteq> 0" using get_router_nz rc(1) by blast
  obtain x w' where w': "ref_put w t = Some (x, w')" "w_routers w' = w_routers w"
    "backed w' ((\<lambda>t. held rc t + ext t)(t := held rc t + ext t - 1))"
    using backed_put [OF rc(3) _ assms(3)] assms(2) by fastforce
  have "backed w' (\<lambda>x. held rc x + (ext(t := ext t - 1)) x)"
    by (rule backed_cong [OF w'(3)]) (use assms(2) in auto)
  moreover have "get_router w' r = Some rc" using rc(1) w'(2) r by (simp add: get_router_def)
  ultimately show ?thesis using w' rc(2) unfolding owns_def by blast
qed

lemma owns_set_router_context:
  assumes "owns w r ext" "0 < ext t" "t \<noteq> 0"
  shows "\<exists>w'. set_router_context w t x = Some w' \<and> owns w' r ext \<and> w_brk w' = w_brk w \<and> refs w' = refs w"
proof -
  obtain rc where rc: "get_router w r = Some rc" "wf_router rc" "backed w (\<lambda>t. held rc t + ext t)"
    using assms(1) by (auto simp: owns_def)
  have r: "r \<noteq> 0" using get_router_nz rc(1) by blast
  obtain w' where "upd_tun t (\<lambda>c. c\<lparr>tc_router := x\<rparr>) w = Some w'" "backed w' (\<lambda>t. held rc t + ext t)"
    "refs w' = refs w" "w_routers w' = w_routers w" "w_brk w' = w_brk w"
    using backed_upd [OF rc(3) _ assms(3), of "\<lambda>c. c\<lparr>tc_router := x\<rparr>"] assms(2)
    by (auto simp: wf_tun_def)
  moreover from this have "get_router w' r = Some rc" using rc(1) r by (simp add: get_router_def)
  ultimately show ?thesis using rc(2) assms(3)
    by (auto simp: set_router_context_def tun_set_def owns_def)
qed

lemma owns_upd_router:
  assumes "owns w r ext" "\<And>rc. wf_router (g rc) = wf_router rc" "\<And>rc. held (g rc) = held rc"
  shows "\<exists>rc. get_router w r = Some rc \<and> upd_router r g w = Some (set_router r (g rc) w) \<and>
    owns (set_router r (g rc) w) r ext"
proof -
  obtain rc where rc: "get_router w r = Some rc" "wf_router rc" "backed w (\<lambda>t. held rc t + ext t)"
    using assms(1) by (auto simp: owns_def)
  then show ?thesis using assms(2,3) get_router_nz [OF rc(1)] by (auto simp: upd_router_def owns_def)
qed

text \<open>What a caller has to bring: a reference to the tunnel it names, a mask that is not
  zero, and memory; the counter must not be about to overflow.\<close>

fun call_ok :: "env \<Rightarrow> (nat \<Rightarrow> nat) \<Rightarrow> jni_call \<Rightarrow> world \<Rightarrow> bool" where
  "call_ok env ext (Add_route4 ip plen t) w \<longleftrightarrow>
     t = 0 \<or> 0 < ext t \<and> 0 < plen \<and> refs w t < 2 ^ 32 - 2 \<and> e_malloc env (w_brk w)"
| "call_ok env ext (Default_route4 t) w \<longleftrightarrow> t = 0 \<or> 0 < ext t \<and> refs w t < 2 ^ 32 - 2"
| "call_ok env ext (Remove_route4 ip plen) w \<longleftrightarrow> True"
| "call_ok env ext (Unroute_tunnel t) w \<longleftrightarrow> t = 0 \<or> 0 < ext t"
| "call_ok env ext (Pause p) w \<longleftrightarrow> True"
| "call_ok env ext Terminate w \<longleftrightarrow> True"

lemma owns_nz: "owns w r ext \<Longrightarrow> r \<noteq> 0"
  by (auto simp: owns_def dest: get_router_nz)

text \<open>Both route calls bracket their work with a reference of their own.\<close>

lemma owns_bracket:
  assumes "owns w r ext" "0 < ext t" "t \<noteq> 0" "refs w t < 2 ^ 32 - 2"
    and body: "\<And>w'. owns w' r (ext(t := ext t + 1)) \<Longrightarrow> refs w' t < 2 ^ 32 - 1 \<Longrightarrow>
      w_brk w' = w_brk w \<Longrightarrow> \<exists>w''. body w' = Some w'' \<and> owns w'' r (ext(t := ext t + 1))"
  shows "\<exists>w'. (do { (_, w) \<leftarrow> ref_get w t; w \<leftarrow> set_router_context w t r; w \<leftarrow> body w;
      (_, w) \<leftarrow> ref_put w t; Some w }) = Some w' \<and> owns w' r ext"
proof -
  let ?ext = "ext(t := ext t + 1)"
  have "refs w t < 2 ^ 32 - 1" using assms(4) by simp
  then obtain w1 where 1: "ref_get w t = Some (t, w1)" "owns w1 r ?ext" "w_brk w1 = w_brk w"
    "refs w1 t = refs w t + 1" using owns_get [OF assms(1-3)] by blast
  have p: "0 < ?ext t" by simp
  obtain w2 where 2: "set_router_context w1 t r = Some w2" "owns w2 r ?ext" "w_brk w2 = w_brk w1"
    "refs w2 = refs w1" using owns_set_router_context [OF 1(2) p assms(3)] by blast
  have "refs w2 t < 2 ^ 32 - 1" using 1(4) 2(4) assms(4) by simp
  then obtain w3 where 3: "body w2 = Some w3" "owns w3 r ?ext"
    using body [OF 2(2)] 1(3) 2(3) by auto
  obtain x w4 where 4: "ref_put w3 t = Some (x, w4)" "owns w4 r (?ext(t := ?ext t - 1))"
    using owns_put [OF 3(2) p assms(3)] by blast
  have "?ext(t := ?ext t - 1) = ext" by auto
  then have "owns w4 r ext" using 4(2) by metis
  then show ?thesis using 1(1) 2(1) 3(1) 4(1) by simp
qed

lemma owns_call:
  assumes "owns w r ext" "call_ok env ext c w"
  shows "\<exists>w'. jni_exec env r c w = Some w' \<and> owns w' r ext"
proof (cases c)
  case (Add_route4 ip plen t)
  show ?thesis
  proof (cases "t = 0")
    case False
    then have a: "0 < ext t" "0 < plen" "refs w t < 2 ^ 32 - 2" "e_malloc env (w_brk w)"
      using assms(2) Add_route4 by auto
    have "\<exists>w''. route4 env w' r ip plen t = Some w'' \<and> owns w'' r (ext(t := ext t + 1))"
      if "owns w' r (ext(t := ext t + 1))" "refs w' t < 2 ^ 32 - 1" "w_brk w' = w_brk w" for w'
      using owns_route4 [OF that(1) _ False a(2) that(2)] a(4) that(3) by auto
    from owns_bracket [OF assms(1) a(1) False a(3) this] show ?thesis
      using Add_route4 False owns_nz [OF assms(1)] by (auto simp: addRoute4_def)
  qed (use assms(1) Add_route4 in \<open>simp add: addRoute4_def\<close>)
next
  case (Default_route4 t)
  show ?thesis
  proof (cases "t = 0")
    case False
    then have a: "0 < ext t" "refs w t < 2 ^ 32 - 2" using assms(2) Default_route4 by auto
    have "\<exists>w''. default4 w' r t = Some w'' \<and> owns w'' r (ext(t := ext t + 1))"
      if "owns w' r (ext(t := ext t + 1))" "refs w' t < 2 ^ 32 - 1" "w_brk w' = w_brk w" for w'
      using owns_default4 [OF that(1) _ False that(2)] by auto
    from owns_bracket [OF assms(1) a(1) False a(2) this] show ?thesis
      using Default_route4 False owns_nz [OF assms(1)] by (auto simp: defaultRoute4_def)
  qed (use assms(1) Default_route4 in \<open>simp add: defaultRoute4_def\<close>)
next
  case (Remove_route4 ip plen)
  then show ?thesis using owns_unroute4 [OF assms(1)] owns_nz [OF assms(1)]
    by (simp add: removeRoute4_def)
next
  case (Unroute_tunnel t)
  then show ?thesis using owns_unroute [OF assms(1), of t] assms
    by (cases "t = 0") (auto simp: unroute_def)
next
  case (Pause p)
  obtain rc where "get_router w r = Some rc" "owns (set_router r (rc\<lparr>paused := p\<rparr>) w) r ext"
    using owns_upd_router [OF assms(1), of "\<lambda>rc. rc\<lparr>paused := p\<rparr>"]
    by (auto simp: wf_router_def held_def fun_eq_iff)
  then show ?thesis using Pause owns_nz [OF assms(1)]
    by (simp add: pauseRouterLoop_def router_pause_def)
next
  case Terminate
  then show ?thesis using owns_upd_router [OF assms(1), of "\<lambda>rc. rc\<lparr>terminate := True\<rparr>"]
      owns_nz [OF assms(1)]
    by (auto simp: terminateRouterLoop_def wf_router_def held_def fun_eq_iff)
qed


section \<open>Properties\<close>

text \<open>A router at address 2 with the TUN device at address 1 and, outside of it, a tunnel at
  address 3 that Java holds.\<close>

definition sample_router :: router_ctx where
  "sample_router = \<lparr>dev_tun = 1, ip4_routes = [], ip4_routes_count = 0, ip4_default = 0,
     ip6_routes = Some [], ip6_routes_count = 0, ip6_default = 0, epoll_fd = 7,
     epoll_links = Some (replicate 4 \<lparr>el_fd = 0, el_events = 0, el_evt_fd = 0, el_tun = 0\<rparr>),
     epoll_links_capacity = 4, epoll_links_count = 0, routes_updated = False, paused = False,
     terminate = False\<rparr>"

definition sample_dev :: tun_ctx where
  "sample_dev = zero_tun\<lparr>tc_send := Dev_tun_send, tc_recv := Dev_tun_recv, ref_count := 1,
     local_fd := 9, remote_fd := 9, tc_router := 2\<rparr>"

definition router_world :: world where
  "router_world = set_router 2 sample_router (set_tun 3 sample_tun (set_tun 1 sample_dev empty_world))"

definition sample_ext :: "nat \<Rightarrow> nat" where
  "sample_ext t = (if t = 3 then 1 else 0)"

lemma router_world_get [simp]:
  "get_router router_world 2 = Some sample_router" "get_tun router_world 3 = Some sample_tun"
  "get_tun router_world (Suc 0) = Some sample_dev"
  by (simp_all add: router_world_def)

lemma router_world_refs: "refs router_world t = (if t = 1 \<or> t = 3 then 1 else 0)"
  by (simp add: refs_def router_world_def get_tun_def empty_world_def sample_dev_def sample_tun_def
      zero_tun_def)

lemma router_world_owns: "owns router_world 2 sample_ext"
proof -
  have "wf_tuns router_world"
    by (auto simp: wf_tuns_def router_world_def get_tun_def empty_world_def wf_tun_def sample_dev_def
        sample_tun_def zero_tun_def split: if_splits)
  moreover have "held sample_router t + sample_ext t \<le> refs router_world t" if "t \<noteq> 0" for t
    using that by (simp add: held_def sample_router_def router_world_refs sample_ext_def cnt_links_def)
  moreover have "wf_router sample_router"
    by (simp add: wf_router_def sample_router_def table4_def)
  ultimately show ?thesis by (auto simp: owns_def backed_def)
qed







end
