(* ===== verification/Polling.thy ===== *)
theory Polling
  imports RouterSafe
begin

text \<open>
  The table of polled descriptors and the receive path of the TUN device: what
  \<open>rebuild_epoll_struct\<close> needs in order to return, what it leaves behind, and which packets
  the loop loses.
\<close>

section \<open>Collecting the tunnels\<close>

lemma ref_get_facts:
  assumes "ref_get w t = Some (t', w')" "refs w t < 2 ^ 32 - 1"
  shows "t' = t \<and> (\<forall>x. get_local_fd w' x = get_local_fd w x) \<and> (\<forall>x. x \<noteq> t \<longrightarrow> refs w' x = refs w x) \<and>
    w_routers w' = w_routers w \<and> w_io w' = w_io w \<and> w_brk w' = w_brk w"
proof -
  obtain c where c: "get_tun w t = Some c" using assms(1) by (auto simp: ref_get_def bind_eq_Some_iff)
  then have "unat (ref_count c) < 2 ^ 32 - 1" using assms(2) by (simp add: refs_def)
  then have w': "t' = t" "w' = set_tun t (c\<lparr>ref_count := ref_count c + 1,
      ref_generation := ref_generation c + 1\<rparr>) w"
    using ref_get_Some [OF c] assms(1) by simp_all
  have nz: "t \<noteq> 0" using get_tun_nz c by blast
  have "get_local_fd w' x = get_local_fd w x" for x
    using w'(2) c nz by (cases "x = t") (simp_all add: get_local_fd_def)
  moreover have "refs w' x = refs w x" if "x \<noteq> t" for x
    using w'(2) that by (simp add: refs_def)
  ultimately show ?thesis using w' by simp
qed

definition route_tuns :: "route4_link list \<Rightarrow> nat set" where
  "route_tuns rs = r4_tun ` set rs - {0}"

lemma route_tuns_simps [simp]:
  "route_tuns [] = {}" "route_tuns (l # rs) = (if r4_tun l = 0 then {} else {r4_tun l}) \<union> route_tuns rs"
  by (auto simp: route_tuns_def)

lemma collect_tuns_Some:
  "collect_tuns cap rs ctxs w = Some res \<Longrightarrow> length ctxs \<le> cap \<Longrightarrow>
   \<forall>t \<in> route_tuns rs - set ctxs. refs w t < 2 ^ 32 - 1 \<Longrightarrow>
     length (fst res) \<le> cap \<and> set (fst res) = set ctxs \<union> route_tuns rs \<and>
     (\<forall>t \<in> route_tuns rs. get_local_fd w t \<noteq> Some UNDEFINED_FD) \<and>
     w_routers (snd res) = w_routers w \<and> w_io (snd res) = w_io w"
proof (induction cap rs ctxs w res
    rule: collect_tuns.raw_induct [rotated, consumes 1, case_names step])
  case (step rec cap rs ctxs w res)
  note IH = step(1) and eq = step(2) and le = step(3) and ov = step(4)
  show ?case
  proof (cases rs)
    case Nil
    then show ?thesis using eq le by auto
  next
    case (Cons l ls)
    let ?t = "r4_tun l"
    show ?thesis
    proof (cases "?t = 0")
      case True
      then show ?thesis using eq Cons IH [of cap ls ctxs w res] le ov by auto
    next
      case False
      then obtain fd where fd: "get_local_fd w ?t = Some fd" using eq Cons by (auto simp: bind_eq_Some_iff)
      show ?thesis
      proof (cases "fd = UNDEFINED_FD")
        case True
        then have "rec cap rs ctxs w = Some res" using eq Cons False fd by simp
        then show ?thesis using IH [OF _ le ov] by simp
      next
        case fdok: False
        show ?thesis
        proof (cases "?t \<in> set ctxs")
          case True
          then have "rec cap ls ctxs w = Some res" using eq Cons False fd fdok by simp
          then show ?thesis using IH [of cap ls ctxs w res] le ov Cons True False fd fdok by auto
        next
          case new: False
          then obtain t w1 where g: "ref_get w ?t = Some (t, w1)" "length ctxs < cap"
            "rec cap ls (ctxs @ [t]) w1 = Some res"
            using eq Cons False fd fdok by (auto simp: bind_eq_Some_iff split: if_splits)
          have "refs w ?t < 2 ^ 32 - 1" using ov Cons False new by auto
          note f = ref_get_facts [OF g(1) this]
          have "\<forall>x \<in> route_tuns ls - set (ctxs @ [t]). refs w1 x < 2 ^ 32 - 1"
            using f ov Cons by auto
          then show ?thesis using IH [OF g(3)] g(2) f Cons False fd fdok by auto
        qed
      qed
    qed
  qed
qed

section \<open>When the table can be rebuilt\<close>

text \<open>The tunnels that \<open>rebuild_epoll_struct\<close> wants to poll.\<close>

definition polled_set :: "world \<Rightarrow> router_ctx \<Rightarrow> nat set" where
  "polled_set w rc = {dev_tun rc} \<union> route_tuns (ip4_routes rc) \<union>
     (if ip4_default rc \<noteq> 0 \<and> get_local_fd w (ip4_default rc) \<noteq> Some UNDEFINED_FD
      then {ip4_default rc} else {})"

lemma malloc_Some:
  "e_malloc env (w_brk w) \<Longrightarrow> malloc env w = (Suc (w_brk w), w\<lparr>w_brk := Suc (w_brk w)\<rparr>)"
  by (simp add: malloc_def)

lemma brk_simps [simp]:
  "get_tun (w\<lparr>w_brk := n\<rparr>) t = get_tun w t" "get_router (w\<lparr>w_brk := n\<rparr>) r = get_router w r"
  "refs (w\<lparr>w_brk := n\<rparr>) t = refs w t" "get_local_fd (w\<lparr>w_brk := n\<rparr>) t = get_local_fd w t"
  by (simp_all add: get_tun_def get_router_def refs_def get_local_fd_def)

lemma card_set_le: "card (set xs) \<le> length xs"
  by (rule card_length)

text \<open>The references taken before the loop over the routes.\<close>

lemma rebuild_Some:
  assumes "get_router w r = Some rc" "e_malloc env (w_brk w)"
    and "\<forall>t. refs w t < 2 ^ 32 - 2"
    and "rebuild_epoll_struct env w r = Some w'"
  shows "card (polled_set w rc) \<le> nat (ip4_routes_count rc + 2) \<and>
    (\<forall>t \<in> route_tuns (ip4_routes rc). get_local_fd w t \<noteq> Some UNDEFINED_FD)"
proof -
  let ?w = "w\<lparr>w_brk := Suc (w_brk w)\<rparr>" and ?cap = "nat (ip4_routes_count rc + 2)"
  let ?d = "ip4_default rc" and ?rs = "ip4_routes rc"
  have r: "r \<noteq> 0" using get_router_nz assms(1) by blast
  note E = assms(4) [unfolded rebuild_epoll_struct_def malloc_Some [OF assms(2)] Let_def prod.case
      if_not_P [OF r] assms(1) bind.bind_lunit]
  from E obtain d w1 where 1: "ref_get ?w (dev_tun rc) = Some (d, w1)" "0 < ?cap"
    by (auto simp: bind_eq_Some_iff split: if_splits)
  have "refs ?w (dev_tun rc) < 2 ^ 32 - 1" using assms(3) [rule_format, of "dev_tun rc"] by simp
  note f1 = ref_get_facts [OF 1(1) this]
  have bound1: "refs w1 x < 2 ^ 32 - 1" for x
  proof (cases "x = dev_tun rc")
    case True
    obtain c where c: "get_tun ?w (dev_tun rc) = Some c" using 1(1) by (auto simp: ref_get_def bind_eq_Some_iff)
    have "unat (ref_count c) < 2 ^ 32 - 2"
      using assms(3) [rule_format, of "dev_tun rc"] c by (simp add: refs_def)
    then have "unat (ref_count c + 1) < 2 ^ 32 - 1" by (simp add: unat_word_ariths)
    then show ?thesis using 1(1) c get_tun_nz [OF c] True by (auto simp: ref_get_def refs_def Let_def)
  next
    case False
    then show ?thesis using f1 assms(3) [rule_format, of x] by simp
  qed
  from E 1 f1 obtain fd ctxs w2 where 2: "get_local_fd w ?d = Some fd"
    "(if ?d \<noteq> 0 \<and> fd \<noteq> UNDEFINED_FD then do {
        (t, w) \<leftarrow> ref_get w1 ?d;
        if 1 < ?cap then Some ([d] @ [t], w) else None
      } else Some ([d], w1)) = Some (ctxs, w2)"
    "\<exists>res. collect_tuns ?cap ?rs ctxs w2 = Some res"
    by (auto simp: bind_eq_Some_iff)
  have C: "length ctxs \<le> ?cap \<and> set ctxs = {dev_tun rc} \<union>
      (if ?d \<noteq> 0 \<and> fd \<noteq> UNDEFINED_FD then {?d} else {}) \<and>
      (\<forall>x. get_local_fd w2 x = get_local_fd w x) \<and>
      (\<forall>x. x \<notin> set ctxs \<longrightarrow> refs w2 x < 2 ^ 32 - 1)"
  proof (cases "?d \<noteq> 0 \<and> fd \<noteq> UNDEFINED_FD")
    case True
    then obtain t where t: "ref_get w1 ?d = Some (t, w2)" "1 < ?cap" "ctxs = [d, t]"
      using 2(2) by (auto simp: bind_eq_Some_iff split: if_splits)
    note f2 = ref_get_facts [OF t(1) bound1]
    have "d = dev_tun rc" "t = ?d" using f1 f2 by simp_all
    moreover have "refs w2 x < 2 ^ 32 - 1" if "x \<notin> set ctxs" for x
      using f2 that t(3) bound1 [of x] \<open>t = ?d\<close> by simp
    ultimately show ?thesis using True t f1 f2 by auto
  next
    case False
    then have "ctxs = [dev_tun rc]" "w2 = w1" using 2(2) f1 by auto
    moreover have "\<forall>x. get_local_fd w1 x = get_local_fd w x" using f1 by simp
    ultimately show ?thesis using False 1(2) bound1 by auto
  qed
  obtain res where res: "collect_tuns ?cap ?rs ctxs w2 = Some res" using 2(3) by blast
  have K: "length (fst res) \<le> ?cap" "set (fst res) = set ctxs \<union> route_tuns ?rs"
    "\<forall>t \<in> route_tuns ?rs. get_local_fd w2 t \<noteq> Some UNDEFINED_FD"
    using collect_tuns_Some [OF res] C by auto
  have "polled_set w rc = set (fst res)" using K(2) C 2(1) by (auto simp: polled_set_def)
  then have "card (polled_set w rc) \<le> ?cap" using card_set_le [of "fst res"] K(1) by simp
  then show ?thesis using K(3) C by auto
qed


text \<open>C30: when \<open>rebuild_epoll_struct\<close> does not come back. The array it collects the tunnels
  in has two entries more than \<open>ip4_routes_count\<close>. If the tunnels to poll are more than
  that, it writes behind the array; if some route leads to a tunnel without a descriptor,
  the \<open>continue\<close> in its loop repeats for ever (unless the array overflows first).\<close>

theorem rebuild_epoll_struct_stuck:
  assumes "get_router w r = Some rc" "e_malloc env (w_brk w)" "\<forall>t. refs w t < 2 ^ 32 - 2"
    and "nat (ip4_routes_count rc + 2) < card (polled_set w rc) \<or>
      (\<exists>t \<in> route_tuns (ip4_routes rc). get_local_fd w t = Some UNDEFINED_FD)"
  shows "rebuild_epoll_struct env w r = None"
  using rebuild_Some [OF assms(1-3)] assms(4) by (cases "rebuild_epoll_struct env w r") fastforce+

text \<open>Two routes through two tunnels, put in with \<open>route4\<close> in descending order: the counter
  is still 0.\<close>

definition two_routes_world :: world where
  "two_routes_world = set_router 2 (sample_router\<lparr>ip4_routes := [\<lparr>r4_ip = 0x0B000000, r4_mask = 8, r4_tun = 3\<rparr>,
     \<lparr>r4_ip = 0x0A000000, r4_mask = 8, r4_tun = 4\<rparr>]\<rparr>)
     (set_tun 4 (sample_tun\<lparr>local_fd := 11\<rparr>) router_world)"

theorem rebuild_epoll_struct_stuck_witness:
  "rebuild_epoll_struct sample_env two_routes_world 2 = None"
proof (rule rebuild_epoll_struct_stuck)
  let ?rc = "sample_router\<lparr>ip4_routes := [\<lparr>r4_ip = 0x0B000000, r4_mask = 8, r4_tun = 3\<rparr>,
     \<lparr>r4_ip = 0x0A000000, r4_mask = 8, r4_tun = 4\<rparr>]\<rparr>"
  show "get_router two_routes_world 2 = Some ?rc" by (simp add: two_routes_world_def)
  show "e_malloc sample_env (w_brk two_routes_world)" by (simp add: sample_env_def)
  show "\<forall>t. refs two_routes_world t < 2 ^ 32 - 2"
    by (simp add: refs_def two_routes_world_def router_world_def get_tun_def empty_world_def
        sample_dev_def sample_tun_def zero_tun_def)
  have "polled_set two_routes_world ?rc = {1, 3, 4}"
    by (auto simp: polled_set_def sample_router_def)
  then show "nat (ip4_routes_count ?rc + 2) < card (polled_set two_routes_world ?rc) \<or>
      (\<exists>t \<in> route_tuns (ip4_routes ?rc). get_local_fd two_routes_world t = Some UNDEFINED_FD)"
    by (simp add: sample_router_def)
qed

section \<open>The counter of the routes\<close>

text \<open>The changes of \<open>ip4_routes_count\<close> over a sequence of insertions.\<close>

fun insert_all :: "route4_link list \<Rightarrow> route4_link list \<Rightarrow> int \<Rightarrow> route4_link list \<times> int" where
  "insert_all [] rs n = (rs, n)"
| "insert_all (l # ls) rs n = (let (rs', k, old) = route4_insert l rs in insert_all ls rs' (n + k))"

lemma insert_all_descending:
  "\<forall>l \<in> set ls. valid4 l \<Longrightarrow> table4 (rs @ ls) \<Longrightarrow> insert_all ls rs n = (rs @ ls, n)"
proof (induction ls arbitrary: rs)
  case (Cons l ls)
  have tab: "table4 rs" and below: "\<forall>r \<in> set rs. key4 l < key4 r"
    using Cons.prems(2) by (auto simp: table4_def desc_def sorted_wrt_append)
  obtain rs' k old where i: "route4_insert l rs = (rs', k, old)" by (cases "route4_insert l rs") auto
  have v: "valid4 l" "\<forall>r \<in> set rs. valid4 r" using Cons.prems(1) tab by (auto simp: table4_def)
  have "rs' = rs @ [l] \<and> k = 0 \<and> old = None"
    using below v i
  proof (induction rs arbitrary: rs' k old)
    case Nil
    then show ?case by (simp add: route4_insert_def)
  next
    case (Cons c rs)
    have ne: "\<not> (r4_ip c, r4_mask c) < (r4_ip l, r4_mask l)" "(r4_ip c, r4_mask c) \<noteq> (r4_ip l, r4_mask l)"
      using Cons.prems(1) by (auto simp: key4_def dest: order.asym)
    obtain r1 k1 o1 where j: "route4_insert l rs = (r1, k1, o1)" by (cases "route4_insert l rs") auto
    have "rs' = c # r1 \<and> k = k1 \<and> old = o1"
      using Cons.prems(4) unfolding routes4.insert_Cons [OF v(1) bspec [OF Cons.prems(3), of c, simplified]]
        if_not_P [OF ne(1)] if_not_P [OF ne(2)] j by simp
    then show ?case using Cons.IH [OF _ v(1) _ j] Cons.prems by simp
  qed
  then show ?case using Cons.IH [of "rs @ [l]"] Cons.prems i by simp
qed simp

text \<open>\<open>ip4_routes_count\<close> is not the number of routes. Inserting any number of valid
  routes in descending order of network and mask into an empty list stores them all and
  leaves the counter at 0, because only an insertion before another link counts.\<close>

theorem routes_count_drifts:
  assumes "\<forall>l \<in> set ls. valid4 l" "table4 ls"
  shows "insert_all ls [] 0 = (ls, 0)"
  using insert_all_descending [of ls "[]" 0] assms by simp

theorem routes_count_drifts_witness: "insert_all sample_routes4 [] 0 = (sample_routes4, 0)"
  by (rule routes_count_drifts) (use table4_sample in \<open>simp_all add: table4_def\<close>)


section \<open>Receiving from the TUN device\<close>

lemma read_ip_packet_Some:
  assumes "e_read env (w_io w @ [Read fd (nat len)]) fd (nat len) = Some d" "0 \<le> len" "len \<le> int (length b)"
  shows "\<exists>b'. read_ip_packet env w fd b len =
      Some (int (length (take (nat len) d)), b', emit (Read fd (nat len)) w) \<and> length b' = length b \<and>
      take (length (take (nat len) d)) b' = take (nat len) d"
  using assms by (auto simp: read_ip_packet_def wr_bytes_def Let_def min_def)

text \<open>The version of a packet is taken from the packet before it. \<open>dev_tun_recv\<close> parses
  its buffer before it reads into it; when the old contents parse as IPv6, whatever is read
  from the device (a perfectly routable IPv4 packet included) is dropped: the result is 0,
  nothing is written and no tunnel changes.\<close>

theorem dev_tun_recv_stale_version:
  assumes "get_tun w t = Some c" "0 \<le> len" "len \<le> int (length b)"
    and "ip_parse_packet (new_packet b len len) = Some p" "ipver p = 6"
    and "e_read env (w_io w @ [Read (local_fd c) (nat len)]) (local_fd c) (nat len) = Some d"
  shows "\<exists>b' w' es. dev_tun_recv env w t b len = Some (0, b', w') \<and>
    take (length (take (nat len) d)) b' = take (nat len) d \<and> w_tuns w' = w_tuns w \<and>
    w_io w' = w_io w @ Read (local_fd c) (nat len) # es \<and> (\<forall>fd x. Write fd x \<notin> set es)"
proof -
  let ?n = "int (length (take (nat len) d))"
  obtain b' where b': "read_ip_packet env w (local_fd c) b len =
      Some (?n, b', emit (Read (local_fd c) (nat len)) w)" "length b' = length b"
    "take (length (take (nat len) d)) b' = take (nat len) d"
    using read_ip_packet_Some [OF assms(6,2,3)] by blast
  have "0 \<le> ?n" "?n \<le> int (length b')" using assms(2,3) b'(2) by auto
  then obtain w' where w': "pcap_output_write (pcap_out c) b' ?n (emit (Read (local_fd c) (nat len)) w) = Some w'"
    "w_tuns w' = w_tuns w" "w_io w' = w_io w @ [Read (local_fd c) (nat len)] \<or>
      (\<exists>j. w_io w' = w_io w @ [Read (local_fd c) (nat len), Pcap_write j (take (nat ?n) b')])"
    using pcap_output_write_Some [of ?n b' "pcap_out c" "emit (Read (local_fd c) (nat len)) w"] by auto
  have "dev_tun_recv env w t b len = Some (0, b', w')"
    using assms(1,4,5) get_tun_nz [OF assms(1)] b'(1) w'(1)
    by (simp add: dev_tun_recv_def ipsend_def Let_def)
  then show ?thesis using w' b'(3) by auto
qed

theorem dev_tun_recv_stale_version_witness:
  "\<exists>b' w'. dev_tun_recv sample_env router_world 1 sample_ip6 100 = Some (0, b', w') \<and>
     take 40 b' = sample_ip4"
proof -
  have "map_option ipver (ip_parse_packet (new_packet sample_ip6 100 100)) = Some 6"
    by code_simp
  then obtain p where p: "ip_parse_packet (new_packet sample_ip6 100 100) = Some p" "ipver p = 6"
    by auto
  have l: "(100::int) \<le> int (length sample_ip6)" "length sample_ip4 = 40"
    by (simp_all add: sample_ip6_def sample_ip4_def)
  show ?thesis
    using dev_tun_recv_stale_version [of router_world 1 sample_dev 100 sample_ip6 p sample_env sample_ip4]
      p l by (force simp: sample_env_def)
qed

end
