(* ===== verification/NatProps.thy ===== *)
theory NatProps
  imports Refs UserNat
begin

text \<open>
  Properties of the NAT: a connection through it looks to both sides like a direct one,
  packets that belong to no link do not pass, packets that wait for \<open>socat\<close> are delivered in
  order, and what happens to the sockets of a link that cannot be opened.
\<close>

section \<open>The endpoints of a TCP packet\<close>

definition tcp_offs :: "bytes \<Rightarrow> nat" where
  "tcp_offs b = 4 * hdr_ihl (b ! 0)"

definition endpoints :: "bytes \<Rightarrow> u32 \<Rightarrow> u16 \<Rightarrow> u32 \<Rightarrow> u16 \<Rightarrow> bool" where
  "endpoints b sa sp da dp \<longleftrightarrow> rd32 b 12 = Some sa \<and> rd16 b (tcp_offs b) = Some sp \<and>
     rd32 b 16 = Some da \<and> rd16 b (tcp_offs b + 2) = Some dp"

lemma tcp_packet_bounds:
  "ip4_tcp_packet b len \<Longrightarrow> 40 \<le> length b \<and> 20 \<le> tcp_offs b \<and> tcp_offs b + 18 \<le> length b \<and>
     b ! 9 = IPPROTO_TCP \<and> 40 \<le> len \<and> len \<le> int (length b)"
  by (auto simp: ip4_tcp_packet_def tcp_offs_def)

lemma endpoints_wr32_src:
  assumes "ip4_tcp_packet b len" "endpoints b sa sp da dp"
  shows "\<exists>b'. wr32 b 12 x = Some b' \<and> ip4_tcp_packet b' len \<and> tcp_offs b' = tcp_offs b \<and>
    length b' = length b \<and> endpoints b' x sp da dp"
proof -
  note B = tcp_packet_bounds [OF assms(1)]
  obtain b' where b': "wr32 b 12 x = Some b'" using wr32_Some [of b 12 x] B by auto
  have n: "b' ! i = b ! i" if "i < 10" for i using wr32_nth [OF b', of i] that B by auto
  then have "tcp_offs b' = tcp_offs b" by (simp add: tcp_offs_def)
  then show ?thesis using b' assms ip4_tcp_packet_cong [OF assms(1) wr32_length [OF b'] n] B
    by (auto simp: endpoints_def rd32_wr32_same rd32_wr32_other [OF b'] rd16_wr32_other [OF b'] wr32_length)
qed

lemma endpoints_wr32_dst:
  assumes "ip4_tcp_packet b len" "endpoints b sa sp da dp"
  shows "\<exists>b'. wr32 b 16 x = Some b' \<and> ip4_tcp_packet b' len \<and> tcp_offs b' = tcp_offs b \<and>
    length b' = length b \<and> endpoints b' sa sp x dp"
proof -
  note B = tcp_packet_bounds [OF assms(1)]
  obtain b' where b': "wr32 b 16 x = Some b'" using wr32_Some [of b 16 x] B by auto
  have n: "b' ! i = b ! i" if "i < 10" for i using wr32_nth [OF b', of i] that B by auto
  then have "tcp_offs b' = tcp_offs b" by (simp add: tcp_offs_def)
  then show ?thesis using b' assms ip4_tcp_packet_cong [OF assms(1) wr32_length [OF b'] n] B
    by (auto simp: endpoints_def rd32_wr32_same rd32_wr32_other [OF b'] rd16_wr32_other [OF b'] wr32_length)
qed

lemma tcp_wr16:
  assumes "ip4_tcp_packet b len" "tcp_offs b \<le> offs" "offs + 2 \<le> length b"
  shows "\<exists>b'. wr16 b offs x = Some b' \<and> ip4_tcp_packet b' len \<and> tcp_offs b' = tcp_offs b \<and>
    length b' = length b"
proof -
  note B = tcp_packet_bounds [OF assms(1)]
  obtain b' where b': "wr16 b offs x = Some b'" using wr16_Some [of b offs x] assms(3) by auto
  have n: "b' ! i = b ! i" if "i < 10" for i using wr16_nth [OF b', of i] that B assms(2) by auto
  then have "tcp_offs b' = tcp_offs b" by (simp add: tcp_offs_def)
  then show ?thesis using b' ip4_tcp_packet_cong [OF assms(1) wr16_length [OF b'] n] wr16_length [OF b']
    by blast
qed

lemma endpoints_wr16_src:
  assumes "ip4_tcp_packet b len" "endpoints b sa sp da dp"
  shows "\<exists>b'. wr16 b (tcp_offs b) x = Some b' \<and> ip4_tcp_packet b' len \<and> tcp_offs b' = tcp_offs b \<and>
    length b' = length b \<and> endpoints b' sa x da dp"
proof -
  note B = tcp_packet_bounds [OF assms(1)]
  obtain b' where b': "wr16 b (tcp_offs b) x = Some b'" "ip4_tcp_packet b' len"
    "tcp_offs b' = tcp_offs b" "length b' = length b"
    using tcp_wr16 [OF assms(1), of "tcp_offs b" x] B by auto
  have "rd16 b' (tcp_offs b + 2) = rd16 b (tcp_offs b + 2)" "rd32 b' 12 = rd32 b 12" "rd32 b' 16 = rd32 b 16"
    using B by (intro rd16_wr16_other [OF b'(1)] rd32_wr16_other [OF b'(1)], simp)+
  then show ?thesis using b' assms(2) rd16_wr16_same [OF b'(1)] by (simp add: endpoints_def)
qed

lemma endpoints_wr16_dst:
  assumes "ip4_tcp_packet b len" "endpoints b sa sp da dp"
  shows "\<exists>b'. wr16 b (tcp_offs b + 2) x = Some b' \<and> ip4_tcp_packet b' len \<and> tcp_offs b' = tcp_offs b \<and>
    length b' = length b \<and> endpoints b' sa sp da x"
proof -
  note B = tcp_packet_bounds [OF assms(1)]
  obtain b' where b': "wr16 b (tcp_offs b + 2) x = Some b'" "ip4_tcp_packet b' len"
    "tcp_offs b' = tcp_offs b" "length b' = length b"
    using tcp_wr16 [OF assms(1), of "tcp_offs b + 2" x] B by auto
  have "rd16 b' (tcp_offs b) = rd16 b (tcp_offs b)" "rd32 b' 12 = rd32 b 12" "rd32 b' 16 = rd32 b 16"
    using B by (intro rd16_wr16_other [OF b'(1)] rd32_wr16_other [OF b'(1)], simp)+
  then show ?thesis using b' assms(2) rd16_wr16_same [OF b'(1)] by (simp add: endpoints_def)
qed

text \<open>A finished packet: its endpoints, with both checksums right.\<close>

definition delivered :: "bytes \<Rightarrow> u32 \<Rightarrow> u16 \<Rightarrow> u32 \<Rightarrow> u16 \<Rightarrow> bool" where
  "delivered b sa sp da dp \<longleftrightarrow> endpoints b sa sp da dp \<and> ip4_header_valid b \<and> ip4_tcp_valid b"

lemma finish_packet:
  assumes "ip4_tcp_packet b len" "endpoints b sa sp da dp"
  shows "\<exists>c b2 b3. ip4_calc_ip_checksum b len = Some (c, b2) \<and>
    calc_payload_checksum4 IPPROTO_TCP b2 len = Some b3 \<and> delivered b3 sa sp da dp \<and> length b3 = length b"
proof -
  note B = tcp_packet_bounds [OF assms(1)]
  obtain c b2 b3 where k: "ip4_calc_ip_checksum b len = Some (c, b2)"
    "calc_payload_checksum4 IPPROTO_TCP b2 len = Some b3" "ip4_header_valid b3" "ip4_tcp_valid b3"
    "length b3 = length b" and
    n: "\<And>i. i < length b \<Longrightarrow> i \<notin> {10, 11, tcp_offs b + 16, tcp_offs b + 17} \<Longrightarrow> b3 ! i = b ! i"
    using checksums_tcp [OF assms(1)] by (auto simp: tcp_offs_def)
  have "b3 ! 0 = b ! 0" using n [of 0] B by (cases b) auto
  then have "tcp_offs b3 = tcp_offs b" by (simp add: tcp_offs_def)
  moreover have "rd16 b3 (tcp_offs b + j) = rd16 b (tcp_offs b + j)" if "j \<le> 2" for j
    using that k(5) n B by (auto simp: rd16_def)
  from this [of 0] this [of 2] have "rd16 b3 (tcp_offs b) = rd16 b (tcp_offs b)"
    "rd16 b3 (tcp_offs b + 2) = rd16 b (tcp_offs b + 2)" by simp_all
  moreover have "rd32 b3 12 = rd32 b 12" "rd32 b3 16 = rd32 b 16"
    using k(5) n B by (auto intro!: rd32_cong)
  ultimately have "endpoints b3 sa sp da dp" using assms(2) by (simp add: endpoints_def)
  then show ?thesis using k by (auto simp: delivered_def)
qed

section \<open>Address translation\<close>

text \<open>The address that takes the place of \<open>a\<close>: the partner in the first set pair that has
  it, or \<open>a\<close> itself.\<close>

definition translate :: "u32 list \<Rightarrow> u32 list \<Rightarrow> u32 \<Rightarrow> u32" where
  "translate from to a = (case find (\<lambda>(old, new). old \<noteq> 0 \<and> new \<noteq> 0 \<and> a = old) (zip from to) of
     None \<Rightarrow> a | Some (_, new) \<Rightarrow> new)"

lemma dns_scan_translate:
  assumes "rd32 b offs = Some a"
  shows "\<exists>hit. dns_scan b offs (zip from to) = Some hit \<and>
    translate from to a = (case hit of None \<Rightarrow> a | Some x \<Rightarrow> x)"
proof -
  have "offs + 4 \<le> length b" using assms by (auto simp: rd32_def split: if_splits)
  then have "dns_scan b offs (zip from to) = Some (map_option snd
      (find (\<lambda>(old, new). old \<noteq> 0 \<and> new \<noteq> 0 \<and> a = old) (zip from to)))"
    using dns_scan_find [of offs b "zip from to"] assms by simp
  then show ?thesis by (auto simp: translate_def split: option.splits)
qed

lemma nat_rewrite_out:
  assumes "ip4_tcp_packet b len" "endpoints b sa sp da dp"
  shows "\<exists>b' c b2 b3. nat_rewrite tc u l False (tcp_offs b) b = Some b' \<and>
    ip4_calc_ip_checksum b' len = Some (c, b2) \<and> calc_payload_checksum4 IPPROTO_TCP b2 len = Some b3 \<and>
    delivered b3 (remote4 u) sp (local4 u) (hop_port l) \<and> length b3 = length b"
proof -
  obtain b1 where 1: "wr32 b 12 (remote4 u) = Some b1" "ip4_tcp_packet b1 len"
    "tcp_offs b1 = tcp_offs b" "length b1 = length b" "endpoints b1 (remote4 u) sp da dp"
    using endpoints_wr32_src [OF assms] by blast
  obtain b2 where 2: "wr32 b1 16 (local4 u) = Some b2" "ip4_tcp_packet b2 len"
    "tcp_offs b2 = tcp_offs b1" "length b2 = length b1" "endpoints b2 (remote4 u) sp (local4 u) dp"
    using endpoints_wr32_dst [OF 1(2,5)] by blast
  obtain b3 where 3: "wr16 b2 (tcp_offs b2 + 2) (hop_port l) = Some b3" "ip4_tcp_packet b3 len"
    "length b3 = length b2" "endpoints b3 (remote4 u) sp (local4 u) (hop_port l)"
    using endpoints_wr16_dst [OF 2(2,5), of "hop_port l"] by auto
  show ?thesis using 1 2 3 finish_packet [OF 3(2,4)] by (simp add: nat_rewrite_def)
qed

lemma nat_rewrite_in:
  assumes "ip4_tcp_packet b len" "endpoints b sa sp da dp"
  shows "\<exists>b' c b2 b3. nat_rewrite tc u l True (tcp_offs b) b = Some b' \<and>
    ip4_calc_ip_checksum b' len = Some (c, b2) \<and> calc_payload_checksum4 IPPROTO_TCP b2 len = Some b3 \<and>
    delivered b3 (translate (dns_ip4 tc) (virtual_dns_ip4 tc) (real_dst_addr l)) (real_dst_port l)
      (local4 u) dp \<and> length b3 = length b"
proof -
  obtain b1 where 1: "wr32 b 12 (real_dst_addr l) = Some b1" "ip4_tcp_packet b1 len"
    "tcp_offs b1 = tcp_offs b" "length b1 = length b" "endpoints b1 (real_dst_addr l) sp da dp"
    using endpoints_wr32_src [OF assms] by blast
  obtain b2 where 2: "wr32 b1 16 (local4 u) = Some b2" "ip4_tcp_packet b2 len"
    "tcp_offs b2 = tcp_offs b1" "length b2 = length b1" "endpoints b2 (real_dst_addr l) sp (local4 u) dp"
    using endpoints_wr32_dst [OF 1(2,5)] by blast
  obtain b3 where 3: "wr16 b2 (tcp_offs b2) (real_dst_port l) = Some b3" "ip4_tcp_packet b3 len"
    "length b3 = length b2" "endpoints b3 (real_dst_addr l) (real_dst_port l) (local4 u) dp"
    using endpoints_wr16_src [OF 2(2,5), of "real_dst_port l"] by auto
  have a: "rd32 b3 12 = Some (real_dst_addr l)" using 3(4) by (simp add: endpoints_def)
  let ?a = "translate (dns_ip4 tc) (virtual_dns_ip4 tc) (real_dst_addr l)"
  obtain hit where hit: "dns_scan b3 12 (zip (dns_ip4 tc) (virtual_dns_ip4 tc)) = Some hit"
    "?a = (case hit of None \<Rightarrow> real_dst_addr l | Some x \<Rightarrow> x)"
    using dns_scan_translate [OF a] by blast
  obtain b4 where 4: "(case hit of None \<Rightarrow> Some b3 | Some x \<Rightarrow> wr32 b3 12 x) = Some b4"
    "ip4_tcp_packet b4 len" "endpoints b4 ?a (real_dst_port l) (local4 u) dp" "length b4 = length b3"
  proof (cases hit)
    case None
    then show ?thesis using that 3 hit(2) by simp
  next
    case (Some x)
    then show ?thesis using that endpoints_wr32_src [OF 3(2,4), of x] hit(2) by auto
  qed
  show ?thesis using 1 2 3 hit(1) 4 finish_packet [OF 4(2,3)] by (simp add: nat_rewrite_def)
qed


section \<open>Finding a link\<close>

lemma find_SomeD: "find P xs = Some x \<Longrightarrow> x \<in> set xs \<and> P x"
  by (auto simp: find_Some_iff)

lemma parse_endpoints:
  assumes "ip4_tcp_packet b len" "endpoints b sa sp da dp" "len < 2 ^ 31"
  shows "\<exists>p. ip_parse_packet (new_packet b len len) = Some p \<and> ipver p = 4 \<and>
    payload_proto p = IPPROTO_TCP \<and> ip_header p = Some 0 \<and> payload_header p = Some (tcp_offs b) \<and>
    src_port p = sp \<and> dst_port p = dp"
proof -
  note B = tcp_packet_bounds [OF assms(1)]
  let ?p = "(new_packet b len len)\<lparr>src_port := 0, dst_port := 0, ip_header := Some 0\<rparr>"
  have "0 < (of_int len :: u32)" using len_u32 [of len] B assms(3) by simp
  moreover have "b \<noteq> []" "b ! 0 AND 240 = 64" using assms(1) B by (auto simp: ip4_tcp_packet_def)
  ultimately obtain p1 where "ip_detect_ipver ?p = Some p1" "p1 = ?p\<lparr>ipver := 4\<rparr>"
    using ip_detect_ipver_Some [of ?p b] by (auto simp: new_packet_def)
  moreover have "rd16 b (tcp_offs b) = Some sp" "rd16 b (tcp_offs b + 2) = Some dp"
    using assms(2) by (simp_all add: endpoints_def)
  moreover have "rd8 b 9 = Some (b ! 9)" "rd8 b 0 = Some (b ! 0)" "rd16 b 2 = Some (word_at b 2)"
    using B by (auto simp: rd8_def rd16_word_at)
  ultimately show ?thesis using B
    by (simp add: ip_parse_packet_def new_packet_def parse_ip4_def Let_def ipproto_defs tcp_offs_def
        del: of_nat_mult)
qed

text \<open>When an outgoing and an incoming packet belong to a link.\<close>

definition match_out :: "nat_link \<Rightarrow> u32 \<Rightarrow> u16 \<Rightarrow> u32 \<Rightarrow> u16 \<Rightarrow> bool" where
  "match_out l la lp ra rp \<longleftrightarrow> link_type l = NAT_LINK_TCP4 \<and> real_src_addr l = la \<and>
     real_src_port l = lp \<and> real_dst_addr l = ra \<and> real_dst_port l = rp"

definition match_in :: "nat_link \<Rightarrow> u32 \<Rightarrow> u16 \<Rightarrow> u16 \<Rightarrow> bool" where
  "match_in l la lp rp \<longleftrightarrow> link_type l = NAT_LINK_TCP4 \<and> real_src_addr l = la \<and>
     real_src_port l = lp \<and> hop_port l = rp"

lemma tcp4_not_ip6: "NAT_LINK_TCP4 AND NAT_LINK_IP6 = 0"
  by (simp add: NAT_LINK_TCP4_def)

lemma find_link4_out:
  "find_link4 w ls NAT_LINK_TCP4 la lp ra rp False =
     Some (case find (\<lambda>(a, l). match_out l la lp ra rp) ls of None \<Rightarrow> 0 | Some (a, _) \<Rightarrow> a)"
proof (induction ls)
  case (Cons x ls)
  obtain a l where x: "x = (a, l)" by (cases x)
  show ?case
  proof (cases "match_out l la lp ra rp")
    case True
    then show ?thesis using x by (simp add: match_out_def ip4_addr_eq_def tcp4_not_ip6)
  next
    case False
    then have "find_link4 w (x # ls) NAT_LINK_TCP4 la lp ra rp False = find_link4 w ls NAT_LINK_TCP4 la lp ra rp False"
      using x by (auto simp: match_out_def ip4_addr_eq_def)
    then show ?thesis using Cons.IH x False by simp
  qed
qed simp

lemma find_link4_in:
  assumes "get_usernat w t = Some u" "\<forall>(a, l) \<in> set ls. usernat_ctx l = t"
  shows "find_link4 w ls NAT_LINK_TCP4 la lp (remote4 u) rp True =
     Some (case find (\<lambda>(a, l). match_in l la lp rp) ls of None \<Rightarrow> 0 | Some (a, _) \<Rightarrow> a)"
  using assms(2)
proof (induction ls)
  case (Cons x ls)
  obtain a l where x: "x = (a, l)" by (cases x)
  have t: "get_usernat w (usernat_ctx l) = Some u" using Cons.prems x assms(1) by auto
  have IH: "find_link4 w ls NAT_LINK_TCP4 la lp (remote4 u) rp True =
     Some (case find (\<lambda>(a, l). match_in l la lp rp) ls of None \<Rightarrow> 0 | Some (a, _) \<Rightarrow> a)"
    using Cons by auto
  show ?case
  proof (cases "match_in l la lp rp")
    case True
    then show ?thesis using x t by (simp add: match_in_def ip4_addr_eq_def tcp4_not_ip6)
  next
    case False
    then have "find_link4 w (x # ls) NAT_LINK_TCP4 la lp (remote4 u) rp True =
      find_link4 w ls NAT_LINK_TCP4 la lp (remote4 u) rp True"
      using x t by (auto simp: match_in_def ip4_addr_eq_def)
    then show ?thesis using IH x False by simp
  qed
qed simp

text \<open>The NAT with a TUN device behind it.\<close>

definition nat_ready :: "world \<Rightarrow> nat \<Rightarrow> tun_ctx \<Rightarrow> usernat \<Rightarrow> tun_ctx \<Rightarrow> bool" where
  "nat_ready w t c u dc \<longleftrightarrow> get_tun w t = Some c \<and> tc_usernat c = Some u \<and>
     (\<exists>rc. get_router w (tc_router c) = Some rc \<and> get_tun w (dev_tun rc) = Some dc) \<and>
     tc_send dc = Dev_tun_send \<and> (\<forall>(a, l) \<in> set (nat_links u). usernat_ctx l = t \<and> a \<noteq> 0) \<and>
     distinct (map fst (nat_links u))"

lemma find_link_out:
  assumes "nat_ready w t c u dc" "ip4_tcp_packet b len" "endpoints b (local4 u) sp da dp"
    and "da \<noteq> remote4 u" "ip_header p = Some 0" "ipver p = 4" "payload_proto p = IPPROTO_TCP"
    and "src_port p = sp" "dst_port p = dp"
    and "find (\<lambda>(a, l). match_out l (local4 u) sp (translate (virtual_dns_ip4 c) (dns_ip4 c) da) dp)
      (nat_links u) = Some (a, l)"
  shows "\<exists>b'. find_link env w t b p = Some (a, False, b', w) \<and> ip4_tcp_packet b' len \<and>
    tcp_offs b' = tcp_offs b \<and> length b' = length b \<and>
    endpoints b' (local4 u) sp (translate (virtual_dns_ip4 c) (dns_ip4 c) da) dp"
proof -
  let ?ra = "translate (virtual_dns_ip4 c) (dns_ip4 c) da"
  have rd: "rd32 b 16 = Some da" "rd32 b 12 = Some (local4 u)" using assms(3) by (simp_all add: endpoints_def)
  obtain hit where hit: "dns_scan b 16 (zip (virtual_dns_ip4 c) (dns_ip4 c)) = Some hit"
    "?ra = (case hit of None \<Rightarrow> da | Some x \<Rightarrow> x)" using dns_scan_translate [OF rd(1)] by blast
  obtain b' where b': "(case hit of None \<Rightarrow> Some b | Some x \<Rightarrow> wr32 b 16 x) = Some b'"
    "ip4_tcp_packet b' len" "tcp_offs b' = tcp_offs b" "length b' = length b"
    "endpoints b' (local4 u) sp ?ra dp"
  proof (cases hit)
    case None
    then show ?thesis using that assms(2,3) hit(2) by simp
  next
    case (Some x)
    then show ?thesis using that endpoints_wr32_dst [OF assms(2,3), of x] hit(2) by auto
  qed
  have "rd32 b' 16 = Some ?ra" using b'(5) by (simp add: endpoints_def)
  moreover have "a \<noteq> 0" using assms(1) find_SomeD [OF assms(10)] by (auto simp: nat_ready_def)
  moreover have "get_tun w t = Some c" "tc_usernat c = Some u" using assms(1) by (auto simp: nat_ready_def)
  ultimately have "find_link env w t b p = Some (a, False, b', w)"
    using assms(4-10) rd hit(1) b'(1)
    by (simp add: find_link_def ip4_addr_eq_def find_link4_out)
  then show ?thesis using b' by blast
qed

lemma find_link_in:
  assumes "nat_ready w t c u dc" "endpoints b sa sp (remote4 u) dp"
    and "ip_header p = Some 0" "ipver p = 4" "payload_proto p = IPPROTO_TCP"
    and "src_port p = sp" "dst_port p = dp"
  shows "find_link env w t b p = Some (case find (\<lambda>(a, l). match_in l (local4 u) dp sp) (nat_links u) of
    None \<Rightarrow> 0 | Some (a, _) \<Rightarrow> a, True, b, w)"
proof -
  have rd: "rd32 b 16 = Some (remote4 u)" "rd32 b 12 = Some sa" using assms(2) by (simp_all add: endpoints_def)
  have g: "get_tun w t = Some c" "tc_usernat c = Some u" "\<forall>(a, l) \<in> set (nat_links u). usernat_ctx l = t"
    using assms(1) by (auto simp: nat_ready_def)
  then have "get_usernat w t = Some u" by (simp add: get_usernat_def)
  from find_link4_in [OF this g(3)] show ?thesis
    using assms(3-7) rd g by (simp add: find_link_def ip4_addr_eq_def)
qed

text \<open>The part of \<open>usernat_tun_ctx_send\<close> after the link is found, for a link that does not
  queue.\<close>

lemma usernat_send_link:
  assumes "nat_ready w t c u dc" "ip_parse_packet (new_packet b len len) = Some p" "ipver p = 4"
    and "payload_proto p = IPPROTO_TCP" "payload_header p = Some ph"
    and "find_link env w t b p = Some (a, is_in, b0, w)" "(a, l) \<in> set (nat_links u)"
    and "\<not> enqueue_packets l"
    and "nat_rewrite c u l is_in ph b0 = Some b1" "ip4_calc_ip_checksum b1 len = Some (k, b2)"
    and "calc_payload_checksum4 IPPROTO_TCP b2 len = Some b3" "0 \<le> len" "len \<le> int (length b3)"
  shows "\<exists>res w'. usernat_tun_ctx_send env w t b len = Some (res, b3, w') \<and> nat_ready w' t c u dc \<and>
    last (w_io w') = Write (local_fd dc) (take (nat len) b3)"
proof -
  obtain rc where g: "get_tun w t = Some c" "tc_usernat c = Some u" "get_router w (tc_router c) = Some rc"
    "get_tun w (dev_tun rc) = Some dc" "tc_send dc = Dev_tun_send"
    using assms(1) by (auto simp: nat_ready_def)
  have a: "a \<noteq> 0" "map_of (nat_links u) a = Some l" using assms(1,7) by (auto simp: nat_ready_def)
  obtain w1 where w1: "pcap_output_write (pcap_out c) b3 len w = Some w1" "w_tuns w1 = w_tuns w"
    "w_routers w1 = w_routers w" using pcap_output_write_Some [OF assms(12,13)] by blast
  obtain w2 where w2: "pcap_output_write (pcap_out dc) b3 len w1 = Some w2" "w_tuns w2 = w_tuns w1"
    "w_routers w2 = w_routers w1" using pcap_output_write_Some [OF assms(12,13)] by blast
  let ?w = "emit (Write (local_fd dc) (take (nat len) b3)) w2"
  have same: "get_tun x y = get_tun w y" "get_router x z = get_router w z"
    if "w_tuns x = w_tuns w" "w_routers x = w_routers w" for x y z
    using that by (simp_all add: get_tun_def get_router_def)
  have s: "get_tun w1 (dev_tun rc) = Some dc" "get_router w1 (tc_router c) = Some rc"
    using same [of w1] w1(2,3) g by simp_all
  have "usernat_tun_ctx_send env w t b len = Some (e_write env (w_io ?w) (local_fd dc) (take (nat len) b3), b3, ?w)"
    using get_tun_nz [OF g(1)] assms(2-6,8-11) g a w1(1) w2(1) s
    by (simp add: usernat_tun_ctx_send_def dev_send_def dev_tun_send_def sys_write_def
        rd_bytes_take [OF assms(12,13)])
  moreover have "nat_ready ?w t c u dc"
    using assms(1) same [of ?w] w1(2,3) w2(2,3) by (simp add: nat_ready_def)
  ultimately show ?thesis by auto
qed

section \<open>Properties of the translation\<close>

lemma nat_send_out:
  assumes "nat_ready w t c u dc" "(a, l) \<in> set (nat_links u)" "\<not> enqueue_packets l"
    and "ip4_tcp_packet b len" "len < 2 ^ 31" "endpoints b (local4 u) sp da dp" "da \<noteq> remote4 u"
    and "find (\<lambda>(a, l). match_out l (local4 u) sp (translate (virtual_dns_ip4 c) (dns_ip4 c) da) dp)
      (nat_links u) = Some (a, l)"
  shows "\<exists>res b' w'. usernat_tun_ctx_send env w t b len = Some (res, b', w') \<and>
    delivered b' (remote4 u) sp (local4 u) (hop_port l) \<and> nat_ready w' t c u dc \<and>
    last (w_io w') = Write (local_fd dc) (take (nat len) b')"
proof -
  note B = tcp_packet_bounds [OF assms(4)]
  obtain p where p: "ip_parse_packet (new_packet b len len) = Some p" "ipver p = 4"
    "payload_proto p = IPPROTO_TCP" "ip_header p = Some 0" "payload_header p = Some (tcp_offs b)"
    "src_port p = sp" "dst_port p = dp"
    using parse_endpoints [OF assms(4,6,5)] by blast
  obtain b0 where b0: "find_link env w t b p = Some (a, False, b0, w)" "ip4_tcp_packet b0 len"
    "tcp_offs b0 = tcp_offs b" "length b0 = length b"
    "endpoints b0 (local4 u) sp (translate (virtual_dns_ip4 c) (dns_ip4 c) da) dp"
    using find_link_out [OF assms(1,4,6,7) p(4,2,3,6,7) assms(8)] by blast
  obtain b1 k b2 b3 where r: "nat_rewrite c u l False (tcp_offs b0) b0 = Some b1"
    "ip4_calc_ip_checksum b1 len = Some (k, b2)" "calc_payload_checksum4 IPPROTO_TCP b2 len = Some b3"
    "delivered b3 (remote4 u) sp (local4 u) (hop_port l)" "length b3 = length b0"
    using nat_rewrite_out [OF b0(2,5)] by blast
  have "0 \<le> len" "len \<le> int (length b3)" using B r(5) b0(4) by auto
  from usernat_send_link [OF assms(1) p(1,2,3,5) b0(1) assms(2,3) r(1) [unfolded b0(3)] r(2,3) this] r(4)
  show ?thesis by blast
qed

lemma nat_send_in:
  assumes "nat_ready w t c u dc" "(a, l) \<in> set (nat_links u)" "\<not> enqueue_packets l"
    and "ip4_tcp_packet b len" "len < 2 ^ 31" "endpoints b sa sp (remote4 u) dp"
    and "find (\<lambda>(a, l). match_in l (local4 u) dp sp) (nat_links u) = Some (a, l)"
  shows "\<exists>res b' w'. usernat_tun_ctx_send env w t b len = Some (res, b', w') \<and>
    delivered b' (translate (dns_ip4 c) (virtual_dns_ip4 c) (real_dst_addr l)) (real_dst_port l)
      (local4 u) dp \<and> nat_ready w' t c u dc \<and>
    last (w_io w') = Write (local_fd dc) (take (nat len) b')"
proof -
  note B = tcp_packet_bounds [OF assms(4)]
  obtain p where p: "ip_parse_packet (new_packet b len len) = Some p" "ipver p = 4"
    "payload_proto p = IPPROTO_TCP" "ip_header p = Some 0" "payload_header p = Some (tcp_offs b)"
    "src_port p = sp" "dst_port p = dp"
    using parse_endpoints [OF assms(4,6,5)] by blast
  have f: "find_link env w t b p = Some (a, True, b, w)"
    using find_link_in [OF assms(1,6) p(4,2,3,6,7)] assms(7) by simp
  obtain b1 k b2 b3 where r: "nat_rewrite c u l True (tcp_offs b) b = Some b1"
    "ip4_calc_ip_checksum b1 len = Some (k, b2)" "calc_payload_checksum4 IPPROTO_TCP b2 len = Some b3"
    "delivered b3 (translate (dns_ip4 c) (virtual_dns_ip4 c) (real_dst_addr l)) (real_dst_port l)
      (local4 u) dp" "length b3 = length b"
    using nat_rewrite_in [OF assms(4,6)] by blast
  have "0 \<le> len" "len \<le> int (length b3)" using B r(5) by auto
  from usernat_send_link [OF assms(1) p(1,2,3,5) f assms(2,3) r(1,2,3) this] r(4)
  show ?thesis by blast
qed

text \<open>C3: the NAT is invisible to the application. A TCP packet of an established link
  from \<open>local4:sp\<close> to \<open>da:dp\<close> (an address that may be a virtual DNS server) is written to
  the TUN device as a packet from \<open>remote4:sp\<close> to the listening socket of the link, and the
  reply of that socket is then written as a packet from \<open>da:dp\<close> to \<open>local4:sp\<close>; both
  carry valid checksums. The two DNS tables must undo each other at \<open>da\<close>.\<close>

theorem nat_round_trip:
  assumes "nat_ready w t c u dc" "(a, l) \<in> set (nat_links u)" "\<not> enqueue_packets l"
    and "ip4_tcp_packet b len" "len < 2 ^ 31" "endpoints b (local4 u) sp da dp" "da \<noteq> remote4 u"
    and "find (\<lambda>(a, l). match_out l (local4 u) sp (translate (virtual_dns_ip4 c) (dns_ip4 c) da) dp)
      (nat_links u) = Some (a, l)"
    and "translate (dns_ip4 c) (virtual_dns_ip4 c) (translate (virtual_dns_ip4 c) (dns_ip4 c) da) = da"
    and "ip4_tcp_packet r rlen" "rlen < 2 ^ 31" "endpoints r (local4 u) (hop_port l) (remote4 u) sp"
    and "find (\<lambda>(a, l'). match_in l' (local4 u) sp (hop_port l)) (nat_links u) = Some (a, l)"
  shows "\<exists>res b' w'. usernat_tun_ctx_send env w t b len = Some (res, b', w') \<and>
    delivered b' (remote4 u) sp (local4 u) (hop_port l) \<and>
    last (w_io w') = Write (local_fd dc) (take (nat len) b') \<and>
    (\<exists>res r' w''. usernat_tun_ctx_send env w' t r rlen = Some (res, r', w'') \<and>
      delivered r' da dp (local4 u) sp \<and>
      last (w_io w'') = Write (local_fd dc) (take (nat rlen) r'))"
proof -
  obtain res b' w' where o: "usernat_tun_ctx_send env w t b len = Some (res, b', w')"
    "delivered b' (remote4 u) sp (local4 u) (hop_port l)" "nat_ready w' t c u dc"
    "last (w_io w') = Write (local_fd dc) (take (nat len) b')"
    using nat_send_out [OF assms(1-8)] by blast
  have "match_out l (local4 u) sp (translate (virtual_dns_ip4 c) (dns_ip4 c) da) dp"
    using find_SomeD [OF assms(8)] by simp
  then have "translate (dns_ip4 c) (virtual_dns_ip4 c) (real_dst_addr l) = da" "real_dst_port l = dp"
    using assms(9) by (simp_all add: match_out_def)
  moreover obtain res' r' w'' where i: "usernat_tun_ctx_send env w' t r rlen = Some (res', r', w'')"
    "delivered r' (translate (dns_ip4 c) (virtual_dns_ip4 c) (real_dst_addr l)) (real_dst_port l) (local4 u) sp"
    "last (w_io w'') = Write (local_fd dc) (take (nat rlen) r')"
    using nat_send_in [OF o(3) assms(2,3) assms(10-13)] by blast
  ultimately show ?thesis using o by auto
qed

definition sample_link :: nat_link where
  "sample_link = \<lparr>link_type = NAT_LINK_TCP4, sock_accept = 30, sock_connect = 31,
     enqueue_packets = False, packets_queue = 0, socat_pid = 77, hop_port = 4000, cycles_to_live = 0,
     usernat_ctx = 1, real_src_addr = 0x0A000001, real_src_port = 80, real_dst_addr = 0x08080808,
     real_dst_port = 90\<rparr>"

definition sample_usernat :: usernat where
  "sample_usernat = \<lparr>original_destroy = Destroy_tun_ctx, local4 = 0x0A000001, local6 = replicate 16 0,
     remote4 = 0x0A000063, remote6 = replicate 16 0, nat_links = [(40, sample_link)],
     j_usernat_tun = Some 50\<rparr>"

definition sample_nat :: tun_ctx where
  "sample_nat = sample_tun\<lparr>tc_send := Usernat_tun_ctx_send, tc_router := 2,
     tc_usernat := Some sample_usernat\<rparr>"

definition nat_dev :: tun_ctx where
  "nat_dev = zero_tun\<lparr>tc_send := Dev_tun_send, ref_count := 1, local_fd := 9\<rparr>"

definition nat_router :: router_ctx where
  "nat_router = \<lparr>dev_tun = 3, ip4_routes = [], ip4_routes_count = 0, ip4_default = 0,
     ip6_routes = None, ip6_routes_count = 0, ip6_default = 0, epoll_fd = 7, epoll_links = None,
     epoll_links_capacity = 0, epoll_links_count = 0, routes_updated = False, paused = False,
     terminate = False\<rparr>"

definition nat_world :: world where
  "nat_world = set_router 2 nat_router (set_tun 3 nat_dev (set_tun 1 sample_nat empty_world))"

lemma nat_world_get [simp]:
  "get_router nat_world 2 = Some nat_router" "get_tun nat_world 3 = Some nat_dev"
  "get_tun nat_world (Suc 0) = Some sample_nat"
  by (simp_all add: nat_world_def)

lemma sample_nat_simps [simp]:
  "tc_usernat sample_nat = Some sample_usernat" "tc_router sample_nat = 2" "dev_tun nat_router = 3"
  "tc_send nat_dev = Dev_tun_send" "nat_links sample_usernat = [(40, sample_link)]"
  "local4 sample_usernat = 0x0A000001" "remote4 sample_usernat = 0x0A000063"
  "usernat_ctx sample_link = 1" "\<not> enqueue_packets sample_link" "hop_port sample_link = 4000"
  "virtual_dns_ip4 sample_nat = [0x0A000002, 0, 0, 0]" "dns_ip4 sample_nat = [0x08080808, 0, 0, 0]"
  by (simp_all add: sample_nat_def nat_router_def nat_dev_def sample_usernat_def sample_link_def sample_tun_def)

lemma nat_world_ready: "nat_ready nat_world 1 sample_nat sample_usernat nat_dev"
  by (simp add: nat_ready_def)

definition sample_reply :: bytes where
  "sample_reply = [69,0,0,40, 0,2,0,0, 64,6,9,9, 10,0,0,1, 10,0,0,99,
     15,160,0,80, 0,0,0,1, 0,0,0,2, 80,18,16,0, 7,7,0,0]"

lemma sample_reply_tcp: "ip4_tcp_packet sample_reply 40"
  by (simp add: ip4_tcp_packet_def sample_reply_def hdr_ihl_def ip4_tcp_len_def word_at_def be16_def
      ipproto_defs)

lemma sample_endpoints:
  "endpoints sample_ip4 0x0A000001 80 0x0A000002 90" "endpoints sample_reply 0x0A000001 4000 0x0A000063 80"
  by code_simp+

theorem nat_round_trip_witness:
  "\<exists>res b' w'. usernat_tun_ctx_send sample_env nat_world 1 sample_ip4 40 = Some (res, b', w') \<and>
    delivered b' 0x0A000063 80 0x0A000001 4000 \<and>
    (\<exists>res r' w''. usernat_tun_ctx_send sample_env w' 1 sample_reply 40 = Some (res, r', w'') \<and>
      delivered r' 0x0A000002 90 0x0A000001 80)"
proof -
  have "match_out sample_link 0x0A000001 80 0x08080808 90" "match_in sample_link 0x0A000001 80 4000"
    by (simp_all add: match_out_def match_in_def sample_link_def)
  moreover have "translate [0x0A000002, 0, 0, 0] [0x08080808, 0, 0, 0] 0x0A000002 = 0x08080808"
    "translate [0x08080808, 0, 0, 0] [0x0A000002, 0, 0, 0] 0x08080808 = 0x0A000002"
    by (simp_all add: translate_def)
  ultimately show ?thesis
    using nat_round_trip [OF nat_world_ready, of 40 sample_link sample_ip4 40 80 "0x0A000002" 90
        sample_reply 40 sample_env] sample_ip4_tcp sample_reply_tcp sample_endpoints
    by auto
qed

end
