(* ===== verification/NatLinks.thy ===== *)
theory NatLinks
  imports NatProps
begin

text \<open>
  The life of a link of the NAT: packets without one, packets that wait in its queue, the
  report of the \<open>socat\<close> process and the ways in which opening it fails.
\<close>

section \<open>Writes to a descriptor\<close>

definition written :: "int \<Rightarrow> io list \<Rightarrow> bytes list" where
  "written fd io = concat (map (\<lambda>e. case e of Write fd' d \<Rightarrow> if fd' = fd then [d] else [] | _ \<Rightarrow> []) io)"

lemma written_simps [simp]:
  "written fd [] = []" "written fd (x @ y) = written fd x @ written fd y"
  "written fd [Write fd d] = [d]" "written fd [Pcap_write j d] = []" "written fd [Close s] = []"
  by (simp_all add: written_def)

lemma get_mem [simp]:
  "get_tun (w\<lparr>w_mem := m\<rparr>) t = get_tun w t" "get_router (w\<lparr>w_mem := m\<rparr>) r = get_router w r"
  by (simp_all add: get_tun_def get_router_def)

text \<open>Packets that can be sent: their buffer is there and holds as many bytes as they claim.\<close>

definition whole :: "packet_entry \<Rightarrow> bool" where
  "whole e \<longleftrightarrow> (\<exists>d. fst (snd e) = Some d \<and> 0 \<le> snd (snd e) \<and> snd (snd e) \<le> int (length d))"

definition entry_bytes :: "packet_entry \<Rightarrow> bytes" where
  "entry_bytes e = take (nat (snd (snd e))) (the (fst (snd e)))"

lemma dev_send_written:
  assumes "get_tun w dev = Some dc" "tc_send dc = Dev_tun_send" "0 \<le> n" "n \<le> int (length d)"
  shows "\<exists>res w'. dev_send env w dev d n = Some (res, d, w') \<and> w_mem w' = w_mem w \<and>
    w_tuns w' = w_tuns w \<and> written (local_fd dc) (w_io w') = written (local_fd dc) (w_io w) @ [take (nat n) d]"
proof -
  obtain w1 where "pcap_output_write (pcap_out dc) d n w = Some w1" "w_tuns w1 = w_tuns w"
    "w_mem w1 = w_mem w" "written (local_fd dc) (w_io w1) = written (local_fd dc) (w_io w)"
    using pcap_output_write_Some [OF assms(3,4), of "pcap_out dc" w] by auto
  then show ?thesis using assms
    by (simp add: dev_send_def dev_tun_send_def sys_write_def rd_bytes_take)
qed

lemma flush_queue_writes:
  assumes "queue_rep q (w_mem w) es" "get_tun w dev = Some dc" "tc_send dc = Dev_tun_send"
    and "\<forall>e \<in> set es. whole e"
  shows "\<exists>w'. flush_queue env w dev q = Some w' \<and> queue_rep q (w_mem w') [] \<and>
    w_tuns w' = w_tuns w \<and>
    (\<forall>p. Queues.links (w_mem w') p = (if p \<in> fst ` set es then None else Queues.links (w_mem w) p)) \<and>
    written (local_fd dc) (w_io w') = written (local_fd dc) (w_io w) @ map entry_bytes es"
  using assms
proof (induction es arbitrary: w)
  case Nil
  then show ?case
    by (intro exI [of _ w]) (simp add: flush_queue.simps queue_get_empty)
next
  case (Cons e es)
  obtain a d n where e: "e = (a, Some d, n)" "0 \<le> n" "n \<le> int (length d)"
    using Cons.prems(4) by (cases e) (auto simp: whole_def)
  obtain m1 where g: "queue_get (w_mem w) q = Some (a, m1)" "queue_rep q m1 es"
    "Queues.links m1 = (Queues.links (w_mem w))(a \<mapsto> \<lparr>ql_next = 0, ql_buff = Some d, ql_size = n\<rparr>)" "a \<noteq> 0"
    using queue_get_Cons [OF Cons.prems(1) [unfolded e(1)]] by blast
  obtain res w1 where s: "dev_send env (w\<lparr>w_mem := m1\<rparr>) dev d n = Some (res, d, w1)" "w_mem w1 = m1"
    "w_tuns w1 = w_tuns w"
    "written (local_fd dc) (w_io w1) = written (local_fd dc) (w_io w) @ [take (nat n) d]"
    using dev_send_written [OF _ Cons.prems(3) e(2,3), of "w\<lparr>w_mem := m1\<rparr>" dev env] Cons.prems(2)
    by auto
  let ?m2 = "m1\<lparr>links := (Queues.links m1)(a := None)\<rparr>"
  have d: "queue_link_deinit (w_mem w1) a = Some (True, ?m2)"
    using g s(2) by (simp add: queue_link_deinit_def)
  have a: "a \<notin> fst ` set es" using Cons.prems(1) e(1) by (auto simp: queue_rep_def)
  then have "queue_rep q ?m2 es" using g(2) by (auto simp: queue_rep_def chain_update_other)
  moreover have "get_tun (w1\<lparr>w_mem := ?m2\<rparr>) dev = Some dc"
    using Cons.prems(2) s(3) by (simp add: get_tun_def split: if_splits)
  ultimately obtain w' where w': "flush_queue env (w1\<lparr>w_mem := ?m2\<rparr>) dev q = Some w'"
    "queue_rep q (w_mem w') []" "w_tuns w' = w_tuns w" "\<forall>p. Queues.links (w_mem w') p = (if p \<in> fst ` set es then None else Queues.links ?m2 p)"
    "written (local_fd dc) (w_io w') = written (local_fd dc) (w_io w1) @ map entry_bytes es"
    using Cons.IH [of "w1\<lparr>w_mem := ?m2\<rparr>"] Cons.prems(3,4) s(3) by auto
  have "flush_queue env w dev q = Some w'"
    using g(1,3,4) s(1) d w'(1) by (simp add: flush_queue.simps [of env w])
  moreover have "Queues.links (w_mem w') p = (if p \<in> fst ` set (e # es) then None
      else Queues.links (w_mem w) p)" for p
    using w'(4) g(3) e(1) by auto
  ultimately show ?case using w'(2,3,5) s(4) e(1) by (auto simp: entry_bytes_def)
qed

section \<open>The report of a process\<close>

lemma pid_walk_running:
  "\<forall>(x, k) \<in> set ls. socat_pid k \<noteq> - 1 \<Longrightarrow> distinct (map fst ls) \<Longrightarrow> (a, l) \<in> set ls \<Longrightarrow>
     \<exists>i < length ls. pid_walk a ls = (ls, [], Some i) \<and> ls ! i = (a, l) \<and>
       (\<forall>y. ls[i := (a, y)] = map (\<lambda>(x, k). if x = a then (a, y) else (x, k)) ls)"
proof (induction ls)
  case (Cons x ls)
  obtain b k where x: "x = (b, k)" by (cases x)
  have k: "socat_pid k \<noteq> - 1" using Cons.prems(1) x by auto
  show ?case
  proof (cases "b = a")
    case True
    then have "k = l" "\<forall>z \<in> set ls. fst z \<noteq> a" using Cons.prems(2,3) x by (force simp: image_iff)+
    moreover from this(2) have "map (\<lambda>(x, k). if x = a then (a, y) else (x, k)) ls = ls" for y
      by (intro map_idI) auto
    ultimately show ?thesis using x True k by (intro exI [of _ 0]) simp
  next
    case False
    then obtain i where "i < length ls" "pid_walk a ls = (ls, [], Some i)" "ls ! i = (a, l)"
      "\<forall>y. ls[i := (a, y)] = map (\<lambda>(x, k). if x = a then (a, y) else (x, k)) ls"
      using Cons x by auto
    then show ?thesis using x False k by (intro exI [of _ "Suc i"]) simp
  qed
qed simp

lemma upd_usernat_Some:
  assumes "get_tun w t = Some c" "tc_usernat c = Some u"
  shows "upd_usernat t f w = Some (set_tun t (c\<lparr>tc_usernat := Some (f u)\<rparr>) w)"
  using assms by (simp add: upd_usernat_def)

text \<open>C14: packets that wait for \<open>socat\<close> are neither lost nor reordered. When the process
  of a link is reported (and no other link has failed), the packets of its queue are
  written to the TUN device in the order in which they arrived, the queue and its cells are
  freed, and the link stops queueing; the other links stay as they are.\<close>

theorem socat_report_flushes:
  assumes "nat_ready w t c u dc" "get_router w (tc_router c) = Some rc" "dev_tun rc \<noteq> t"
    and "(a, l) \<in> set (nat_links u)" "\<forall>(x, k) \<in> set (nat_links u). socat_pid k \<noteq> - 1"
    and "queue_rep (packets_queue l) (w_mem w) es" "\<forall>e \<in> set es. whole e" "pid \<noteq> - 1"
  shows "\<exists>w'. usernat_set_pid_for_link env w t a pid = Some w' \<and>
    written (local_fd dc) (w_io w') = written (local_fd dc) (w_io w) @ map entry_bytes es \<and>
    queues (w_mem w') (packets_queue l) = None \<and> (\<forall>p \<in> fst ` set es. Queues.links (w_mem w') p = None) \<and>
    get_usernat w' t = Some (u\<lparr>nat_links := map (\<lambda>(x, k). if x = a
      then (a, l\<lparr>socat_pid := pid, enqueue_packets := False, packets_queue := 0\<rparr>) else (x, k)) (nat_links u)\<rparr>)"
proof -
  let ?q = "packets_queue l"
  let ?l = "l\<lparr>socat_pid := pid, enqueue_packets := False, packets_queue := 0\<rparr>"
  let ?ls = "map (\<lambda>(x, k). if x = a then (a, ?l) else (x, k)) (nat_links u)"
  have g: "get_tun w t = Some c" "tc_usernat c = Some u" "a \<noteq> 0" "distinct (map fst (nat_links u))"
    "get_tun w (dev_tun rc) = Some dc" "tc_send dc = Dev_tun_send"
    using assms(1,2,4) by (auto simp: nat_ready_def)
  obtain i where i: "pid_walk a (nat_links u) = (nat_links u, [], Some i)" "nat_links u ! i = (a, l)"
    "(nat_links u)[i := (a, ?l)] = ?ls"
    using pid_walk_running [OF assms(5) g(4) assms(4)] by blast
  let ?w = "set_tun t (c\<lparr>tc_usernat := Some (u\<lparr>nat_links := ?ls\<rparr>)\<rparr>) w"
  have q: "?q \<noteq> 0" using assms(6) by (simp add: queue_rep_def)
  have t: "t \<noteq> 0" using get_tun_nz g(1) by blast
  have d: "get_tun ?w (dev_tun rc) = Some dc" using assms(3) g(5) by simp
  obtain w1 where w1: "flush_queue env ?w (dev_tun rc) ?q = Some w1" "queue_rep ?q (w_mem w1) []"
    "w_tuns w1 = w_tuns ?w"
    "\<forall>p. Queues.links (w_mem w1) p = (if p \<in> fst ` set es then None else Queues.links (w_mem ?w) p)"
    "written (local_fd dc) (w_io w1) = written (local_fd dc) (w_io ?w) @ map entry_bytes es"
    using flush_queue_writes [OF _ d g(6) assms(7), of ?q] assms(6) by auto
  from queue_drain_frees [OF w1(2)] obtain m where m: "queue_deinit (w_mem w1) ?q = Some (True, m)"
    "queues m ?q = None" "Queues.links m = Queues.links (w_mem w1)"
    using q by (fastforce simp: queue_deinit_def)
  have "usernat_set_pid_for_link env w t a pid = Some (w1\<lparr>w_mem := m\<rparr>)"
    using t g(1-3) i assms(2,8) q w1(1) m(1)
    by (simp add: usernat_set_pid_for_link_def upd_usernat_Some)
  moreover have "get_tun w1 t = get_tun ?w t" using w1(3) by (simp only: get_tun_def)
  then have "get_usernat w1 t = Some (u\<lparr>nat_links := ?ls\<rparr>)" using t by (simp add: get_usernat_def)
  ultimately show ?thesis using w1(4,5) m by (simp add: get_usernat_def)
qed

definition waiting_mem :: qmem where
  "waiting_mem = \<lparr>links = [2 \<mapsto> \<lparr>ql_next = 3, ql_buff = Some [69, 1], ql_size = 2\<rparr>,
     3 \<mapsto> \<lparr>ql_next = 0, ql_buff = Some [69, 2, 0], ql_size = 2\<rparr>],
     queues = [1 \<mapsto> \<lparr>head_link = 2, tail_link = 3\<rparr>]\<rparr>"

definition waiting_link :: nat_link where
  "waiting_link = sample_link\<lparr>enqueue_packets := True, packets_queue := 1, socat_pid := 0\<rparr>"

definition waiting_usernat :: usernat where
  "waiting_usernat = sample_usernat\<lparr>nat_links := [(40, waiting_link)]\<rparr>"

definition waiting_nat :: tun_ctx where
  "waiting_nat = sample_nat\<lparr>tc_usernat := Some waiting_usernat\<rparr>"

definition waiting_world :: world where
  "waiting_world = (set_tun 1 waiting_nat nat_world)\<lparr>w_mem := waiting_mem\<rparr>"

lemma waiting_get [simp]:
  "get_router waiting_world 2 = Some nat_router" "get_tun waiting_world 3 = Some nat_dev"
  "get_tun waiting_world (Suc 0) = Some waiting_nat" "w_mem waiting_world = waiting_mem"
  "tc_usernat waiting_nat = Some waiting_usernat" "tc_router waiting_nat = 2"
  "nat_links waiting_usernat = [(40, waiting_link)]" "usernat_ctx waiting_link = 1"
  "packets_queue waiting_link = 1" "socat_pid waiting_link = 0" "local_fd nat_dev = 9"
  "w_io waiting_world = []"
  by (simp_all add: waiting_world_def waiting_nat_def waiting_usernat_def waiting_link_def nat_dev_def
      nat_world_def empty_world_def)

lemma waiting_ready: "nat_ready waiting_world 1 waiting_nat waiting_usernat nat_dev"
  by (simp add: nat_ready_def)

lemma waiting_queue: "queue_rep 1 waiting_mem [(2, Some [69, 1], 2), (3, Some [69, 2, 0], 2)]"
  by (simp add: queue_rep_def waiting_mem_def)

theorem socat_report_flushes_witness:
  "\<exists>w'. usernat_set_pid_for_link sample_env waiting_world 1 40 77 = Some w' \<and>
     written 9 (w_io w') = [[69, 1], [69, 2]] \<and> queues (w_mem w') 1 = None"
  using socat_report_flushes [OF waiting_ready, of nat_router 40 waiting_link
      "[(2, Some [69, 1], 2), (3, Some [69, 2, 0], 2)]" 77 sample_env] waiting_queue
  by (auto simp: whole_def entry_bytes_def)

text \<open>A link whose tunnel Java refuses to build is released at once. The report of -1
  comes while the link still has no cycles to live, so the walk removes it before it can get
  the 100 cycles: the link leaves the list, its queue and the packets in it are freed, and
  nothing is written. The other links, none of them failed, stay.\<close>

lemma refused_link_freed:
  assumes "get_tun w t = Some c" "tc_usernat c = Some u" "nat_links u = (a, l) # ls" "a \<noteq> 0"
    and "socat_pid l = - 1" "cycles_to_live l = 0" "queue_rep (packets_queue l) (w_mem w) es"
    and "a \<notin> fst ` set ls" "\<forall>(x, k) \<in> set ls. socat_pid k \<noteq> - 1"
  shows "\<exists>w'. usernat_set_pid_for_link env w t a pid = Some w' \<and>
    get_usernat w' t = Some (u\<lparr>nat_links := ls\<rparr>) \<and> w_io w' = w_io w \<and>
    queues (w_mem w') (packets_queue l) = None \<and> (\<forall>p \<in> fst ` set es. Queues.links (w_mem w') p = None)"
proof -
  have "\<forall>(x, k) \<in> set ls. socat_pid k \<noteq> - 1 \<Longrightarrow> a \<notin> fst ` set ls \<Longrightarrow> pid_walk a ls = (ls, [], None)"
    by (induction ls) auto
  then have p: "pid_walk a (nat_links u) = (ls, [l], None)" using assms by simp
  have q: "packets_queue l \<noteq> 0" and t: "t \<noteq> 0"
    using assms(1,7) get_tun_nz by (auto simp: queue_rep_def)
  from queue_drain_frees [OF assms(7)] obtain m where m: "queue_deinit (w_mem w) (packets_queue l) = Some (True, m)"
    "queues m (packets_queue l) = None" "\<forall>p \<in> fst ` set es. Queues.links m p = None"
    using q by (fastforce simp: queue_deinit_def)
  then show ?thesis using assms(1,2,4) t p
    by (simp add: usernat_set_pid_for_link_def link_deinit_def upd_usernat_Some get_usernat_def)
qed

definition refused_world :: world where
  "refused_world = (set_tun 1 (waiting_nat\<lparr>tc_usernat := Some (waiting_usernat\<lparr>nat_links :=
     [(40, waiting_link\<lparr>socat_pid := - 1\<rparr>)]\<rparr>)\<rparr>) nat_world)\<lparr>w_mem := waiting_mem\<rparr>"

theorem refused_link_freed_witness:
  "\<exists>w'. usernat_set_pid_for_link sample_env refused_world 1 40 (- 1) = Some w' \<and>
     map_option nat_links (get_usernat w' 1) = Some [] \<and> queues (w_mem w') 1 = None"
proof -
  have "cycles_to_live waiting_link = 0" by (simp add: waiting_link_def sample_link_def)
  then show ?thesis
    using refused_link_freed [of refused_world 1 _ _ 40 "waiting_link\<lparr>socat_pid := - 1\<rparr>" "[]" _ sample_env "- 1"]
      waiting_queue by (fastforce simp: refused_world_def)
qed

section \<open>Failures and strays\<close>

text \<open>A packet for the NAT address that belongs to no link is dropped: the send function
  reports 0 bytes, changes neither the packet nor any state, and nothing is written.\<close>

lemma stray_packet_dropped:
  assumes "nat_ready w t c u dc" "ip4_tcp_packet b len" "len < 2 ^ 31"
    and "endpoints b sa sp (remote4 u) dp"
    and "\<forall>(a, l) \<in> set (nat_links u). \<not> match_in l (local4 u) dp sp"
  shows "usernat_tun_ctx_send env w t b len = Some (0, b, w)"
proof -
  obtain p where p: "ip_parse_packet (new_packet b len len) = Some p" "ipver p = 4"
    "payload_proto p = IPPROTO_TCP" "ip_header p = Some 0" "src_port p = sp" "dst_port p = dp"
    using parse_endpoints [OF assms(2,4,3)] by blast
  have "find (\<lambda>(a, l). match_in l (local4 u) dp sp) (nat_links u) = None"
    using assms(5) by (auto simp: find_None_iff)
  then have "find_link env w t b p = Some (0, True, b, w)"
    using find_link_in [OF assms(1,4) p(4,2,3,5,6)] by simp
  moreover have "t \<noteq> 0" using assms(1) get_tun_nz by (auto simp: nat_ready_def)
  ultimately show ?thesis using p(1) by (simp add: usernat_tun_ctx_send_def)
qed

definition stray_packet :: bytes where
  "stray_packet = sample_reply[20 := 9]"

theorem stray_packet_dropped_witness:
  "usernat_tun_ctx_send sample_env nat_world 1 stray_packet 40 = Some (0, stray_packet, nat_world)"
proof (rule stray_packet_dropped [OF nat_world_ready])
  show "ip4_tcp_packet stray_packet 40"
    by (simp add: ip4_tcp_packet_def stray_packet_def sample_reply_def hdr_ihl_def ip4_tcp_len_def
        word_at_def be16_def ipproto_defs)
  show "endpoints stray_packet 0x0A000001 2464 (remote4 sample_usernat) 80" by code_simp
qed (simp_all add: match_in_def sample_link_def)

text \<open>Opening a link leaks its listening socket when the NAT address cannot be bound.
  For a TCP connection the socket is made and never closed, so every retransmitted SYN costs
  a descriptor; the code for UDP closes it.\<close>

lemma create_link_bind_failure:
  assumes "get_usernat w t = Some u" "payload_header p = Some ph" "rd8 b (ph + 13) = Some flags"
    and "flags AND 2 \<noteq> 0" "e_socket env (w_io w @ [Socket AF_SOCK_STREAM 6]) = s" "s \<noteq> - 1"
    and "e_socket env (w_io w @ [Socket AF_SOCK_DGRAM 17]) = s"
    and "\<not> e_bind env (w_io w @ [Socket AF_SOCK_STREAM 6, Bind s (local4 u)])"
    and "\<not> e_bind env (w_io w @ [Socket AF_SOCK_DGRAM 17, Bind s (local4 u)])"
  shows "map_option (\<lambda>(r, w'). (r, w_io w')) (create_link env w t b p NAT_LINK_TCP4) =
      Some (None, w_io w @ [Socket AF_SOCK_STREAM 6, Bind s (local4 u)]) \<and>
    map_option (\<lambda>(r, w'). (r, w_io w')) (create_link env w t b p NAT_LINK_UDP4) =
      Some (None, w_io w @ [Socket AF_SOCK_DGRAM 17, Bind s (local4 u), Close s])"
  using assms
  by (simp add: create_link_def create_link_tcp4_def create_link_udp4_def create_socket_def
      NAT_LINK_TCP4_def NAT_LINK_UDP4_def)

definition no_bind_env :: env where
  "no_bind_env = sample_env\<lparr>e_bind := (\<lambda>_. False), e_socket := (\<lambda>_. 33)\<rparr>"

theorem create_link_bind_failure_witness:
  "map_option (\<lambda>(r, w'). (r, w_io w')) (create_link no_bind_env nat_world 1 sample_ip4
     ((new_packet sample_ip4 40 40)\<lparr>payload_header := Some 20\<rparr>) NAT_LINK_TCP4) =
     Some (None, [Socket AF_SOCK_STREAM 6, Bind 33 0x0A000001])"
proof -
  have "rd8 sample_ip4 33 = Some 2" by (simp add: rd8_def sample_ip4_def)
  moreover have "w_io nat_world = []" by (simp add: nat_world_def empty_world_def)
  ultimately show ?thesis
    using create_link_bind_failure [of nat_world 1 sample_usernat
        "(new_packet sample_ip4 40 40)\<lparr>payload_header := Some 20\<rparr>" 20 sample_ip4 2 no_bind_env 33]
    by (simp add: get_usernat_def no_bind_env_def)
qed

end
