(* ===== verification/Usernatd.thy ===== *)
theory Usernatd
  imports Prelude
begin

text \<open>
  The helper process of the NAT, \<open>usernat/usernat.c\<close>. It connects to a control socket, receives
  framed commands (two bytes of length, then the text) together with socket descriptors, and
  for the command \<open>socat\<close> forks a child that copies bytes between the two sockets.

  The state is one record; calls to the system are appended to its history \<open>nd_io\<close>, and the
  environment answers each call from the history that ends with it. The library is built for
  ARM, where \<open>char\<close> is unsigned, and for x86, where it is signed; \<open>schar\<close> says which. Log
  output to Android is left out, the log messages sent over the control socket are not.
  \<open>recvmsg\<close> is the call that returns after the retries for \<open>EINTR\<close>.
\<close>

section \<open>Text\<close>

definition ascii :: "string \<Rightarrow> bytes" where
  "ascii s = map (\<lambda>c. of_nat (of_char c)) s"

text \<open>\<open>printf\<close> with \<open>%d\<close>.\<close>

fun dec_digits :: "nat \<Rightarrow> bytes" where
  "dec_digits n = (if n < 10 then [of_nat (48 + n)] else dec_digits (n div 10) @ [of_nat (48 + n mod 10)])"

declare dec_digits.simps [simp del]

definition dec_int :: "int \<Rightarrow> bytes" where
  "dec_int i = (if i < 0 then 45 # dec_digits (nat (- i)) else dec_digits (nat i))"

text \<open>\<open>strncmp(p, s, n) == 0\<close> where \<open>p\<close> points into memory and \<open>s\<close> is a string constant (with its
  terminator); reading past the end of the memory is a fault.\<close>

fun strneq :: "bytes \<Rightarrow> bytes \<Rightarrow> nat \<Rightarrow> bool option" where
  "strneq p s 0 = Some True"
| "strneq [] s (Suc n) = None"
| "strneq (c # p) s (Suc n) =
     (case s of [] \<Rightarrow> None
      | d # s \<Rightarrow> if c \<noteq> d then Some False else if c = 0 then Some True else strneq p s n)"

section \<open>Events and state\<close>

datatype natd_io =
    N_poll
  | N_poll2 int int
  | N_send int bytes
  | N_recv int nat
  | N_fork
  | N_waitpid
  | N_close int
  | N_shutdown int
  | N_accept int
  | N_getsockopt int
  | N_read int nat
  | N_write int bytes
  | N_socket
  | N_bind int
  | N_connect int bytes
  | N_exec bytes

record natd =
  nd_control :: int
  nd_bytes :: bytes
  nd_fds :: "int list"
  nd_accept :: int
  nd_connect :: int
  nd_socat_path :: bytes
  nd_io :: "natd_io list"

text \<open>A control message: whether its level is \<open>SOL_SOCKET\<close>, whether its type is \<open>SCM_RIGHTS\<close>, and
  its descriptors.\<close>

type_synonym cmsg = "bool \<times> bool \<times> int list"

datatype recv_result = Recv_failed bool | Received bytes bool "cmsg list"
datatype poll_result = Poll_failed bool | Polled u16

text \<open>\<open>Recv_failed\<close> says whether \<open>errno\<close> is \<open>EPIPE\<close>; \<open>Received\<close> has the data, whether one of the
  flags for truncation or errors is set, and the control messages. \<open>Poll_failed\<close> says whether
  \<open>errno\<close> is \<open>EINTR\<close>. \<open>e_poll2\<close> answers \<open>None\<close> for an error and otherwise the events of both
  sockets. \<open>e_errtext\<close> is the text about an error that goes into a log message.\<close>

record natd_env =
  ne_poll :: "natd_io list \<Rightarrow> poll_result"
  ne_poll2 :: "natd_io list \<Rightarrow> (u16 \<times> u16) option"
  ne_recv :: "natd_io list \<Rightarrow> recv_result"
  ne_fork :: "natd_io list \<Rightarrow> int"
  ne_waitpid :: "natd_io list \<Rightarrow> int"
  ne_sock_type :: "natd_io list \<Rightarrow> int option"
  ne_accept :: "natd_io list \<Rightarrow> int"
  ne_read :: "natd_io list \<Rightarrow> bytes option"
  ne_write :: "natd_io list \<Rightarrow> int"
  ne_socket :: "natd_io list \<Rightarrow> int"
  ne_connect :: "natd_io list \<Rightarrow> bool"
  ne_malloc :: "natd_io list \<Rightarrow> bool"
  ne_errtext :: "natd_io list \<Rightarrow> bytes"

datatype outcome = Go natd | Exit int natd

definition EXIT_SUCCESS :: int where "EXIT_SUCCESS = 0"
definition EXIT_NO_MEMORY :: int where "EXIT_NO_MEMORY = 1"
definition EXIT_CMD_SOCK_CONN :: int where "EXIT_CMD_SOCK_CONN = 2"
definition EXIT_CMD_PEER_ERROR :: int where "EXIT_CMD_PEER_ERROR = 3"
definition EXIT_CMD_PEER_HUP :: int where "EXIT_CMD_PEER_HUP = 4"
definition EXIT_CMD_POLL_ERROR :: int where "EXIT_CMD_POLL_ERROR = 5"
definition EXIT_EXEC_FAILED :: int where "EXIT_EXEC_FAILED = 6"

definition SOCAT_PATH_BUFF_SIZE :: nat where "SOCAT_PATH_BUFF_SIZE = 256"

definition POLLIN :: u16 where "POLLIN = 1"
definition POLLERR :: u16 where "POLLERR = 8"
definition POLLHUP :: u16 where "POLLHUP = 16"

definition nemit :: "natd_io \<Rightarrow> natd \<Rightarrow> natd" where
  "nemit e s = s\<lparr>nd_io := nd_io s @ [e]\<rparr>"

lemma nemit_simps [simp]:
  "nd_control (nemit e s) = nd_control s" "nd_bytes (nemit e s) = nd_bytes s"
  "nd_fds (nemit e s) = nd_fds s" "nd_accept (nemit e s) = nd_accept s"
  "nd_connect (nemit e s) = nd_connect s" "nd_socat_path (nemit e s) = nd_socat_path s"
  "nd_io (nemit e s) = nd_io s @ [e]"
  by (simp_all add: nemit_def)

section \<open>Sending a frame\<close>

text \<open>The frame of a command; commands that are too long are cut.\<close>

definition frame :: "bytes \<Rightarrow> bytes" where
  "frame cmd = (let total_len = min (length cmd) 0xFFFE in
     [of_nat (total_len div 256), of_nat (total_len mod 256)] @ take total_len cmd)"

definition send_cmd :: "natd_env \<Rightarrow> natd \<Rightarrow> bytes \<Rightarrow> natd" where
  "send_cmd env s cmd =
     (if ne_malloc env (nd_io s) then nemit (N_send (nd_control s) (frame cmd)) s else s)"

text \<open>A log message over the control socket; the buffer holds 65534 bytes and is zeroed, and
  \<open>vsnprintf\<close> keeps the last byte.\<close>

definition log_remote :: "natd_env \<Rightarrow> natd \<Rightarrow> bytes \<Rightarrow> natd" where
  "log_remote env s msg =
     (if ne_malloc env (nd_io s)
      then send_cmd env s (take 0xFFFD (ascii ''log [usernat] '' @ msg)) else s)"

text \<open>The answers to commands: \<open>resp_buff\<close> has 18 bytes.\<close>

definition respond :: "natd_env \<Rightarrow> natd \<Rightarrow> int \<Rightarrow> natd" where
  "respond env s code = send_cmd env s (take 17 (ascii ''resp '' @ dec_int code))"

definition sigchld_handler :: "natd_env \<Rightarrow> natd \<Rightarrow> natd" where
  "sigchld_handler env s =
     (let s = nemit N_waitpid s; pid = ne_waitpid env (nd_io s) in
      if pid > 0 then send_cmd env s (take 31 (ascii ''terminated '' @ dec_int pid)) else s)"

section \<open>The commands\<close>

text \<open>\<open>find_cmd\<close>: the length of the command word if the text starts with it and a space or the
  end of the string follows, -1 otherwise.\<close>

definition find_cmd :: "bytes \<Rightarrow> bytes \<Rightarrow> int \<Rightarrow> int option" where
  "find_cmd cmd buff len =
     (if len < int (length cmd) then Some (- 1)
      else do {
        eq \<leftarrow> strneq buff (cmd @ [0]) (length cmd);
        if \<not> eq then Some (- 1)
        else do {
          c \<leftarrow> rd8 buff (length cmd);
          if c = 0 \<or> c = 32 then Some (int (length cmd)) else Some (- 1)
        }
      })"

text \<open>\<open>p\<close> is the memory from the character behind the command word on and \<open>len\<close> the number of
  characters left. A \<open>memcpy\<close> with a negative length copies almost the whole address space,
  which is a fault.\<close>

definition process_socat_path :: "natd_env \<Rightarrow> natd \<Rightarrow> bytes \<Rightarrow> int \<Rightarrow> natd option" where
  "process_socat_path env s p len =
     (let len = len - 1 in
      if len > int SOCAT_PATH_BUFF_SIZE - 1 then Some (respond env s (- 1))
      else if len < 0 then None
      else do {
        d \<leftarrow> rd_bytes p 1 (nat len);
        path \<leftarrow> wr_bytes (replicate SOCAT_PATH_BUFF_SIZE 0) 0 d;
        Some (respond env (s\<lparr>nd_socat_path := path\<rparr>) 0)
      })"

definition process_accept_fd :: "natd_env \<Rightarrow> natd \<Rightarrow> natd option" where
  "process_accept_fd env s =
     (if nd_fds s = [] then None else Some (respond env (s\<lparr>nd_accept := nd_fds s ! 0\<rparr>) 0))"

definition process_connect_fd :: "natd_env \<Rightarrow> natd \<Rightarrow> natd option" where
  "process_connect_fd env s =
     (if nd_fds s = [] then None else Some (respond env (s\<lparr>nd_connect := nd_fds s ! 0\<rparr>) 0))"

section \<open>The relay of the child\<close>

text \<open>One direction of a turn: read at most 1500 bytes and write them to the other side. A short
  write is not noticed. The result \<open>None\<close> stands for the exit after an error.\<close>

definition relay_dir :: "natd_env \<Rightarrow> int \<Rightarrow> int \<Rightarrow> natd \<Rightarrow> bool \<times> natd" where
  "relay_dir env from to s =
     (let s = nemit (N_read from 1500) s in
      case ne_read env (nd_io s) of
        None \<Rightarrow> (False, s)
      | Some d \<Rightarrow>
          if d = [] then (True, s)
          else let s = nemit (N_write to (take 1500 d)) s in (0 \<le> ne_write env (nd_io s), s))"

definition close_both :: "int \<Rightarrow> int \<Rightarrow> natd \<Rightarrow> natd" where
  "close_both a b s = nemit (N_close b) (nemit (N_close a) s)"

text \<open>One turn of the loop: \<open>Inl\<close> is the exit of the process, \<open>Inr\<close> the next turn.\<close>

definition relay_turn :: "natd_env \<Rightarrow> int \<Rightarrow> int \<Rightarrow> natd \<Rightarrow> (int \<times> natd) + natd" where
  "relay_turn env a b s =
     (let s = nemit (N_poll2 a b) s in
      case ne_poll2 env (nd_io s) of
        None \<Rightarrow> Inl (EXIT_EXEC_FAILED, nemit (N_shutdown b) (nemit (N_shutdown a) s))
      | Some (ra, rb) \<Rightarrow>
          let (ok, s) = (if ra AND POLLIN \<noteq> 0 then relay_dir env a b s else (True, s)) in
          if \<not> ok then Inl (EXIT_EXEC_FAILED, close_both a b s)
          else
            let (ok, s) = (if rb AND POLLIN \<noteq> 0 then relay_dir env b a s else (True, s)) in
            if \<not> ok then Inl (EXIT_EXEC_FAILED, close_both a b s)
            else if ra AND POLLHUP \<noteq> 0 \<or> rb AND POLLHUP \<noteq> 0
            then Inl (EXIT_SUCCESS, close_both a b s)
            else Inr s)"

partial_function (option) relay :: "natd_env \<Rightarrow> int \<Rightarrow> int \<Rightarrow> natd \<Rightarrow> (int \<times> natd) option" where
  "relay env a b s = (case relay_turn env a b s of Inl r \<Rightarrow> Some r | Inr s \<Rightarrow> relay env a b s)"

definition SOCK_STREAM :: int where "SOCK_STREAM = 1"

definition socat_child :: "natd_env \<Rightarrow> natd \<Rightarrow> (int \<times> natd) option" where
  "socat_child env s =
     (let afd = nd_accept s; cfd = nd_connect s;
          s = nemit (N_getsockopt afd) s;
          sock_type = (case ne_sock_type env (nd_io s) of None \<Rightarrow> 0 | Some t \<Rightarrow> t);
          (ok, accepted_sock, s) =
            (if sock_type \<noteq> SOCK_STREAM then (True, afd, s)
             else
               let s = nemit (N_accept afd) s; n = ne_accept env (nd_io s) in
               if n = - 1 then (False, n, nemit (N_shutdown cfd) (nemit (N_shutdown afd) s))
               else (True, n, nemit (N_close afd) s)) in
      if \<not> ok \<or> \<not> ne_malloc env (nd_io s) then Some (EXIT_EXEC_FAILED, s)
      else relay env accepted_sock cfd s)"

text \<open>\<open>process_socat\<close>: the parent answers with the process identifier and closes its copies of the
  sockets, the child becomes the relay.\<close>

definition process_socat :: "natd_env \<Rightarrow> natd \<Rightarrow> outcome option" where
  "process_socat env s =
     (let s = nemit N_fork s; child = ne_fork env (nd_io s) in
      if child = - 1 then
        let s = respond env s child;
            s = nemit (N_shutdown (nd_connect s)) (nemit (N_shutdown (nd_accept s)) s)
        in Some (Go (s\<lparr>nd_accept := - 1, nd_connect := - 1\<rparr>))
      else if child > 0 then
        let s = respond env s child;
            s = nemit (N_close (nd_connect s)) (nemit (N_close (nd_accept s)) s)
        in Some (Go (s\<lparr>nd_accept := - 1, nd_connect := - 1\<rparr>))
      else map_option (\<lambda>(code, s). Exit code s) (socat_child env s))"

text \<open>\<open>parse_cmd\<close> on the memory behind its pointer argument.\<close>

definition parse_cmd :: "natd_env \<Rightarrow> natd \<Rightarrow> bytes \<Rightarrow> int \<Rightarrow> outcome option" where
  "parse_cmd env s cmd len = do {
     o1 \<leftarrow> find_cmd (ascii ''resp'') cmd len;
     if o1 \<noteq> - 1 then Some (Go s)
     else do {
       o2 \<leftarrow> find_cmd (ascii ''socat_path'') cmd len;
       if o2 \<noteq> - 1 then map_option Go (process_socat_path env s (drop (nat o2) cmd) (len - o2))
       else do {
         o3 \<leftarrow> find_cmd (ascii ''accept_fd'') cmd len;
         if o3 \<noteq> - 1 then map_option Go (process_accept_fd env s)
         else do {
           o4 \<leftarrow> find_cmd (ascii ''connect_fd'') cmd len;
           if o4 \<noteq> - 1 then map_option Go (process_connect_fd env s)
           else do {
             o5 \<leftarrow> find_cmd (ascii ''socat'') cmd len;
             if o5 \<noteq> - 1 then process_socat env s
             else do {
               halt \<leftarrow> strneq cmd (ascii ''halt'' @ [0]) 5;
               if halt
               then Some (Exit EXIT_SUCCESS
                 (log_remote env s (ascii ''Received 'halt'. Exiting with error code 0.'')))
               else Some (Go (log_remote env s (ascii ''no cmd was found'')))
             }
           }
         }
       }
     }
   }"

section \<open>Receiving\<close>

text \<open>\<open>socket_process_cmsg\<close>: a message with exactly one descriptor sets \<open>fds[0]\<close>; the descriptors of
  a message with more are skipped (and stay open).\<close>

fun socket_process_cmsg :: "cmsg list \<Rightarrow> int list \<Rightarrow> int list" where
  "socket_process_cmsg [] fds = fds"
| "socket_process_cmsg ((level, rights, ds) # ms) fds =
     (case ds of [d] \<Rightarrow> if level \<and> rights then socket_process_cmsg ms (fds[0 := d])
                         else socket_process_cmsg ms fds
      | _ \<Rightarrow> socket_process_cmsg ms fds)"

text \<open>\<open>rcvd_cmd_with_fds(control, bytes + offs, len)\<close>; the length is converted to an unsigned
  32-bit number. The result is the number of bytes, or the exit of the process.\<close>

definition rcvd_cmd_with_fds :: "natd_env \<Rightarrow> natd \<Rightarrow> nat \<Rightarrow> int \<Rightarrow> ((int \<times> natd) + (nat \<times> natd)) option" where
  "rcvd_cmd_with_fds env s offs len =
     (let n = nat (len mod 2 ^ 32); s = nemit (N_recv (nd_control s) n) s in
      case ne_recv env (nd_io s) of
        Recv_failed epipe \<Rightarrow>
          let s = log_remote env s (ne_errtext env (nd_io s)) in
          Some (Inl (if epipe then EXIT_CMD_PEER_HUP else EXIT_CMD_PEER_ERROR, s))
      | Received d bad ms \<Rightarrow> do {
          b \<leftarrow> wr_bytes (nd_bytes s) offs (take n d);
          let s = s\<lparr>nd_bytes := b\<rparr>;
          if bad then Some (Inl (EXIT_CMD_PEER_ERROR, log_remote env s (ne_errtext env (nd_io s))))
          else Some (Inr (length (take n d), s\<lparr>nd_fds := socket_process_cmsg ms (nd_fds s)\<rparr>))
        })"

text \<open>The length of a frame, \<open>bytes[0] << 8 | bytes[1]\<close> in the arithmetic of \<open>int\<close>.\<close>

definition frame_length :: "bool \<Rightarrow> u8 \<Rightarrow> u8 \<Rightarrow> int" where
  "frame_length schar b0 b1 =
     (if schar then push_bit 8 (sint b0) OR sint b1 else push_bit 8 (uint b0) OR uint b1)"

text \<open>Receiving a command: the length, then the text, a terminator behind it, and the parser. The
  numbers of bytes that arrive are not compared with the numbers that were asked for.\<close>

definition receive_cmd :: "bool \<Rightarrow> natd_env \<Rightarrow> natd \<Rightarrow> outcome option" where
  "receive_cmd schar env s = do {
     let s = s\<lparr>nd_fds := [- 1, - 1]\<rparr>;
     r \<leftarrow> rcvd_cmd_with_fds env s 0 2;
     case r of
       Inl (code, s) \<Rightarrow> Some (Exit code s)
     | Inr (n, s) \<Rightarrow>
         if n = 0 then Some (Go s)
         else do {
           b0 \<leftarrow> rd8 (nd_bytes s) 0;
           b1 \<leftarrow> rd8 (nd_bytes s) 1;
           let len = frame_length schar b0 b1;
           if len = 0xFFFF then Some (Exit EXIT_SUCCESS s)
           else do {
             r \<leftarrow> rcvd_cmd_with_fds env s 2 len;
             case r of
               Inl (code, s) \<Rightarrow> Some (Exit code s)
             | Inr (_, s) \<Rightarrow>
                 if len + 2 < 0 then None
                 else do {
                   b \<leftarrow> wr_bytes (nd_bytes s) (nat (len + 2)) [0];
                   let s = s\<lparr>nd_bytes := b\<rparr>;
                   parse_cmd env s (drop 2 b) len
                 }
           }
         }
   }"

section \<open>The process\<close>

text \<open>One turn of the main loop. A result 0 of \<open>poll\<close> is \<open>Polled 0\<close>.\<close>

definition natd_turn :: "bool \<Rightarrow> natd_env \<Rightarrow> natd \<Rightarrow> outcome option" where
  "natd_turn schar env s =
     (let s = nemit N_poll s in
      case ne_poll env (nd_io s) of
        Poll_failed eintr \<Rightarrow> Some (if eintr then Go s else Exit EXIT_CMD_POLL_ERROR s)
      | Polled revents \<Rightarrow>
          if revents = 0 then Some (Go (send_cmd env s (ascii ''ping'')))
          else if revents AND POLLHUP \<noteq> 0 then Some (Exit EXIT_CMD_PEER_HUP s)
          else if revents AND POLLERR \<noteq> 0 then Some (Exit EXIT_CMD_PEER_ERROR s)
          else receive_cmd schar env s)"

partial_function (option) natd_run :: "bool \<Rightarrow> natd_env \<Rightarrow> natd \<Rightarrow> (int \<times> natd) option" where
  "natd_run schar env s =
     Option.bind (natd_turn schar env s) (\<lambda>r.
       case r of Exit code s \<Rightarrow> Some (code, s) | Go s \<Rightarrow> natd_run schar env s)"

text \<open>The attempts to connect: five at most.\<close>

fun connect_tries :: "nat \<Rightarrow> natd_env \<Rightarrow> bytes \<Rightarrow> natd \<Rightarrow> bool \<times> natd" where
  "connect_tries 0 env path s = (False, s)"
| "connect_tries (Suc n) env path s =
     (let s = nemit (N_connect (nd_control s) path) s in
      if ne_connect env (nd_io s) then (True, s) else connect_tries n env path s)"

text \<open>The test mode, chosen when the argument is a prefix of \<open>--test\<close>: two sockets, one of them
  bound, and \<open>execve\<close> of a fixed path, which here does not return to the loop.\<close>

definition test_mode :: "natd_env \<Rightarrow> natd \<Rightarrow> int \<times> natd" where
  "test_mode env s =
     (let path = ascii ''/data/data/no.infoss.confprofile/cache/ocpasocat'';
          s = nemit N_socket s; afd = ne_socket env (nd_io s);
          s = nemit N_socket s; cfd = ne_socket env (nd_io s);
          s = nemit (N_exec path) (nemit (N_bind afd) s)
      in (EXIT_EXEC_FAILED, s\<lparr>nd_accept := afd, nd_connect := cfd,
           nd_socat_path := path @ replicate (SOCAT_PATH_BUFF_SIZE - length path) 0\<rparr>))"

text \<open>\<open>main\<close> with the arguments behind \<open>argv[0]\<close>, each without its terminator. \<open>sun_path\<close> has
  108 bytes; \<open>junk\<close> is what the buffer of 65538 bytes holds.\<close>

definition natd_main :: "bool \<Rightarrow> natd_env \<Rightarrow> bytes \<Rightarrow> bytes list \<Rightarrow> (int \<times> natd) option" where
  "natd_main schar env junk args =
     (let s = \<lparr>nd_control = 0, nd_bytes = [], nd_fds = [0, 0], nd_accept = - 1, nd_connect = - 1,
               nd_socat_path = replicate SOCAT_PATH_BUFF_SIZE 0, nd_io = []\<rparr> in
      case args of
        [arg] \<Rightarrow> do {
          test \<leftarrow> strneq (ascii ''--test'' @ [0]) (arg @ [0]) (length arg);
          if test then Some (test_mode env s)
          else if 108 \<le> length arg then None
          else
            let s = nemit N_socket s; sock = ne_socket env (nd_io s); s = s\<lparr>nd_control := sock\<rparr> in
            if sock = - 1 then Some (EXIT_CMD_SOCK_CONN, s)
            else
              let (ok, s) = connect_tries 5 env arg s in
              if \<not> ok then Some (EXIT_CMD_SOCK_CONN, s)
              else
                let s = log_remote env s (ascii ''test'') in
                if \<not> ne_malloc env (nd_io s) then Some (EXIT_NO_MEMORY, s)
                else natd_run schar env (s\<lparr>nd_bytes := junk\<rparr>)
        }
      | _ \<Rightarrow> Some (EXIT_SUCCESS, s))"

end
