(* ===== verification/UsernatdProps.thy ===== *)
theory UsernatdProps
  imports Usernatd
begin

text \<open>
  Properties of the helper process: the framing of commands, the answers to commands, the
  build with signed characters and the relay.
\<close>

section \<open>Frames\<close>

lemma frame_length_unsigned: "frame_length False b0 b1 = 256 * int (unat b0) + int (unat b1)"
proof -
  have "push_bit 8 (uint b0) OR uint b1 = push_bit 8 (uint b0) + uint b1"
    by (rule disjunctive_add [symmetric]) (auto simp: bit_push_bit_iff bit_uint_iff)
  then show ?thesis by (simp add: frame_length_def push_bit_eq_mult)
qed

lemma frame_parts:
  assumes "length cmd \<le> 0xFFFE"
  shows "take 2 (frame cmd) = [of_nat (length cmd div 256), of_nat (length cmd mod 256)]"
    and "drop 2 (frame cmd) = cmd"
    and "frame_length False (of_nat (length cmd div 256)) (of_nat (length cmd mod 256)) = int (length cmd)"
proof -
  define h where "h = (of_nat (length cmd div 256) :: u8)"
  define l where "l = (of_nat (length cmd mod 256) :: u8)"
  have "min (length cmd) 0xFFFE = length cmd" using assms by (rule min_absorb1)
  then have f: "frame cmd = h # l # cmd" by (simp only: frame_def Let_def h_def l_def take_all) simp
  show "take 2 (frame cmd) = [of_nat (length cmd div 256), of_nat (length cmd mod 256)]"
    "drop 2 (frame cmd) = cmd"
    unfolding f h_def [symmetric] l_def [symmetric] by simp_all
  have "length cmd div 256 < 256" using assms by (intro div_less_iff_less_mult [THEN iffD2]) simp_all
  then have "unat h = length cmd div 256" "unat l = length cmd mod 256"
    unfolding h_def l_def by (simp_all add: unat_of_nat)
  then have "frame_length False h l = 256 * int (length cmd div 256) + int (length cmd mod 256)"
    by (simp only: frame_length_unsigned)
  also have "\<dots> = int (256 * (length cmd div 256) + length cmd mod 256)"
    by (simp only: of_nat_add of_nat_mult of_nat_numeral)
  also have "\<dots> = int (length cmd)" by (simp only: mult_div_mod_eq)
  finally show "frame_length False (of_nat (length cmd div 256)) (of_nat (length cmd mod 256)) = int (length cmd)"
    by (simp only: h_def l_def)
qed

lemma wr_bytes_split:
  "i + length d \<le> length b \<Longrightarrow> wr_bytes b i d = Some (take i b @ d @ drop (i + length d) b)"
  by (simp add: wr_bytes_def)


definition sample_natd :: natd where
  "sample_natd = \<lparr>nd_control = 3, nd_bytes = replicate 65538 7, nd_fds = [0, 0], nd_accept = - 1,
     nd_connect = - 1, nd_socat_path = replicate 256 0, nd_io = []\<rparr>"

text \<open>An environment in which the command \<open>cmd\<close> arrives with the descriptor 9.\<close>

definition deliver :: "bytes \<Rightarrow> natd_env" where
  "deliver cmd = \<lparr>ne_poll = (\<lambda>_. Polled POLLIN), ne_poll2 = (\<lambda>_. Some (POLLIN, POLLHUP)),
     ne_recv = (\<lambda>io. if length io = 1 then Received (take 2 (frame cmd)) False [(True, True, [9])]
                     else Received (drop 2 (frame cmd)) False []),
     ne_fork = (\<lambda>_. 77), ne_waitpid = (\<lambda>_. 77), ne_sock_type = (\<lambda>_. Some 1), ne_accept = (\<lambda>_. 11),
     ne_read = (\<lambda>_. Some [1, 2, 3]), ne_write = (\<lambda>_. 3), ne_socket = (\<lambda>_. 3), ne_connect = (\<lambda>_. True),
     ne_malloc = (\<lambda>_. True), ne_errtext = (\<lambda>_. [])\<rparr>"


lemma rcvd_cases:
  "rcvd_cmd_with_fds env s offs len = None \<or>
   (\<exists>code s'. rcvd_cmd_with_fds env s offs len = Some (Inl (code, s')) \<and>
      (code = EXIT_CMD_PEER_ERROR \<or> code = EXIT_CMD_PEER_HUP)) \<or>
   (\<exists>n s'. rcvd_cmd_with_fds env s offs len = Some (Inr (n, s')))"
  by (auto simp: rcvd_cmd_with_fds_def Let_def split: recv_result.split bind_split)

text \<open>On x86 commands of medium length never arrive. Where \<open>char\<close> is signed, the length of a
  frame of 128 to 253 bytes is negative; the process does not get as far as parsing the
  command, whatever the socket delivers: it exits with an error code or writes outside of
  its buffer.\<close>

theorem natd_signed_length:
  assumes "length (nd_bytes s) = 65538" "128 \<le> n" "n < 254"
    and "ne_recv env (nd_io s @ [N_recv (nd_control s) 2]) = Received [0, of_nat n] False ms"
  shows "case receive_cmd True env s of None \<Rightarrow> True | Some (Go s') \<Rightarrow> False
    | Some (Exit code s') \<Rightarrow> code = EXIT_CMD_PEER_ERROR \<or> code = EXIT_CMD_PEER_HUP"
proof -
  let ?b = "of_nat n :: u8"
  have u: "uint ?b = int n" using assms(3) by (simp add: uint_nat unat_of_nat)
  have "(int n - 128 + 256) mod 256 = (int n - 128) mod 256" by (rule mod_add_self2)
  then have "(int n + 128) mod 256 = int n - 128" using assms(2,3) by (simp add: add.commute)
  moreover have "signed_take_bit 7 (int n) = (int n + 128) mod 256 - 128"
    using signed_take_bit_eq_take_bit_shift [of 7 "int n"] by (simp add: take_bit_eq_mod)
  moreover have "sint ?b = signed_take_bit 7 (int n)" unfolding sint_uint u by simp
  ultimately have "sint ?b = int n - 256" by linarith
  then have l: "frame_length True 0 ?b = int n - 256" by (simp add: frame_length_def)
  have w: "wr_bytes (nd_bytes s) 0 [0, ?b] = Some (0 # ?b # drop 2 (nd_bytes s))"
    using assms(1) by (simp add: wr_bytes_def numeral_2_eq_2)
  define s1 where "s1 = s\<lparr>nd_io := nd_io s @ [N_recv (nd_control s) 2], nd_fds := socket_process_cmsg ms [- 1, - 1],
    nd_bytes := 0 # ?b # drop 2 (nd_bytes s)\<rparr>"
  have r1: "rcvd_cmd_with_fds env (s\<lparr>nd_fds := [- 1, - 1]\<rparr>) 0 2 = Some (Inr (2, s1))"
    using assms(4) w by (simp add: rcvd_cmd_with_fds_def nemit_def s1_def)
  have b: "rd8 (nd_bytes s1) 0 = Some 0" "rd8 (nd_bytes s1) 1 = Some ?b" by (simp_all add: s1_def rd8_def)
  have "int n - 256 \<noteq> 65535" "int n - 256 + 2 < 0" using assms(3) by auto
  then show ?thesis using r1 b rcvd_cases [of env s1 2 "int n - 256"]
    by (auto simp: receive_cmd_def l)
qed

theorem natd_signed_length_witness:
  "case receive_cmd True (deliver (replicate 200 65)) sample_natd of None \<Rightarrow> True | Some (Go s') \<Rightarrow> False
    | Some (Exit code s') \<Rightarrow> code = EXIT_CMD_PEER_ERROR \<or> code = EXIT_CMD_PEER_HUP"
proof (rule natd_signed_length [of _ 200])
  show "ne_recv (deliver (replicate 200 65)) (nd_io sample_natd @ [N_recv (nd_control sample_natd) 2]) =
      Received [0, of_nat 200] False [(True, True, [9])]"
    by (simp add: deliver_def sample_natd_def frame_def Let_def)
qed (simp_all add: sample_natd_def)

section \<open>Commands\<close>

lemma strneq_take:
  "length w \<le> length p \<Longrightarrow> 0 \<notin> set w \<Longrightarrow> strneq p (w @ [0]) (length w) = Some (take (length w) p = w)"
proof (induction w arbitrary: p)
  case (Cons c w)
  then show ?case by (cases p) auto
qed simp

lemma find_cmd_Some:
  assumes "length w < length p" "0 \<notin> set w"
  shows "find_cmd w p len = Some (if int (length w) \<le> len \<and> take (length w) p = w \<and>
    (p ! length w = 0 \<or> p ! length w = 32) then int (length w) else - 1)"
  using strneq_take [of w p] assms by (auto simp: find_cmd_def rd8_def)

lemma find_cmd_hit:
  assumes "0 \<notin> set w" "c = 0 \<or> c = 32" "int (length w) \<le> len"
  shows "find_cmd w (w @ c # r) len = Some (int (length w))"
  using find_cmd_Some [of w "w @ c # r" len] assms by simp

lemma find_cmd_miss:
  assumes "0 \<notin> set w" "length w < length p" "take (length w) p \<noteq> w \<or> p ! length w \<noteq> 0 \<and> p ! length w \<noteq> 32"
  shows "find_cmd w p len = Some (- 1)"
  using find_cmd_Some [of w p len] assms by auto

lemma ascii_words:
  "ascii ''resp'' = [114, 101, 115, 112]"
  "ascii ''socat_path'' = [115, 111, 99, 97, 116, 95, 112, 97, 116, 104]"
  "ascii ''accept_fd'' = [97, 99, 99, 101, 112, 116, 95, 102, 100]"
  "ascii ''connect_fd'' = [99, 111, 110, 110, 101, 99, 116, 95, 102, 100]"
  "ascii ''socat'' = [115, 111, 99, 97, 116]"
  by (simp_all add: ascii_def)

lemma parse_socat_path:
  assumes "c = 0 \<or> c = 32" "10 \<le> len"
  shows "parse_cmd env s (ascii ''socat_path'' @ c # r) len =
    map_option Go (process_socat_path env s (c # r) (len - 10))"
proof -
  have "find_cmd (ascii ''resp'') (ascii ''socat_path'' @ c # r) len = Some (- 1)"
    by (rule find_cmd_miss) (simp_all add: ascii_words)
  moreover have "find_cmd (ascii ''socat_path'') (ascii ''socat_path'' @ c # r) len = Some 10"
    using find_cmd_hit [of "ascii ''socat_path''" c len r] assms by (simp add: ascii_words)
  moreover have "drop 10 (ascii ''socat_path'' @ c # r) = c # r" by (simp add: ascii_words)
  ultimately show ?thesis by (simp add: parse_cmd_def)
qed

text \<open>Setting the path of \<open>socat\<close> stays in its buffer, except without a path. A path of up
  to 255 characters is stored with a terminator and answered with 0, a longer one is refused
  and nothing is stored; the bare command word (which \<open>find_cmd\<close> accepts) makes the length
  negative and the copy runs out of all bounds.\<close>

lemma socat_path_bounds:
  "parse_cmd env s (ascii ''socat_path'' @ 32 # path @ 0 # rest) (11 + int (length path)) =
      Some (Go (if length path < 256
        then respond env (s\<lparr>nd_socat_path := path @ replicate (256 - length path) 0\<rparr>) 0
        else respond env s (- 1))) \<and>
   parse_cmd env s (ascii ''socat_path'' @ 0 # rest) 10 = None"
proof
  show "parse_cmd env s (ascii ''socat_path'' @ 32 # path @ 0 # rest) (11 + int (length path)) =
      Some (Go (if length path < 256
        then respond env (s\<lparr>nd_socat_path := path @ replicate (256 - length path) 0\<rparr>) 0
        else respond env s (- 1)))"
    using parse_socat_path [of 32 "11 + int (length path)" env s "path @ 0 # rest"]
    by (auto simp: process_socat_path_def SOCAT_PATH_BUFF_SIZE_def rd_bytes_def wr_bytes_def)
  show "parse_cmd env s (ascii ''socat_path'' @ 0 # rest) 10 = None"
    using parse_socat_path [of 0 10 env s rest]
    by (simp add: process_socat_path_def SOCAT_PATH_BUFF_SIZE_def)
qed

section \<open>The relay\<close>

text \<open>What the process has read from a descriptor and written to one in a piece of history that
  comes after \<open>pre\<close>.\<close>

fun got :: "natd_env \<Rightarrow> int \<Rightarrow> natd_io list \<Rightarrow> natd_io list \<Rightarrow> bytes" where
  "got env fd pre [] = []"
| "got env fd pre (e # es) =
     (case e of N_read f n \<Rightarrow>
        if f = fd then (case ne_read env (pre @ [e]) of None \<Rightarrow> [] | Some d \<Rightarrow> take n d) else []
      | _ \<Rightarrow> []) @ got env fd (pre @ [e]) es"

fun given :: "int \<Rightarrow> natd_io list \<Rightarrow> bytes" where
  "given fd [] = []"
| "given fd (e # es) = (case e of N_write f d \<Rightarrow> if f = fd then d else [] | _ \<Rightarrow> []) @ given fd es"

lemma got_append [simp]: "got env fd pre (x @ y) = got env fd pre x @ got env fd (pre @ x) y"
  by (induction x arbitrary: pre) simp_all

lemma given_append [simp]: "given fd (x @ y) = given fd x @ given fd y"
  by (induction x) simp_all

text \<open>The piece of history copies: everything read from one of the sockets has been handed to \<open>write\<close>,
  in order, for the other.\<close>

definition copies :: "natd_env \<Rightarrow> int \<Rightarrow> int \<Rightarrow> natd \<Rightarrow> natd \<Rightarrow> bool" where
  "copies env a b s s' \<longleftrightarrow> (\<exists>es. nd_io s' = nd_io s @ es \<and>
     got env a (nd_io s) es = given b es \<and> got env b (nd_io s) es = given a es)"

lemma copies_refl [simp]: "copies env a b s s"
  by (simp add: copies_def)

lemma copies_trans:
  assumes "copies env a b s s'" "copies env a b s' s''"
  shows "copies env a b s s''"
proof -
  obtain x y where "nd_io s' = nd_io s @ x" "got env a (nd_io s) x = given b x" "got env b (nd_io s) x = given a x"
    "nd_io s'' = nd_io s' @ y" "got env a (nd_io s') y = given b y" "got env b (nd_io s') y = given a y"
    using assms by (auto simp: copies_def)
  then show ?thesis unfolding copies_def by (intro exI [of _ "x @ y"]) simp
qed

lemma copies_nemit:
  assumes "copies env a b s s'" "e = N_poll2 x y \<or> e = N_close x \<or> e = N_shutdown x"
  shows "copies env a b s (nemit e s')"
proof -
  have "copies env a b s' (nemit e s')"
    unfolding copies_def using assms(2) by (intro exI [of _ "[e]"]) auto
  then show ?thesis by (rule copies_trans [OF assms(1)])
qed

lemma copies_dir:
  assumes "a \<noteq> b"
  shows "copies env a b s (snd (relay_dir env a b s)) \<and> copies env a b s (snd (relay_dir env b a s))"
  using assms by (auto simp: copies_def relay_dir_def Let_def split: option.split)

lemma copies_turn:
  assumes "a \<noteq> b"
  shows "case relay_turn env a b s of Inl (code, s') \<Rightarrow> copies env a b s s' | Inr s' \<Rightarrow> copies env a b s s'"
proof -
  let ?s = "nemit (N_poll2 a b) s"
  have e: "copies env a b s ?s" by (rule copies_nemit [of _ _ _ s s _ a b]) auto
  have c: "copies env a b s (close_both a b x)" "copies env a b s (nemit (N_shutdown b) (nemit (N_shutdown a) x))"
    if "copies env a b s x" for x
    unfolding close_both_def by (intro copies_nemit [OF copies_nemit [OF that]]; blast)+
  show ?thesis
  proof (cases "ne_poll2 env (nd_io ?s)")
    case None
    then show ?thesis using c(2) [OF e] by (simp add: relay_turn_def Let_def)
  next
    case (Some r)
    obtain ra rb where r: "r = (ra, rb)" by (cases r)
    obtain ok1 s1 where 1: "(if ra AND POLLIN \<noteq> 0 then relay_dir env a b ?s else (True, ?s)) = (ok1, s1)"
      by (cases "if ra AND POLLIN \<noteq> 0 then relay_dir env a b ?s else (True, ?s)")
    obtain ok2 s2 where 2: "(if rb AND POLLIN \<noteq> 0 then relay_dir env b a s1 else (True, s1)) = (ok2, s2)"
      by (cases "if rb AND POLLIN \<noteq> 0 then relay_dir env b a s1 else (True, s1)")
    have s1: "copies env a b s s1"
      using 1 e copies_dir [OF assms, of env ?s] copies_trans [OF e, of s1] by (auto split: if_splits)
    have s2: "copies env a b s s2"
      using 2 s1 copies_dir [OF assms, of env s1] copies_trans [OF s1, of s2] by (auto split: if_splits)
    have "relay_turn env a b s = (if \<not> ok1 then Inl (EXIT_EXEC_FAILED, close_both a b s1)
      else if \<not> ok2 then Inl (EXIT_EXEC_FAILED, close_both a b s2)
      else if ra AND POLLHUP \<noteq> 0 \<or> rb AND POLLHUP \<noteq> 0 then Inl (EXIT_SUCCESS, close_both a b s2)
      else Inr s2)"
      using Some r 1 2 by (simp add: relay_turn_def Let_def)
    then show ?thesis using c(1) [OF s1] c(1) [OF s2] s2 by simp
  qed
qed

fun relay_turns :: "natd_env \<Rightarrow> int \<Rightarrow> int \<Rightarrow> nat \<Rightarrow> natd \<Rightarrow> (int \<times> natd) + natd" where
  "relay_turns env a b 0 s = Inr s"
| "relay_turns env a b (Suc n) s =
     (case relay_turn env a b s of Inl r \<Rightarrow> Inl r | Inr s \<Rightarrow> relay_turns env a b n s)"



section \<open>A session\<close>

lemma parse_fd_commands:
  assumes "nd_fds s = [a, x]"
  shows "parse_cmd env s (ascii ''accept_fd'' @ 0 # r) 9 = Some (Go (respond env (s\<lparr>nd_accept := a\<rparr>) 0))"
    and "parse_cmd env s (ascii ''connect_fd'' @ 0 # r) 10 = Some (Go (respond env (s\<lparr>nd_connect := a\<rparr>) 0))"
proof -
  have "find_cmd (ascii ''resp'') (ascii ''accept_fd'' @ 0 # r) 9 = Some (- 1)"
    "find_cmd (ascii ''socat_path'') (ascii ''accept_fd'' @ 0 # r) 9 = Some (- 1)"
    "find_cmd (ascii ''accept_fd'') (ascii ''accept_fd'' @ 0 # r) 9 = Some 9"
    using find_cmd_miss [of "ascii ''resp''" "ascii ''accept_fd'' @ 0 # r" 9]
      find_cmd_hit [of "ascii ''accept_fd''" 0 9 r]
    by (simp_all add: ascii_words find_cmd_def)
  then show "parse_cmd env s (ascii ''accept_fd'' @ 0 # r) 9 = Some (Go (respond env (s\<lparr>nd_accept := a\<rparr>) 0))"
    using assms by (simp add: parse_cmd_def process_accept_fd_def)
  have "find_cmd (ascii ''resp'') (ascii ''connect_fd'' @ 0 # r) 10 = Some (- 1)"
    "find_cmd (ascii ''socat_path'') (ascii ''connect_fd'' @ 0 # r) 10 = Some (- 1)"
    "find_cmd (ascii ''accept_fd'') (ascii ''connect_fd'' @ 0 # r) 10 = Some (- 1)"
    "find_cmd (ascii ''connect_fd'') (ascii ''connect_fd'' @ 0 # r) 10 = Some 10"
    using find_cmd_miss [of "ascii ''resp''" "ascii ''connect_fd'' @ 0 # r" 10]
      find_cmd_miss [of "ascii ''socat_path''" "ascii ''connect_fd'' @ 0 # r" 10]
      find_cmd_miss [of "ascii ''accept_fd''" "ascii ''connect_fd'' @ 0 # r" 10]
      find_cmd_hit [of "ascii ''connect_fd''" 0 10 r]
    by (simp_all add: ascii_words)
  then show "parse_cmd env s (ascii ''connect_fd'' @ 0 # r) 10 = Some (Go (respond env (s\<lparr>nd_connect := a\<rparr>) 0))"
    using assms by (simp add: parse_cmd_def process_connect_fd_def)
qed

lemma parse_socat:
  assumes "5 \<le> len" "5 \<le> length r"
  shows "parse_cmd env s (ascii ''socat'' @ 32 # r) len = process_socat env s"
proof -
  have l: "length (ascii ''socat'' @ 32 # r) = 6 + length r" by (simp add: ascii_words)
  have "find_cmd (ascii ''resp'') (ascii ''socat'' @ 32 # r) len = Some (- 1)"
    "find_cmd (ascii ''socat_path'') (ascii ''socat'' @ 32 # r) len = Some (- 1)"
    "find_cmd (ascii ''accept_fd'') (ascii ''socat'' @ 32 # r) len = Some (- 1)"
    "find_cmd (ascii ''connect_fd'') (ascii ''socat'' @ 32 # r) len = Some (- 1)"
    using assms(2) by (auto intro!: find_cmd_miss simp: ascii_words l)
  then show ?thesis
    using find_cmd_hit [of "ascii ''socat''" 32 len r] assms(1) by (simp add: parse_cmd_def ascii_words)
qed

definition resp_frame :: "int \<Rightarrow> bytes" where
  "resp_frame code = frame (take 17 (ascii ''resp '' @ dec_int code))"



end
