(* ===== verification/Mtp.thy ===== *)
theory Mtp
  imports Prelude
begin

text \<open>
  What the two protocols of the PPP daemon \<open>mtpd\<close> share: the socket to the server, the child
  process \<open>pppd\<close> and the functions \<open>create_socket\<close>, \<open>start_pppd\<close> and \<open>stop_pppd\<close> of
  \<open>mtpd/mtpd.c\<close>, and the place of \<open>pppd/main.c\<close> that takes the arguments apart again.

  A function that may call \<open>exit\<close> returns \<open>Quit\<close> with the exit code, or \<open>Ret\<close>; \<open>Execed\<close> is the
  child process after a successful \<open>execvp\<close>. The handler \<open>stop_pppd\<close> that \<open>atexit\<close> registered
  runs in \<open>main\<close>. Log output is left out. Calls to the system are events, answered by the
  environment from the history that ends with the call.
\<close>

section \<open>State and environment\<close>

datatype mtp_io =
    M_getaddrinfo bytes bytes
  | M_socket
  | M_bind_device int bytes
  | M_connect int bytes
  | M_close int
  | M_shutdown int
  | M_send int bytes
  | M_recv int int
  | M_random
  | M_urandom nat
  | M_pppox_socket
  | M_pppox_connect int int "u16 list"
  | M_fork
  | M_exec bytes
  | M_kill int
  | M_waitpid int
  | M_trywait int
  | M_pipe
  | M_poll int
  | M_read_signal

datatype mtp_recv = R_eintr | R_error | R_data bytes

record mtp =
  the_socket :: int
  interface :: bytes
  pppd_argv :: "bytes list"
  pppd_pid :: int
  m_io :: "mtp_io list"

text \<open>The static variables before \<open>initialize\<close>.\<close>

definition mtp_init :: mtp where
  "mtp_init = \<lparr>the_socket = - 1, interface = [], pppd_argv = [], pppd_pid = 0, m_io = []\<rparr>"

record mtp_env =
  me_addrinfo :: "mtp_io list \<Rightarrow> bytes list option"
  me_socket :: "mtp_io list \<Rightarrow> int"
  me_ok :: "mtp_io list \<Rightarrow> bool"
  me_recv :: "mtp_io list \<Rightarrow> mtp_recv"
  me_random :: "mtp_io list \<Rightarrow> u32"
  me_urandom :: "mtp_io list \<Rightarrow> bytes option"
  me_fork :: "mtp_io list \<Rightarrow> int"
  me_poll :: "mtp_io list \<Rightarrow> (bool \<times> bool \<times> bool) option option"
  me_signal :: "mtp_io list \<Rightarrow> int"
  me_exit_status :: "mtp_io list \<Rightarrow> int option"

text \<open>\<open>me_ok\<close> says whether \<open>setsockopt\<close>, \<open>connect\<close>, \<open>pipe\<close> or \<open>execvp\<close> succeeds. \<open>me_poll\<close> answers
  \<open>None\<close> for an error, \<open>Some None\<close> for \<open>EINTR\<close> (the events of the call before stay), and otherwise
  whether there are events on the three descriptors. \<open>me_exit_status\<close> is the exit status that
  \<open>waitpid\<close> reports for the process, if it is that process and it has exited.\<close>

datatype ('a, 's) ret = Ret 'a 's | Quit int 's | Execed 's

primrec ret_state :: "('a, 's) ret \<Rightarrow> 's" where
  "ret_state (Ret a s) = s"
| "ret_state (Quit code s) = s"
| "ret_state (Execed s) = s"

definition memit :: "mtp_io \<Rightarrow> mtp \<Rightarrow> mtp" where
  "memit e m = m\<lparr>m_io := m_io m @ [e]\<rparr>"

lemma memit_simps [simp]:
  "the_socket (memit e m) = the_socket m" "interface (memit e m) = interface m"
  "pppd_argv (memit e m) = pppd_argv m" "pppd_pid (memit e m) = pppd_pid m"
  "m_io (memit e m) = m_io m @ [e]"
  by (simp_all add: memit_def)

definition SYSTEM_ERROR :: int where "SYSTEM_ERROR = 1"
definition NETWORK_ERROR :: int where "NETWORK_ERROR = 2"
definition PROTOCOL_ERROR :: int where "PROTOCOL_ERROR = 3"
definition CHALLENGE_FAILED :: int where "CHALLENGE_FAILED = 4"
definition USER_REQUESTED :: int where "USER_REQUESTED = 5"
definition REMOTE_REQUESTED :: int where "REMOTE_REQUESTED = 6"
definition PPPD_EXITED :: int where "PPPD_EXITED = 32"

lemmas exit_codes = SYSTEM_ERROR_def NETWORK_ERROR_def PROTOCOL_ERROR_def CHALLENGE_FAILED_def
  USER_REQUESTED_def REMOTE_REQUESTED_def PPPD_EXITED_def

definition msend :: "bytes \<Rightarrow> mtp \<Rightarrow> mtp" where
  "msend d m = memit (M_send (the_socket m) d) m"

definition mrandom :: "mtp_env \<Rightarrow> mtp \<Rightarrow> u32 \<times> mtp" where
  "mrandom env m = (let m = memit M_random m in (me_random env (m_io m), m))"

text \<open>\<open>while (!x) x = random()\<close> for a number \<open>x\<close> in network order, in both protocols.\<close>

partial_function (option) pick16 :: "mtp_env \<Rightarrow> u16 \<Rightarrow> mtp \<Rightarrow> (u16 \<times> mtp) option" where
  "pick16 env v m =
     (if v \<noteq> 0 then Some (v, m) else case mrandom env m of (r, m) \<Rightarrow> pick16 env (bswap16 (ucast r)) m)"

section \<open>The socket to the server\<close>

fun try_records :: "mtp_env \<Rightarrow> bytes list \<Rightarrow> mtp \<Rightarrow> mtp" where
  "try_records env [] m = m"
| "try_records env (r # rs) m =
     (let m = memit M_socket m; s = me_socket env (m_io m);
          m = memit (M_bind_device s (interface m)) m; ok = me_ok env (m_io m);
          (ok, m) = (if ok then let m = memit (M_connect s r) m in (me_ok env (m_io m), m) else (False, m))
      in if ok then m\<lparr>the_socket := s\<rparr> else try_records env rs (memit (M_close s) m))"

definition create_server_socket :: "mtp_env \<Rightarrow> mtp \<Rightarrow> bytes \<Rightarrow> bytes \<Rightarrow> (unit, mtp) ret" where
  "create_server_socket env m server port =
     (let m = memit (M_getaddrinfo server port) m in
      case me_addrinfo env (m_io m) of
        None \<Rightarrow> Quit NETWORK_ERROR m
      | Some rs \<Rightarrow>
          let m = try_records env rs m in
          if the_socket m = - 1 then Quit NETWORK_ERROR m else Ret () m)"

section \<open>Starting and stopping pppd\<close>

definition PPPD :: bytes where
  "PPPD = [111, 99, 112, 97, 112, 112, 112, 100]"

text \<open>The hexadecimal coding of an argument with its terminator, \<open>A\<close> to \<open>P\<close> for the digits.\<close>

definition hex_byte :: "u8 \<Rightarrow> bytes" where
  "hex_byte c = [65 + (drop_bit 4 c AND 15), 65 + (c AND 15)]"

definition hex_arg :: "bytes \<Rightarrow> bytes" where
  "hex_arg a = concat (map hex_byte (a @ [0]))"

text \<open>The contents of \<open>envargs\<close>, a buffer of 65536 bytes that also holds the terminator.\<close>

definition encode_args :: "bytes list \<Rightarrow> bytes option" where
  "encode_args args =
     (let s = concat (map hex_arg args) in if length s + 1 \<le> 65536 then Some s else None)"

definition start_pppd :: "mtp_env \<Rightarrow> (int \<Rightarrow> bytes) \<Rightarrow> mtp \<Rightarrow> int \<Rightarrow> (unit, mtp) ret option" where
  "start_pppd env number m pppox =
     (if pppd_pid m \<noteq> 0 then Some (Ret () (memit (M_close pppox) m))
      else
        let m = memit M_fork m; pid = me_fork env (m_io m); m = m\<lparr>pppd_pid := pid\<rparr> in
        if pid < 0 then Some (Quit SYSTEM_ERROR m)
        else if pid = 0 then do {
          envargs \<leftarrow> encode_args ([PPPD, [110, 111, 100, 101, 116, 97, 99, 104], [112, 112, 112, 111, 120],
            number pppox] @ pppd_argv m);
          let m = memit (M_exec envargs) m;
          Some (if me_ok env (m_io m) then Execed m else Quit 1 m)
        }
        else Some (Ret () (memit (M_close pppox) m)))"

definition stop_pppd :: "mtp \<Rightarrow> mtp" where
  "stop_pppd m =
     (if pppd_pid m \<noteq> 0
      then (memit (M_waitpid (pppd_pid m)) (memit (M_kill (pppd_pid m)) m))\<lparr>pppd_pid := 0\<rparr>
      else m)"

section \<open>The other end: pppd takes the arguments apart\<close>

text \<open>The first loop: pairs of digits are decoded in place, one position behind half of the
  index. The result is the number of terminators and the buffer.\<close>

function decode_loop :: "bytes \<Rightarrow> nat \<Rightarrow> nat \<Rightarrow> (nat \<times> bytes) option" where
  "decode_loop b i argc =
     (if length b \<le> i then None
      else if b ! i = 0 then Some (argc, b)
      else if length b \<le> i + 1 then None
      else if b ! (i + 1) = 0 then Some (argc, b)
      else
        let c = push_bit 4 (b ! i - 65) + (b ! (i + 1) - 65)
        in decode_loop (b[i div 2 + 1 := c]) (i + 2) (if c = 0 then argc + 1 else argc))"
  by pat_completeness auto

termination
  by (relation "measure (\<lambda>(b, i, argc). length b - i)") auto

declare decode_loop.simps [simp del]

text \<open>The second loop: a pointer behind every terminator, until there are \<open>argc\<close>.\<close>

function collect_args :: "bytes \<Rightarrow> nat \<Rightarrow> nat \<Rightarrow> nat list option" where
  "collect_args b p n =
     (if n = 0 then Some []
      else if length b \<le> p then None
      else if b ! p = 0 then map_option ((#) (p + 1)) (collect_args b (p + 1) (n - 1))
      else collect_args b (p + 1) n)"
  by pat_completeness auto

termination
  by (relation "measure (\<lambda>(b, p, n). length b - p)") auto

declare collect_args.simps [simp del]

text \<open>The string at a pointer.\<close>

definition c_string :: "bytes \<Rightarrow> nat \<Rightarrow> bytes" where
  "c_string b p = takeWhile (\<lambda>c. c \<noteq> 0) (drop p b)"

text \<open>\<open>None\<close> is the fatal error or a fault.\<close>

definition decode_args :: "bytes \<Rightarrow> bytes list option" where
  "decode_args envargs = do {
     (argc, b) \<leftarrow> decode_loop (envargs @ [0]) 0 0;
     if argc = 0 then None
     else do {
       ps \<leftarrow> collect_args (b[0 := 0]) 0 argc;
       Some (map (c_string (b[0 := 0])) ps)
     }
   }"

end
