(* ===== verification/MtpArgs.thy ===== *)
theory MtpArgs
  imports Mtp
begin

text \<open>
  The arguments that \<open>mtpd\<close> puts into the environment of \<open>pppd\<close> come out as they went in,
  although \<open>pppd\<close> decodes them in place.
\<close>

lemma drop_ConsD:
  assumes "drop n xs = y # ys"
  shows "n < length xs" "xs ! n = y" "drop (Suc n) xs = ys"
proof -
  show l: "n < length xs" using assms by (metis drop_eq_Nil2 leI list.distinct(1))
  then show "xs ! n = y" "drop (Suc n) xs = ys"
    using assms Cons_nth_drop_Suc [OF l] by simp_all
qed

lemma unat_low: "unat (c AND 15 :: u8) = unat c mod 16"
proof -
  have "c AND 15 = c mod 16"
    using take_bit_eq_mask [of 4 c] by (simp add: mask_eq_exp_minus_1 take_bit_eq_mod)
  then show ?thesis by (simp add: unat_mod)
qed

lemma hex_digits:
  fixes c :: u8
  shows "65 + (c AND 15) \<noteq> 0" "65 + (drop_bit 4 c AND 15) \<noteq> 0"
    "push_bit 4 (65 + (drop_bit 4 c AND 15) - 65) + (65 + (c AND 15) - 65) = c"
proof -
  have n: "65 + (x AND 15) \<noteq> 0" for x :: u8
  proof -
    have "unat (65 + (x AND 15)) = 65 + unat x mod 16"
      using mod_less_divisor [of 16 "unat x"] by (simp add: unat_word_ariths unat_low)
    then show ?thesis by (metis add_is_0 numeral_eq_Suc unsigned_0 nat.distinct(1))
  qed
  show "65 + (c AND 15) \<noteq> 0" "65 + (drop_bit 4 c AND 15) \<noteq> 0" by (rule n)+
  have "unat c < 256" by simp
  then have "unat c div 16 < 16" by (intro less_mult_imp_div_less) simp
  moreover have "unat (drop_bit 4 c) = unat c div 16" by (simp add: drop_bit_eq_div unat_div)
  ultimately have h: "unat (drop_bit 4 c AND 15) = unat c div 16" by (simp add: unat_low)
  have "unat (push_bit 4 (drop_bit 4 c AND 15) + (c AND 15)) = unat c div 16 * 16 + unat c mod 16"
    using \<open>unat c < 256\<close> mod_less_divisor [of 16 "unat c"]
    unfolding unat_low [of c, symmetric] h [symmetric]
    by (simp add: push_bit_eq_mult unat_word_ariths h unat_low [of c] del: unat_u8)
  then show "push_bit 4 (65 + (drop_bit 4 c AND 15) - 65) + (65 + (c AND 15) - 65) = c"
    by (simp add: word_unat_eq_iff)
qed

lemma drop_update_before: "i < n \<Longrightarrow> drop n (xs[i := x]) = drop n xs"
  by simp

lemma decode_loop_hex:
  assumes "drop (2 * k) b = concat (map hex_byte ds) @ [0]"
  shows "\<exists>b'. decode_loop b (2 * k) argc = Some (argc + length (filter (\<lambda>c. c = 0) ds), b') \<and>
    length b' = length b \<and> take (k + 1) b' = take (k + 1) b \<and> take (length ds) (drop (k + 1) b') = ds"
  using assms
proof (induction ds arbitrary: b k argc)
  case Nil
  then have "2 * k < length b" "b ! (2 * k) = 0" using drop_ConsD [of "2 * k" b 0 "[]"] by simp_all
  then show ?case by (simp add: decode_loop.simps)
next
  case (Cons c ds)
  let ?h = "65 + (drop_bit 4 c AND 15)" and ?l = "65 + (c AND 15)"
  let ?b = "b[k + 1 := c]"
  have d: "drop (2 * k) b = ?h # ?l # concat (map hex_byte ds) @ [0]"
    using Cons.prems by (simp add: hex_byte_def [of c])
  note d1 = drop_ConsD [OF d]
  note d2 = drop_ConsD [OF d1(3)]
  have len: "2 * k + 1 < length b" and h: "b ! (2 * k) = ?h" "b ! (2 * k + 1) = ?l"
    using d1(2) d2 by simp_all
  have d3: "drop (2 * (k + 1)) ?b = concat (map hex_byte ds) @ [0]"
  proof -
    have "drop (2 * (k + 1)) ?b = drop 2 (drop (2 * k) b)" by (simp add: add.commute)
    then show ?thesis by (simp add: d)
  qed
  obtain b' where b': "decode_loop ?b (2 * (k + 1)) (if c = 0 then argc + 1 else argc) =
      Some ((if c = 0 then argc + 1 else argc) + length (filter (\<lambda>c. c = 0) ds), b')"
    "length b' = length ?b" "take (k + 1 + 1) b' = take (k + 1 + 1) ?b" "take (length ds) (drop (k + 1 + 1) b') = ds"
    using Cons.IH [OF d3] by blast
  have "decode_loop b (2 * k) argc = decode_loop ?b (2 * (k + 1)) (if c = 0 then argc + 1 else argc)"
    using len h hex_digits [of c] by (simp add: decode_loop.simps [of b] Let_def)
  moreover have "b' ! (k + 1) = c" "k + 1 < length b'"
    using arg_cong [OF b'(3), of "\<lambda>x. x ! (k + 1)"] len b'(2) by simp_all
  moreover have "take (k + 1) b' = take (k + 1) b"
    using arg_cong [OF b'(3), of "take (k + 1)"] by simp
  ultimately show ?case using b'
    by (auto simp: Cons_nth_drop_Suc [symmetric])
qed

lemma collect_skip:
  assumes "0 \<notin> set a" "drop p b = a @ 0 # r" "0 < n"
  shows "collect_args b p n = collect_args b (p + length a) n"
  using assms
proof (induction a arbitrary: p)
  case (Cons c a)
  have d: "drop p b = c # (a @ 0 # r)" using Cons.prems by simp
  then have "p < length b" "b ! p = c" "drop (p + 1) b = a @ 0 # r" using drop_ConsD [OF d] by simp_all
  then show ?case using Cons.IH [of "p + 1"] Cons.prems
    by (simp add: collect_args.simps [of b p])
qed simp

lemma collect_args_strings:
  assumes "\<forall>a \<in> set args. 0 \<notin> set a" "drop p b = 0 # concat (map (\<lambda>a. a @ [0]) args) @ r"
  shows "\<exists>ps. collect_args b p (length args) = Some ps \<and> map (c_string b) ps = args"
  using assms
proof (induction args arbitrary: p)
  case Nil
  then show ?case by (simp add: collect_args.simps)
next
  case (Cons a args)
  let ?q = "p + 1 + length a"
  have d: "drop p b = 0 # (a @ 0 # concat (map (\<lambda>a. a @ [0]) args) @ r)" using Cons.prems by simp
  then have p: "p < length b"
    and n: "b ! p = 0" "drop (p + 1) b = a @ 0 # concat (map (\<lambda>a. a @ [0]) args) @ r"
    using drop_ConsD [OF d] by simp_all
  have "drop (length a) (drop (p + 1) b) = 0 # concat (map (\<lambda>a. a @ [0]) args) @ r"
    unfolding n(2) by simp
  then have "drop ?q b = 0 # concat (map (\<lambda>a. a @ [0]) args) @ r" by (simp add: add.commute)
  from Cons.IH [OF _ this] Cons.prems(1) obtain ps where
    ps: "collect_args b ?q (length args) = Some ps" "map (c_string b) ps = args" by auto
  have "collect_args b (p + 1) (length args) = Some ps"
  proof (cases "args = []")
    case True
    then show ?thesis using ps by (simp add: collect_args.simps)
  next
    case False
    then show ?thesis using collect_skip [OF _ n(2), of "length args"] Cons.prems(1) ps by simp
  qed
  then have "collect_args b p (length (a # args)) = Some ((p + 1) # ps)"
    using p n(1) by (simp add: collect_args.simps [of b p])
  moreover have "c_string b (p + 1) = a" using n(2) Cons.prems(1)
    by (auto simp: c_string_def takeWhile_append)
  ultimately show ?case using ps(2) by simp
qed

lemma decode_encode:
  assumes "encode_args args = Some s" "args \<noteq> []" "\<forall>a \<in> set args. 0 \<notin> set a"
  shows "decode_args s = Some args"
proof -
  let ?ds = "concat (map (\<lambda>a. a @ [0]) args)"
  have s: "s = concat (map hex_byte ?ds)"
  proof -
    have "concat (map hex_arg args) = concat (map hex_byte ?ds)"
      by (induction args) (simp_all add: hex_arg_def)
    then show ?thesis using assms(1) by (auto simp: encode_args_def Let_def split: if_splits)
  qed
  obtain b where b: "decode_loop (s @ [0]) 0 0 = Some (length (filter (\<lambda>c. c = 0) ?ds), b)"
    "length b = length (s @ [0])" "take (length ?ds) (drop 1 b) = ?ds"
    using decode_loop_hex [of 0 "s @ [0]" ?ds 0] s by auto
  have n: "length (filter (\<lambda>c. c = 0) ?ds) = length args"
    using assms(3) by (induction args) (auto simp: filter_empty_conv)
  let ?b = "b[0 := 0]"
  have "?b = 0 # drop 1 b" using b(2) by (cases b) auto
  then have "drop 0 ?b = 0 # ?ds @ drop (length ?ds) (drop 1 b)"
    using append_take_drop_id [of "length ?ds" "drop 1 b"] b(3) by simp
  from collect_args_strings [OF assms(3) this] obtain ps where
    "collect_args ?b 0 (length args) = Some ps" "map (c_string ?b) ps = args" by blast
  then show ?thesis using b(1) n assms(2) by (simp add: decode_args_def)
qed

lemma encode_args_length: "encode_args args = (if 2 * (sum_list (map length args) + length args) < 65536
    then Some (concat (map hex_arg args)) else None)"
proof -
  have h: "length (concat (map hex_byte ds)) = 2 * length ds" for ds
    by (induction ds) (simp_all add: hex_byte_def)
  have "length (concat (map hex_arg args)) = 2 * (sum_list (map length args) + length args)"
    by (induction args) (simp_all add: hex_arg_def h hex_byte_def [of 0])
  then show ?thesis by (simp add: encode_args_def Let_def)
qed

text \<open>C35: the arguments of \<open>pppd\<close> survive the way through its environment. Any nonempty list of
  strings that fits into the buffer of 65536 bytes (twice its characters and terminators)
  is what \<open>pppd\<close> finds after decoding the variable in place; a longer list overruns the
  buffer of \<open>start_pppd\<close>.\<close>

theorem pppd_args_round_trip:
  assumes "args \<noteq> []" "\<forall>a \<in> set args. 0 \<notin> set a"
  shows "Option.bind (encode_args args) decode_args =
    (if 2 * (sum_list (map length args) + length args) < 65536 then Some args else None)"
  using decode_encode [OF _ assms, of "concat (map hex_arg args)"] by (simp add: encode_args_length)

theorem pppd_args_round_trip_witness:
  "Option.bind (encode_args [[112, 112, 112], [], [255, 65]]) decode_args = Some [[112, 112, 112], [], [255, 65]]"
  using pppd_args_round_trip [of "[[112, 112, 112], [], [255, 65]]"] by simp

end
