(* ===== verification/Pptp.thy ===== *)
theory Pptp
  imports Mtp
begin

text \<open>
  The PPTP client, \<open>mtpd/pptp.c\<close>: the control connection of RFC 2637 over TCP. The union of the
  message formats is the buffer of 220 bytes, its fields are read and written at their
  offsets: length 0, type 2, cookie 4, message 8, and from 12 on the fields of a message.
  The 16-bit values that the code keeps in network order are kept here by their value in
  that order. Functions return \<open>None\<close> for an access outside of a buffer.
\<close>

section \<open>State\<close>

definition PPTP_SCCRQ :: u16 where "PPTP_SCCRQ = 1"
definition PPTP_SCCRP :: u16 where "PPTP_SCCRP = 2"
definition PPTP_STOPCCRQ :: u16 where "PPTP_STOPCCRQ = 3"
definition PPTP_ECHORQ :: u16 where "PPTP_ECHORQ = 5"
definition PPTP_ECHORP :: u16 where "PPTP_ECHORP = 6"
definition PPTP_OCRQ :: u16 where "PPTP_OCRQ = 7"
definition PPTP_OCRP :: u16 where "PPTP_OCRP = 8"
definition PPTP_ICRQ :: u16 where "PPTP_ICRQ = 9"
definition PPTP_ICRP :: u16 where "PPTP_ICRP = 10"
definition PPTP_CCRQ :: u16 where "PPTP_CCRQ = 12"
definition PPTP_CDN :: u16 where "PPTP_CDN = 13"
definition PPTP_WEN :: u16 where "PPTP_WEN = 14"
definition PPTP_SLI :: u16 where "PPTP_SLI = 15"
definition PPTP_MESSAGE_MAX :: u16 where "PPTP_MESSAGE_MAX = 15"

lemmas pptp_message_defs = PPTP_SCCRQ_def PPTP_SCCRP_def PPTP_STOPCCRQ_def PPTP_ECHORQ_def PPTP_ECHORP_def PPTP_OCRQ_def PPTP_OCRP_def
  PPTP_ICRQ_def PPTP_ICRP_def PPTP_CCRQ_def PPTP_CDN_def PPTP_WEN_def PPTP_SLI_def PPTP_MESSAGE_MAX_def

definition lengths :: "nat list" where
  "lengths = [0, 156, 156, 16, 16, 16, 20, 168, 32, 220, 24, 28, 16, 148, 40, 24]"

definition CONTROL_MESSAGE :: u16 where "CONTROL_MESSAGE = 1"
definition MAGIC_COOKIE :: u32 where "MAGIC_COOKIE = 0x1A2B3C4D"
definition PPTP_PROTOCOL_VERSION :: u16 where "PPTP_PROTOCOL_VERSION = 0x0100"
definition HEADER_SIZE :: int where "HEADER_SIZE = 8"
definition MIN_MESSAGE_SIZE :: int where "MIN_MESSAGE_SIZE = 10"
definition PPTP_MAX_PACKET_LENGTH :: int where "PPTP_MAX_PACKET_LENGTH = 220"
definition RESULT_OK :: u8 where "RESULT_OK = 1"
definition RESULT_ERROR :: u8 where "RESULT_ERROR = 2"

definition established :: "u8 \<Rightarrow> bool" where
  "established result \<longleftrightarrow> result \<le> 1"

record pptp =
  p_local :: u16
  p_remote :: u16
  p_state :: u16
  in_length :: int
  in_expect :: int
  in_buffer :: bytes
  out_length :: int
  out_buffer :: bytes

text \<open>The static variables are zero at the start.\<close>

definition pptp_init :: pptp where
  "pptp_init = \<lparr>p_local = 0, p_remote = 0, p_state = 0, in_length = 0, in_expect = 0, in_buffer = replicate 220 0,
     out_length = 0, out_buffer = replicate 220 0\<rparr>"

section \<open>Sending\<close>

definition pptp_set_message :: "u16 \<Rightarrow> pptp \<Rightarrow> pptp option" where
  "pptp_set_message message p =
     (if length lengths \<le> unat message then None
      else do {
        let len = lengths ! unat message;
        b \<leftarrow> wr_bytes (out_buffer p) 0 (replicate len 0);
        b \<leftarrow> wr16 b 0 (of_nat len);
        b \<leftarrow> wr16 b 2 CONTROL_MESSAGE;
        b \<leftarrow> wr32 b 4 MAGIC_COOKIE;
        b \<leftarrow> wr16 b 8 message;
        Some (p\<lparr>out_buffer := b, out_length := int len\<rparr>)
      })"

definition put16 :: "nat \<Rightarrow> u16 \<Rightarrow> pptp \<Rightarrow> pptp option" where
  "put16 i v p = do { b \<leftarrow> wr16 (out_buffer p) i v; Some (p\<lparr>out_buffer := b\<rparr>) }"

definition put32 :: "nat \<Rightarrow> u32 \<Rightarrow> pptp \<Rightarrow> pptp option" where
  "put32 i v p = do { b \<leftarrow> wr32 (out_buffer p) i v; Some (p\<lparr>out_buffer := b\<rparr>) }"

definition put_bytes :: "nat \<Rightarrow> bytes \<Rightarrow> pptp \<Rightarrow> pptp option" where
  "put_bytes i d p = do { b \<leftarrow> wr_bytes (out_buffer p) i d; Some (p\<lparr>out_buffer := b\<rparr>) }"

definition pptp_send_packet :: "pptp \<Rightarrow> mtp \<Rightarrow> mtp option" where
  "pptp_send_packet p m = do { d \<leftarrow> rd_bytes (out_buffer p) 0 (nat (out_length p)); Some (msend d m) }"

section \<open>Receiving\<close>

text \<open>The first part of \<open>recv_packet\<close>: a new message starts, and how much is asked for. The part of
  a message behind 220 bytes goes into a buffer of its own.\<close>

definition recv_start :: "pptp \<Rightarrow> pptp" where
  "recv_start p = (if in_expect p = 0 then p\<lparr>in_length := 0, in_expect := HEADER_SIZE\<rparr> else p)"

definition recv_request :: "pptp \<Rightarrow> int" where
  "recv_request p =
     (if PPTP_MAX_PACKET_LENGTH \<le> in_length p then in_expect p - in_length p
      else if PPTP_MAX_PACKET_LENGTH < in_expect p then PPTP_MAX_PACKET_LENGTH - in_length p
      else in_expect p - in_length p)"

text \<open>The check of a header that is just complete; the flag says whether it is wrong.\<close>

definition recv_header :: "pptp \<Rightarrow> (bool \<times> pptp) option" where
  "recv_header p =
     (if in_length p = HEADER_SIZE \<and> in_expect p = HEADER_SIZE then do {
        cookie \<leftarrow> rd32 (in_buffer p) 4;
        if cookie \<noteq> MAGIC_COOKIE then Some (True, p)
        else do {
          len \<leftarrow> rd16 (in_buffer p) 0;
          Some (int (unat len) < HEADER_SIZE, p\<lparr>in_expect := int (unat len)\<rparr>)
        }
      }
      else Some (False, p))"

definition recv_complete :: "pptp \<Rightarrow> (int \<times> pptp) option" where
  "recv_complete p =
     (if in_length p = in_expect p then do {
        type \<leftarrow> rd16 (in_buffer p) 2;
        Some (if type = CONTROL_MESSAGE then 1 else 0, p\<lparr>in_expect := 0\<rparr>)
      }
      else Some (0, p))"

text \<open>The second part, when data has come.\<close>

definition recv_data :: "pptp \<Rightarrow> bytes \<Rightarrow> (int \<times> pptp) option" where
  "recv_data p d = do {
     b \<leftarrow> (if PPTP_MAX_PACKET_LENGTH \<le> in_length p then Some (in_buffer p)
           else wr_bytes (in_buffer p) (nat (in_length p)) d);
     if d = [] then Some (- REMOTE_REQUESTED, p\<lparr>in_buffer := b\<rparr>)
     else do {
       (err, p) \<leftarrow> recv_header (p\<lparr>in_buffer := b, in_length := in_length p + int (length d)\<rparr>);
       if err then Some (- PROTOCOL_ERROR, p) else recv_complete p
     }
   }"

definition pptp_recv_packet :: "mtp_env \<Rightarrow> pptp \<Rightarrow> mtp \<Rightarrow> (int, pptp \<times> mtp) ret option" where
  "pptp_recv_packet env p m =
     (let p = recv_start p; len = recv_request p;
          m = memit (M_recv (the_socket m) len) m in
      case me_recv env (m_io m) of
        R_eintr \<Rightarrow> Some (Ret 0 (p, m))
      | R_error \<Rightarrow> Some (Quit NETWORK_ERROR (p, m))
      | R_data d \<Rightarrow> map_option (\<lambda>(r, p). Ret r (p, m)) (recv_data p (take (nat len) d)))"

section \<open>The operations of the protocol\<close>

text \<open>The server and the port are the arguments.\<close>

definition pptp_connect :: "mtp_env \<Rightarrow> pptp \<Rightarrow> mtp \<Rightarrow> bytes list \<Rightarrow> (int, pptp \<times> mtp) ret option" where
  "pptp_connect env p m args =
     (case args of
        server # port # _ \<Rightarrow>
          (case create_server_socket env m server port of
             Quit code m \<Rightarrow> Some (Quit code (p, m))
           | Execed m \<Rightarrow> Some (Execed (p, m))
           | Ret _ m \<Rightarrow> do {
               p \<leftarrow> pptp_set_message PPTP_SCCRQ (p\<lparr>p_state := PPTP_SCCRQ\<rparr>);
               p \<leftarrow> put16 12 PPTP_PROTOCOL_VERSION p;
               p \<leftarrow> put32 16 3 p;
               p \<leftarrow> put32 20 3 p;
               p \<leftarrow> put16 24 1 p;
               p \<leftarrow> put_bytes 28 [97, 110, 111, 110, 121, 109, 111, 117, 115, 0] p;
               m \<leftarrow> pptp_send_packet p m;
               Some (Ret 0 (p, m))
             })
      | _ \<Rightarrow> None)"

definition pptp_create_pppox :: "mtp_env \<Rightarrow> pptp \<Rightarrow> mtp \<Rightarrow> (int, mtp) ret" where
  "pptp_create_pppox env p m =
     (let m = memit M_pppox_socket m; pppox = me_socket env (m_io m) in
      if pppox = - 1 then Quit SYSTEM_ERROR m
      else
        let m = memit (M_pppox_connect pppox (the_socket m) [p_local p, p_remote p]) m in
        if me_ok env (m_io m) then Ret pppox m else Quit SYSTEM_ERROR m)"

text \<open>The answers to a message, after the checks of \<open>pptp_process\<close>.\<close>

definition pptp_dispatch :: "mtp_env \<Rightarrow> (int \<Rightarrow> bytes) \<Rightarrow> u16 \<Rightarrow> pptp \<Rightarrow> mtp \<Rightarrow> (int, pptp \<times> mtp) ret option" where
  "pptp_dispatch env number message p m =
     (let b = in_buffer p in
      if message = PPTP_SCCRP \<and> p_state p = PPTP_SCCRQ then do {
        version \<leftarrow> rd16 b 12;
        result \<leftarrow> rd8 b 14;
        if version = PPTP_PROTOCOL_VERSION \<and> established result then do {
          (lo, m) \<leftarrow> pick16 env (p_local p) m;
          p \<leftarrow> pptp_set_message PPTP_OCRQ (p\<lparr>p_local := lo, p_state := PPTP_OCRQ\<rparr>);
          p \<leftarrow> put16 12 lo p;
          let (r, m) = mrandom env m;
          p \<leftarrow> put16 14 (bswap16 (ucast r)) p;
          p \<leftarrow> put32 16 1000 p;
          p \<leftarrow> put32 20 100000000 p;
          p \<leftarrow> put32 24 3 p;
          p \<leftarrow> put32 28 3 p;
          p \<leftarrow> put16 32 8192 p;
          m \<leftarrow> pptp_send_packet p m;
          Some (Ret 0 (p, m))
        }
        else Some (Ret (- REMOTE_REQUESTED) (p, m))
      }
      else if message = PPTP_OCRP then do {
        peer \<leftarrow> rd16 b 14;
        result \<leftarrow> rd8 b 16;
        call \<leftarrow> rd16 b 12;
        if p_state p = PPTP_OCRQ \<and> peer = p_local p then
          (if established result then
             let p = p\<lparr>p_remote := call, p_state := PPTP_OCRP\<rparr> in
             case pptp_create_pppox env p m of
               Quit code m \<Rightarrow> Some (Quit code (p, m))
             | Execed m \<Rightarrow> Some (Execed (p, m))
             | Ret pppox m \<Rightarrow> do {
                 r \<leftarrow> start_pppd env number m pppox;
                 Some (case r of Ret _ m \<Rightarrow> Ret 0 (p, m) | Quit code m \<Rightarrow> Quit code (p, m)
                   | Execed m \<Rightarrow> Execed (p, m))
               }
           else Some (Ret (- REMOTE_REQUESTED) (p, m)))
        else Some (Ret 0 (p, m))
      }
      else if message = PPTP_STOPCCRQ then Some (Ret (- REMOTE_REQUESTED) (p\<lparr>p_state := PPTP_STOPCCRQ\<rparr>, m))
      else if message = PPTP_CCRQ \<or> message = PPTP_CDN then do {
        call \<leftarrow> rd16 b 12;
        Some (Ret (if p_state p = PPTP_OCRP \<and> call = p_remote p then - REMOTE_REQUESTED else 0) (p, m))
      }
      else if message = PPTP_ECHORQ then do {
        identifier \<leftarrow> rd32 b 12;
        p \<leftarrow> pptp_set_message PPTP_ECHORP p;
        p \<leftarrow> put32 12 identifier p;
        p \<leftarrow> put_bytes 16 [RESULT_OK] p;
        m \<leftarrow> pptp_send_packet p m;
        Some (Ret 0 (p, m))
      }
      else if message = PPTP_ICRQ then do {
        call \<leftarrow> rd16 b 12;
        p \<leftarrow> pptp_set_message PPTP_ICRP p;
        p \<leftarrow> put16 14 call p;
        p \<leftarrow> put_bytes 16 [RESULT_ERROR] p;
        m \<leftarrow> pptp_send_packet p m;
        Some (Ret 0 (p, m))
      }
      else if message = PPTP_OCRQ then do {
        call \<leftarrow> rd16 b 12;
        p \<leftarrow> pptp_set_message PPTP_OCRP p;
        p \<leftarrow> put16 14 call p;
        p \<leftarrow> put_bytes 16 [RESULT_ERROR] p;
        m \<leftarrow> pptp_send_packet p m;
        Some (Ret 0 (p, m))
      }
      else Some (Ret 0 (p, m)))"

text \<open>The message number is converted to host order in place, which swaps its two bytes in the
  buffer.\<close>

definition pptp_process :: "mtp_env \<Rightarrow> (int \<Rightarrow> bytes) \<Rightarrow> pptp \<Rightarrow> mtp \<Rightarrow> (int, pptp \<times> mtp) ret option" where
  "pptp_process env number p m = do {
     r \<leftarrow> pptp_recv_packet env p m;
     case r of
       Quit code s \<Rightarrow> Some (Quit code s)
     | Execed s \<Rightarrow> Some (Execed s)
     | Ret result (p, m) \<Rightarrow>
         if result \<le> 0 then Some (Ret result (p, m))
         else if in_length p < MIN_MESSAGE_SIZE then Some (Ret 0 (p, m))
         else do {
           message \<leftarrow> rd16 (in_buffer p) 8;
           b \<leftarrow> wr16 (in_buffer p) 8 (bswap16 message);
           let p = p\<lparr>in_buffer := b\<rparr>;
           if message > PPTP_MESSAGE_MAX \<or> message = 0 then Some (Ret 0 (p, m))
           else if in_length p < int (lengths ! unat message) then Some (Ret 0 (p, m))
           else pptp_dispatch env number message p m
         }
   }"

definition pptp_timeout :: "pptp \<Rightarrow> mtp \<Rightarrow> (int, pptp \<times> mtp) ret option" where
  "pptp_timeout p m = Some (Ret 0 (p, m))"

definition pptp_shutdown :: "pptp \<Rightarrow> mtp \<Rightarrow> (pptp \<times> mtp) option" where
  "pptp_shutdown p m = Some (p, m)"

end
