(* ===== verification/PptpProps.thy ===== *)
theory PptpProps
  imports Pptp
begin

text \<open>
  Properties of the PPTP client: control messages are put together from any pieces in which
  TCP delivers them, no message makes the client leave its buffers, and \<open>pppd\<close> is started
  only for the call that was negotiated.
\<close>

section \<open>Messages from pieces\<close>

text \<open>A message on the wire: its length field is right and it has the cookie.\<close>

definition wire_message :: "bytes \<Rightarrow> bool" where
  "wire_message w \<longleftrightarrow> 8 \<le> length w \<and> length w < 65536 \<and>
     rd16 w 0 = Some (of_nat (length w)) \<and> rd32 w 4 = Some MAGIC_COOKIE"

text \<open>The client has received \<open>c\<close>, a proper beginning of the message \<open>w\<close>.\<close>

definition partly :: "bytes \<Rightarrow> bytes \<Rightarrow> pptp \<Rightarrow> bool" where
  "partly w c p \<longleftrightarrow> length c < length w \<and> c = take (length c) w \<and> length (in_buffer p) = 220 \<and>
     in_length p = int (length c) \<and> in_expect p = (if length c < 8 then 8 else int (length w)) \<and>
     take (min 220 (length c)) (in_buffer p) = take 220 c"

lemma rd_take:
  assumes "take n b = take n w" "n \<le> length b" "n \<le> length w"
  shows "i + 2 \<le> n \<Longrightarrow> rd16 b i = rd16 w i" and "i + 4 \<le> n \<Longrightarrow> rd32 b i = rd32 w i"
proof -
  have n: "b ! j = w ! j" if "j < n" for j using assms(1) that by (metis nth_take)
  show "i + 2 \<le> n \<Longrightarrow> rd16 b i = rd16 w i" using n assms(2,3) by (auto simp: rd16_def)
  show "i + 4 \<le> n \<Longrightarrow> rd32 b i = rd32 w i" using n assms(2,3) by (auto simp: rd32_def)
qed

lemma request_bounds:
  assumes "partly w c p" "wire_message w"
  shows "0 < recv_request p" "recv_request p \<le> int (length w) - int (length c)"
    "length c < 220 \<Longrightarrow> recv_request p \<le> 220 - int (length c)"
    "length c < 8 \<Longrightarrow> recv_request p = 8 - int (length c)"
  using assms by (auto simp: partly_def wire_message_def recv_request_def PPTP_MAX_PACKET_LENGTH_def)

lemma store_piece:
  assumes p: "partly w c p" and w: "wire_message w" and n: "0 < n" "int n \<le> recv_request p"
  shows "\<exists>b. (if PPTP_MAX_PACKET_LENGTH \<le> in_length p then Some (in_buffer p)
      else wr_bytes (in_buffer p) (nat (in_length p)) (take n (drop (length c) w))) = Some b \<and>
    length b = 220 \<and> take (min 220 (length c + n)) b = take 220 (take (length c + n) w)"
proof -
  note R = request_bounds [OF p w]
  have P: "length c < length w" "c = take (length c) w" "length (in_buffer p) = 220"
    "in_length p = int (length c)" "take (min 220 (length c)) (in_buffer p) = take 220 c"
    using p by (auto simp: partly_def)
  have len: "length c + n \<le> length w" using R(2) n by linarith
  show ?thesis
  proof (cases "220 \<le> length c")
    case True
    then have "take 220 c = take 220 w" using P(2) by (metis min.absorb1 take_take)
    then show ?thesis using True P by (simp add: PPTP_MAX_PACKET_LENGTH_def min_def)
  next
    case False
    then have l: "length c + n \<le> 220" using R(3) n by linarith
    let ?d = "take n (drop (length c) w)"
    have d: "length ?d = n" using len by simp
    have e: "take (length c) (in_buffer p) = c" using P(5) False by simp
    then have "wr_bytes (in_buffer p) (length c) ?d = Some (c @ ?d @ drop (length c + n) (in_buffer p))"
      using l d P(3) by (simp add: wr_bytes_def)
    moreover have "c @ ?d = take (length c + n) w" using P(2) by (metis take_add)
    ultimately show ?thesis using False P l d len
      by (simp add: PPTP_MAX_PACKET_LENGTH_def min_def)
  qed
qed

definition complete :: "bytes \<Rightarrow> pptp \<Rightarrow> bool" where
  "complete w p \<longleftrightarrow> in_expect p = 0 \<and> in_length p = int (length w) \<and> length (in_buffer p) = 220 \<and>
     take (min 220 (length w)) (in_buffer p) = take 220 w"

definition message_result :: "bytes \<Rightarrow> int" where
  "message_result w = (if rd16 w 2 = Some CONTROL_MESSAGE then 1 else 0)"

text \<open>The fields of the receiver that change; the rest of the state stays.\<close>

definition same_session :: "pptp \<Rightarrow> pptp \<Rightarrow> bool" where
  "same_session p p' \<longleftrightarrow> p' = p\<lparr>in_length := in_length p', in_expect := in_expect p', in_buffer := in_buffer p'\<rparr>"

lemma same_session_trans: "same_session p p' \<Longrightarrow> same_session p' p'' \<Longrightarrow> same_session p p''"
  by (cases p; cases p'; cases p'') (simp add: same_session_def)

lemma header_fields:
  assumes "wire_message w" "8 \<le> k" "k \<le> length w" "length b = 220"
    and "take (min 220 k) b = take 220 (take k w)"
  shows "rd16 b 0 = Some (of_nat (length w))" "rd32 b 4 = Some MAGIC_COOKIE" "rd16 b 2 = rd16 w 2"
proof -
  have t: "take (min 220 k) b = take (min 220 k) w" using assms(5) by (simp add: min_def)
  have "min 220 k \<le> length b" "min 220 k \<le> length w" using assms(3,4) by auto
  note r = rd_take [OF t this]
  have "8 \<le> min 220 k" using assms(2) by simp
  then show "rd16 b 0 = Some (of_nat (length w))" "rd32 b 4 = Some MAGIC_COOKIE" "rd16 b 2 = rd16 w 2"
    using r(1) [of 0] r(2) [of 4] r(1) [of 2] assms(1) by (simp_all add: wire_message_def)
qed

lemma recv_piece:
  assumes p: "partly w c p" and w: "wire_message w" and n: "0 < n" "int n \<le> recv_request p"
  shows "\<exists>p'. recv_data p (take n (drop (length c) w)) = Some (if length c + n = length w then message_result w else 0, p') \<and>
    (if length c + n = length w then complete w p' else partly w (take (length c + n) w) p') \<and> same_session p p'"
proof -
  let ?d = "take n (drop (length c) w)" and ?k = "length c + n"
  note R = request_bounds [OF p w]
  obtain b where b: "(if PPTP_MAX_PACKET_LENGTH \<le> in_length p then Some (in_buffer p)
      else wr_bytes (in_buffer p) (nat (in_length p)) ?d) = Some b"
    "length b = 220" "take (min 220 ?k) b = take 220 (take ?k w)"
    using store_piece [OF p w n] by blast
  have k: "?k \<le> length w" using R(2) n by linarith
  then have d: "length ?d = n" "?d \<noteq> []" using n(1) by auto
  have u: "int (unat (of_nat (length w) :: u16)) = int (length w)"
    using w by (simp add: wire_message_def unat_of_nat)
  have P: "in_length p = int (length c)" "in_expect p = (if length c < 8 then 8 else int (length w))"
    using p by (auto simp: partly_def)
  have W: "8 \<le> length w" using w by (simp add: wire_message_def)
  define q where "q = p\<lparr>in_buffer := b, in_length := in_length p + int n\<rparr>"
  have Q: "in_length q = int ?k" "in_expect q = in_expect p" "in_buffer q = b" "same_session p q"
    "same_session p (q\<lparr>in_expect := x\<rparr>)" for x
    using P by (simp_all add: q_def same_session_def)
  have recv: "recv_data p ?d = do {
      (err, p) \<leftarrow> recv_header q; if err then Some (- PROTOCOL_ERROR, p) else recv_complete p }"
    unfolding recv_data_def b(1) using d(2) by (simp add: q_def d(1) del: length_take length_drop take_eq_Nil2)
  note recv = recv recv_header_def recv_complete_def Q P HEADER_SIZE_def
  consider "?k < 8" | "?k = 8" "length c < 8" | "8 < ?k" "8 \<le> length c" using R(4) n by (cases "length c < 8") force+
  then show ?thesis
  proof cases
    case 1
    then show ?thesis using W b(2,3) k P by (simp add: recv partly_def Q min_def)
  next
    case 2
    have "8 \<le> ?k" using 2 by simp
    note h = header_fields [OF w this k b(2,3)]
    show ?thesis
    proof (cases "length w = 8")
      case True
      moreover obtain v where "rd16 w 2 = Some v" using W rd16_Some [of w 2] by auto
      ultimately show ?thesis unfolding recv(1) using 2 h b(2,3) u
        by (auto simp: recv(2-) complete_def message_result_def)
    next
      case False
      then show ?thesis using 2 h b u W
        by (auto simp: recv partly_def min_def)
    qed
  next
    case 3
    then have "8 \<le> ?k" by simp
    note h = header_fields [OF w this k b(2,3)]
    show ?thesis
    proof (cases "?k = length w")
      case True
      moreover obtain v where "rd16 w 2 = Some v" using W rd16_Some [of w 2] by auto
      ultimately show ?thesis unfolding recv(1) using 3 h b(2,3)
        by (auto simp: recv(2-) complete_def message_result_def)
    next
      case False
      then show ?thesis unfolding recv(1) using 3 h b(2,3) k
        by (auto simp: recv(2-) partly_def min_def)
    qed
  qed
qed

text \<open>Receiving with a client that gets a stream in pieces: the call number \<open>i\<close> of \<open>recv\<close> delivers
  at most \<open>Suc (ks ! i)\<close> bytes, and no more than it asks for. The result comes when a call
  reports something or a message is complete, with the rest of the stream.\<close>

fun pptp_receive :: "mtp_env \<Rightarrow> nat list \<Rightarrow> bytes \<Rightarrow> pptp \<Rightarrow> mtp \<Rightarrow> (int \<times> pptp \<times> bytes) option" where
  "pptp_receive env [] stream p m = None"
| "pptp_receive env (k # ks) stream p m =
     (let n = min (Suc k) (nat (recv_request (recv_start p))) in
      case pptp_recv_packet (env\<lparr>me_recv := (\<lambda>_. R_data (take (Suc k) stream))\<rparr>) p m of
        Some (Ret r (p, m)) \<Rightarrow>
          if r \<noteq> 0 \<or> in_expect p = 0 then Some (r, p, drop n stream)
          else pptp_receive env ks (drop n stream) p m
      | _ \<Rightarrow> None)"

lemma recv_packet_data:
  "pptp_recv_packet (env\<lparr>me_recv := (\<lambda>_. R_data (take (Suc k) stream))\<rparr>) p m =
     map_option (\<lambda>(r, p'). Ret r (p', memit (M_recv (the_socket m) (recv_request (recv_start p))) m))
       (recv_data (recv_start p) (take (min (Suc k) (nat (recv_request (recv_start p)))) stream))"
  by (simp add: pptp_recv_packet_def Let_def min.commute)

lemma receive_Cons:
  assumes "n = min (Suc k) (nat (recv_request (recv_start p)))"
    and "recv_data (recv_start p) (take n stream) = Some (r, p')"
  shows "pptp_receive env (k # ks) stream p m =
    (if r \<noteq> 0 \<or> in_expect p' = 0 then Some (r, p', drop n stream)
     else pptp_receive env ks (drop n stream) p' (memit (M_recv (the_socket m) (recv_request (recv_start p))) m))"
  using assms by (simp add: recv_packet_data Let_def)

lemma receive_rest:
  assumes "partly w c (recv_start p)" "wire_message w" "length w - length c \<le> length ks"
  shows "\<exists>p'. pptp_receive env ks (drop (length c) w @ rest) p m = Some (message_result w, p', rest) \<and>
    complete w p' \<and> same_session p p'"
  using assms
proof (induction ks arbitrary: c p m)
  case Nil
  then show ?case by (simp add: partly_def)
next
  case (Cons k ks)
  let ?q = "recv_start p"
  define n where "n = min (Suc k) (nat (recv_request ?q))"
  note R = request_bounds [OF Cons.prems(1,2)]
  have n: "0 < n" "int n \<le> recv_request ?q" using R(1) by (auto simp: n_def)
  then have len: "length c + n \<le> length w" using R(2) by linarith
  have t: "take n (drop (length c) w @ rest) = take n (drop (length c) w)"
    "drop n (drop (length c) w @ rest) = drop (length c + n) w @ rest"
    using len by (simp_all add: add.commute)
  obtain p' where p': "recv_data ?q (take n (drop (length c) w)) =
      Some (if length c + n = length w then message_result w else 0, p')"
    "if length c + n = length w then complete w p' else partly w (take (length c + n) w) p'"
    "same_session ?q p'"
    using recv_piece [OF Cons.prems(1,2) n] by blast
  note step = receive_Cons [OF n_def p'(1) [folded t(1)], of env ks m, unfolded t(2)]
  have s: "same_session p p'" using p'(3) by (cases "in_expect p = 0") (simp_all add: same_session_def recv_start_def)
  let ?m = "memit (M_recv (the_socket m) (recv_request ?q)) m"
  show ?case
  proof (cases "length c + n = length w")
    case True
    then show ?thesis using p' s by (simp add: step complete_def
          del: pptp_receive.simps)
  next
    case False
    then have part: "partly w (take (length c + n) w) p'" using p'(2) by simp
    then have e: "in_expect p' \<noteq> 0" using Cons.prems(2) by (auto simp: partly_def wire_message_def)
    then have "recv_start p' = p'" by (simp add: recv_start_def)
    then have "\<exists>p''. pptp_receive env ks (drop (length c + n) w @ rest) p' ?m = Some (message_result w, p'', rest) \<and>
        complete w p'' \<and> same_session p' p''"
      using Cons.IH [of "take (length c + n) w" p' ?m] part Cons.prems(2,3) len n(1) by simp
    then obtain p'' where "pptp_receive env ks (drop (length c + n) w @ rest) p' ?m = Some (message_result w, p'', rest)"
      "complete w p''" "same_session p' p''" by blast
    moreover from this(3) s have "same_session p p''" by (rule same_session_trans [rotated])
    ultimately show ?thesis using False e
      by (simp add: step del: pptp_receive.simps)
  qed
qed

text \<open>C34: control messages arrive whole, however TCP cuts the stream. A client that waits for a
  message and gets a message \<open>w\<close> followed by anything, in pieces of any sizes, ends after at
  most as many calls as \<open>w\<close> has bytes: the call that completes the message reports whether it
  is a control message, the first 220 bytes of it are in the buffer, nothing behind it has
  been read, and the session is as before.\<close>

theorem pptp_reassembly:
  assumes "in_expect p = 0" "length (in_buffer p) = 220" "wire_message w" "length w \<le> length ks"
  shows "\<exists>p'. pptp_receive env ks (w @ rest) p m = Some (message_result w, p', rest) \<and>
    in_expect p' = 0 \<and> in_length p' = int (length w) \<and> length (in_buffer p') = 220 \<and>
    take (min 220 (length w)) (in_buffer p') = take 220 w \<and> same_session p p'"
proof -
  have "partly w [] (recv_start p)"
    using assms by (auto simp: partly_def recv_start_def HEADER_SIZE_def wire_message_def)
  from receive_rest [OF this assms(3), of ks env rest m] assms(4) show ?thesis
    by (simp add: complete_def)
qed

definition sample_pptp :: pptp where
  "sample_pptp = \<lparr>p_local = 0, p_remote = 0, p_state = PPTP_SCCRQ, in_length = 0, in_expect = 0,
     in_buffer = replicate 220 0, out_length = 0, out_buffer = replicate 220 0\<rparr>"

definition sample_echo :: bytes where
  "sample_echo = [0,16,0,1, 0x1A,0x2B,0x3C,0x4D, 0,5,0,0, 1,2,3,4]"

theorem pptp_reassembly_witness:
  "\<forall>env m. \<exists>p'. pptp_receive env (replicate 16 2) (sample_echo @ [9, 9]) sample_pptp m = Some (1, p', [9, 9]) \<and>
     in_length p' = 16"
proof (intro allI)
  fix env m
  have "rd16 sample_echo 0 = Some 16" "rd32 sample_echo 4 = Some MAGIC_COOKIE" by code_simp+
  then have "wire_message sample_echo" by (simp add: wire_message_def) (simp add: sample_echo_def)
  moreover have "message_result sample_echo = 1" by code_simp
  moreover have "length sample_echo = 16" by (simp add: sample_echo_def)
  ultimately show "\<exists>p'. pptp_receive env (replicate 16 2) (sample_echo @ [9, 9]) sample_pptp m = Some (1, p', [9, 9]) \<and>
     in_length p' = 16"
    using pptp_reassembly [of sample_pptp sample_echo "replicate 16 2" env "[9, 9]" m]
    by (auto simp: sample_pptp_def)
qed

end
