(* ===== verification/L2tp.thy ===== *)
theory L2tp
  imports Mtp
begin

text \<open>
  The L2TP client, \<open>mtpd/l2tp.c\<close>: the control connection of RFC 2661 over UDP with one session,
  a window of one message, retransmission on timeout, attributes (also hidden ones) and the
  challenge of the tunnel. Tunnel and session identifiers, which the code keeps in network
  order, are kept by their value in that order. MD5 comes from OpenSSL and is the parameter
  \<open>md5\<close>, a function on the concatenation of the updates. Functions return \<open>None\<close> for an access
  outside of a buffer.
\<close>

section \<open>State\<close>

definition L2TP_ACK :: u16 where "L2TP_ACK = 0"
definition L2TP_SCCRQ :: u16 where "L2TP_SCCRQ = 1"
definition L2TP_SCCRP :: u16 where "L2TP_SCCRP = 2"
definition L2TP_SCCCN :: u16 where "L2TP_SCCCN = 3"
definition L2TP_STOPCCN :: u16 where "L2TP_STOPCCN = 4"
definition L2TP_HELLO :: u16 where "L2TP_HELLO = 6"
definition L2TP_OCRQ :: u16 where "L2TP_OCRQ = 7"
definition L2TP_ICRQ :: u16 where "L2TP_ICRQ = 10"
definition L2TP_ICRP :: u16 where "L2TP_ICRP = 11"
definition L2TP_ICCN :: u16 where "L2TP_ICCN = 12"
definition L2TP_CDN :: u16 where "L2TP_CDN = 14"
definition L2TP_WEN :: u16 where "L2TP_WEN = 15"
definition L2TP_SLI :: u16 where "L2TP_SLI = 16"

lemmas l2tp_message_defs = L2TP_ACK_def L2TP_SCCRQ_def L2TP_SCCRP_def L2TP_SCCCN_def L2TP_STOPCCN_def
  L2TP_HELLO_def L2TP_OCRQ_def L2TP_ICRQ_def L2TP_ICRP_def L2TP_ICCN_def L2TP_CDN_def L2TP_WEN_def
  L2TP_SLI_def

definition RESULT_CODE :: u16 where "RESULT_CODE = 1"
definition L2TP_PROTOCOL_VERSION :: u16 where "L2TP_PROTOCOL_VERSION = 2"
definition FRAMING_CAPABILITIES :: u16 where "FRAMING_CAPABILITIES = 3"
definition HOST_NAME :: u16 where "HOST_NAME = 7"
definition ASSIGNED_TUNNEL :: u16 where "ASSIGNED_TUNNEL = 9"
definition WINDOW_SIZE :: u16 where "WINDOW_SIZE = 10"
definition CHALLENGE :: u16 where "CHALLENGE = 11"
definition CHALLENGE_RESPONSE :: u16 where "CHALLENGE_RESPONSE = 13"
definition ASSIGNED_SESSION :: u16 where "ASSIGNED_SESSION = 14"
definition CALL_SERIAL_NUMBER :: u16 where "CALL_SERIAL_NUMBER = 15"
definition FRAMING_TYPE :: u16 where "FRAMING_TYPE = 19"
definition CONNECT_SPEED :: u16 where "CONNECT_SPEED = 24"
definition RANDOM_VECTOR :: u16 where "RANDOM_VECTOR = 36"

definition MESSAGE_FLAG :: u16 where "MESSAGE_FLAG = 0xC802"
definition MESSAGE_MASK :: u16 where "MESSAGE_MASK = 0xCB0F"

definition attribute_flag :: "nat \<Rightarrow> u16" where
  "attribute_flag n = 0x8006 + of_nat n"

definition attribute_length :: "u16 \<Rightarrow> nat" where
  "attribute_length flag = unat (flag AND 0x03FF)"

definition attribute_hidden :: "u16 \<Rightarrow> bool" where
  "attribute_hidden flag \<longleftrightarrow> flag AND 0x4000 \<noteq> 0"

definition ACK_SIZE :: nat where "ACK_SIZE = 12"
definition MESSAGE_HEADER_SIZE :: nat where "MESSAGE_HEADER_SIZE = 20"
definition ATTRIBUTE_HEADER_SIZE :: nat where "ATTRIBUTE_HEADER_SIZE = 6"
definition MAX_ATTRIBUTE_SIZE :: nat where "MAX_ATTRIBUTE_SIZE = 1024"
definition L2TP_MAX_PACKET_LENGTH :: nat where "L2TP_MAX_PACKET_LENGTH = 2048"
definition MD5_DIGEST_LENGTH :: nat where "MD5_DIGEST_LENGTH = 16"
definition CHALLENGE_SIZE :: nat where "CHALLENGE_SIZE = 32"
definition TIMEOUT_INTERVAL :: int where "TIMEOUT_INTERVAL = 2000"

record l2tp =
  local_tunnel :: u16
  local_session :: u16
  local_sequence :: u16
  remote_tunnel :: u16
  remote_session :: u16
  remote_sequence :: u16
  l_state :: u16
  acknowledged :: bool
  secret :: "bytes option"
  challenge :: bytes
  li_message :: u16
  li_length :: nat
  li_buffer :: bytes
  lo_message :: u16
  lo_length :: nat
  lo_buffer :: bytes

text \<open>The static variables are zero at the start.\<close>

definition l2tp_init :: l2tp where
  "l2tp_init = \<lparr>local_tunnel = 0, local_session = 0, local_sequence = 0, remote_tunnel = 0, remote_session = 0,
     remote_sequence = 0, l_state = 0, acknowledged = False, secret = None, challenge = replicate CHALLENGE_SIZE 0,
     li_message = 0, li_length = 0, li_buffer = replicate L2TP_MAX_PACKET_LENGTH 0,
     lo_message = 0, lo_length = 0, lo_buffer = replicate L2TP_MAX_PACKET_LENGTH 0\<rparr>"

section \<open>Messages and attributes\<close>

definition l2tp_set_message :: "u16 \<Rightarrow> u16 \<Rightarrow> l2tp \<Rightarrow> l2tp option" where
  "l2tp_set_message session message s = do {
     b \<leftarrow> wr16 (lo_buffer s) 0 MESSAGE_FLAG;
     b \<leftarrow> wr16 b 4 (remote_tunnel s);
     b \<leftarrow> wr16 b 6 session;
     b \<leftarrow> wr16 b 8 (local_sequence s);
     b \<leftarrow> wr16 b 10 (remote_sequence s);
     b \<leftarrow> wr16 b 12 (attribute_flag 2);
     b \<leftarrow> wr16 b 14 0;
     b \<leftarrow> wr16 b 16 0;
     b \<leftarrow> wr16 b 18 message;
     Some (s\<lparr>lo_buffer := b, lo_message := message, lo_length := MESSAGE_HEADER_SIZE,
             local_sequence := local_sequence s + 1\<rparr>)
   }"

definition add_attribute_raw :: "u16 \<Rightarrow> bytes \<Rightarrow> l2tp \<Rightarrow> l2tp option" where
  "add_attribute_raw type value s = do {
     let i = lo_length s;
     b \<leftarrow> wr16 (lo_buffer s) i (attribute_flag (length value));
     b \<leftarrow> wr16 b (i + 2) 0;
     b \<leftarrow> wr16 b (i + 4) type;
     b \<leftarrow> wr_bytes b (i + 6) value;
     Some (s\<lparr>lo_buffer := b, lo_length := i + ATTRIBUTE_HEADER_SIZE + length value\<rparr>)
   }"

definition add_attribute_u16 :: "u16 \<Rightarrow> u16 \<Rightarrow> l2tp \<Rightarrow> l2tp option" where
  "add_attribute_u16 attribute value s = add_attribute_raw attribute [hi8 value, lo8 value] s"

definition add_attribute_u32 :: "u16 \<Rightarrow> u32 \<Rightarrow> l2tp \<Rightarrow> l2tp option" where
  "add_attribute_u32 attribute value s = add_attribute_raw attribute
     [hi8 (hi16 value), lo8 (hi16 value), hi8 (lo16 value), lo8 (lo16 value)] s"

definition l2tp_send_packet :: "l2tp \<Rightarrow> mtp \<Rightarrow> (l2tp \<times> mtp) option" where
  "l2tp_send_packet s m = do {
     b \<leftarrow> wr16 (lo_buffer s) 2 (of_nat (lo_length s));
     d \<leftarrow> rd_bytes b 0 (lo_length s);
     Some (s\<lparr>lo_buffer := b, acknowledged := False\<rparr>, msend d m)
   }"

definition send_ack :: "l2tp \<Rightarrow> mtp \<Rightarrow> mtp" where
  "send_ack s m = msend (concat (map (\<lambda>v. [hi8 v, lo8 v])
     [MESSAGE_FLAG, of_nat ACK_SIZE, remote_tunnel s, 0, local_sequence s, remote_sequence s])) m"

section \<open>Receiving\<close>

text \<open>The checks of \<open>recv_packet\<close> on the header of the datagram in the buffer; the result is the
  number of the message, an acknowledgement for a datagram without one, or nothing.\<close>

definition message_number :: "l2tp \<Rightarrow> u16 option option" where
  "message_number s =
     (let b = li_buffer s in
      if li_length s \<noteq> ACK_SIZE \<and> li_length s < MESSAGE_HEADER_SIZE then Some None
      else do {
        flag \<leftarrow> rd16 b 0;
        len \<leftarrow> rd16 b 2;
        tunnel \<leftarrow> rd16 b 4;
        if flag AND MESSAGE_MASK \<noteq> MESSAGE_FLAG \<or> unat len \<noteq> li_length s \<or> tunnel \<noteq> local_tunnel s
        then Some None
        else if li_length s = ACK_SIZE then Some (Some L2TP_ACK)
        else do {
          aflag \<leftarrow> rd16 b 12;
          vendor \<leftarrow> rd16 b 14;
          type \<leftarrow> rd16 b 16;
          number \<leftarrow> rd16 b 18;
          Some (if aflag = attribute_flag 2 \<and> vendor = 0 \<and> type = 0 then Some number else None)
        }
      })"

text \<open>The sequence numbers. The result is the session of a message that has to be handled.\<close>

definition accept_packet :: "l2tp \<Rightarrow> mtp \<Rightarrow> (u16 option \<times> l2tp \<times> mtp) option" where
  "accept_packet s m = do {
     message \<leftarrow> message_number s;
     case message of
       None \<Rightarrow> Some (None, s, m)
     | Some number \<Rightarrow> do {
         let s = s\<lparr>li_message := number\<rparr>;
         ns \<leftarrow> rd16 (li_buffer s) 8;
         nr \<leftarrow> rd16 (li_buffer s) 10;
         session \<leftarrow> rd16 (li_buffer s) 6;
         if ns - remote_sequence s > 32767
         then Some (None, s, if number \<noteq> L2TP_ACK then send_ack s m else m)
         else do {
           let s = (if nr = local_sequence s then s\<lparr>acknowledged := True\<rparr> else s);
           if ns \<noteq> remote_sequence s \<or> \<not> acknowledged s then Some (None, s, m)
           else Some (Some session,
             if number \<noteq> L2TP_ACK then s\<lparr>remote_sequence := remote_sequence s + 1\<rparr> else s, m)
         }
       }
   }"

definition l2tp_recv_packet :: "mtp_env \<Rightarrow> l2tp \<Rightarrow> mtp \<Rightarrow> (u16 option, l2tp \<times> mtp) ret option" where
  "l2tp_recv_packet env s m =
     (let m = memit (M_recv (the_socket m) (int L2TP_MAX_PACKET_LENGTH)) m in
      case me_recv env (m_io m) of
        R_eintr \<Rightarrow> Some (Ret None (s, m))
      | R_error \<Rightarrow> Some (Quit NETWORK_ERROR (s, m))
      | R_data d \<Rightarrow> do {
          let d = take L2TP_MAX_PACKET_LENGTH d;
          b \<leftarrow> wr_bytes (li_buffer s) 0 d;
          (session, s, m) \<leftarrow> accept_packet (s\<lparr>li_buffer := b, li_length := length d\<rparr>) m;
          Some (Ret session (s, m))
        })"

section \<open>Attributes of a received message\<close>

text \<open>The value of a hidden attribute: the bytes are added modulo 2 to a chain of hashes, the
  first of the type, the secret and the random vector, the next ones of the secret and the
  16 hidden bytes before.\<close>

fun unhide :: "(bytes \<Rightarrow> bytes) \<Rightarrow> bytes \<Rightarrow> bytes \<Rightarrow> bytes \<Rightarrow> nat \<Rightarrow> bytes" where
  "unhide md5 sec hash value 0 = []"
| "unhide md5 sec hash value (Suc n) =
     map2 (XOR) (take MD5_DIGEST_LENGTH value) hash @
     unhide md5 sec (md5 (sec @ take MD5_DIGEST_LENGTH value)) (drop MD5_DIGEST_LENGTH value) n"

text \<open>The hidden part of \<open>get_attribute_raw\<close>; 64 blocks are more than any attribute has.\<close>

definition unhide_attribute :: "(bytes \<Rightarrow> bytes) \<Rightarrow> bytes \<Rightarrow> bytes \<Rightarrow> u16 \<Rightarrow> bytes \<Rightarrow> nat \<Rightarrow> bytes" where
  "unhide_attribute md5 sec vector type value sz =
     (let b = unhide md5 sec (md5 ([hi8 type, lo8 type] @ sec @ vector)) value 64;
          len = unat (be16 (b ! 0) (b ! 1)) in
      if len > length value - 2 then [] else take (min sz len) (drop 2 b))"

text \<open>The loop over the attributes from \<open>offset\<close> on. The result is what is copied, at most \<open>sz\<close>
  bytes; \<open>vector\<close> is the last random vector seen.\<close>

function get_attribute_from ::
  "(bytes \<Rightarrow> bytes) \<Rightarrow> l2tp \<Rightarrow> u16 \<Rightarrow> nat \<Rightarrow> nat \<Rightarrow> bytes option \<Rightarrow> bytes option" where
  "get_attribute_from md5 s type sz offset vector =
     (if li_length s < offset + ATTRIBUTE_HEADER_SIZE then Some []
      else
        case (rd16 (li_buffer s) offset, rd16 (li_buffer s) (offset + 2), rd16 (li_buffer s) (offset + 4)) of
          (Some flag, Some vendor, Some atype) \<Rightarrow>
            let len = attribute_length flag; offset' = offset + len in
            if len < ATTRIBUTE_HEADER_SIZE \<or> li_length s < offset' then Some []
            else if vendor \<noteq> 0 then get_attribute_from md5 s type sz offset' vector
            else (case rd_bytes (li_buffer s) (offset + 6) (len - ATTRIBUTE_HEADER_SIZE) of
                None \<Rightarrow> None
              | Some value \<Rightarrow>
                  if atype \<noteq> type
                  then get_attribute_from md5 s type sz offset'
                    (if atype = RANDOM_VECTOR \<and> \<not> attribute_hidden flag then Some value else vector)
                  else if \<not> attribute_hidden flag then Some (take sz value)
                  else (case (secret s, vector) of
                      (Some sec, Some vec) \<Rightarrow>
                        if length value < 2 then Some []
                        else Some (unhide_attribute md5 sec vec type value sz)
                    | _ \<Rightarrow> Some []))
        | _ \<Rightarrow> None)"
  by pat_completeness auto

termination
  by (relation "measure (\<lambda>(md5, s, type, sz, offset, vector). li_length s + 1 - offset)")
    (auto simp: ATTRIBUTE_HEADER_SIZE_def)

declare get_attribute_from.simps [simp del]

definition get_attribute_raw :: "(bytes \<Rightarrow> bytes) \<Rightarrow> l2tp \<Rightarrow> u16 \<Rightarrow> nat \<Rightarrow> bytes option" where
  "get_attribute_raw md5 s type sz = get_attribute_from md5 s type sz MESSAGE_HEADER_SIZE None"

text \<open>\<open>get_attribute_u16\<close>: whether two bytes were found, and the variable afterwards, of which one
  byte may have been overwritten.\<close>

definition get_attribute_u16 :: "(bytes \<Rightarrow> bytes) \<Rightarrow> l2tp \<Rightarrow> u16 \<Rightarrow> u16 \<Rightarrow> (bool \<times> u16) option" where
  "get_attribute_u16 md5 s type old = do {
     d \<leftarrow> get_attribute_raw md5 s type 2;
     Some (case d of [] \<Rightarrow> (False, old) | [h] \<Rightarrow> (False, be16 h (lo8 old)) | h # l # _ \<Rightarrow> (True, be16 h l))
   }"

section \<open>The challenge\<close>

definition compute_response :: "(bytes \<Rightarrow> bytes) \<Rightarrow> bytes \<Rightarrow> u8 \<Rightarrow> bytes \<Rightarrow> bytes" where
  "compute_response md5 sec type ch = md5 ([type] @ sec @ ch)"

definition verify_challenge :: "(bytes \<Rightarrow> bytes) \<Rightarrow> l2tp \<Rightarrow> bool option" where
  "verify_challenge md5 s =
     (case secret s of
        None \<Rightarrow> Some True
      | Some sec \<Rightarrow> do {
          response \<leftarrow> get_attribute_raw md5 s CHALLENGE_RESPONSE MD5_DIGEST_LENGTH;
          Some (length response = MD5_DIGEST_LENGTH \<and>
            compute_response md5 sec (ucast L2TP_SCCRP) (challenge s) = response)
        })"

definition answer_challenge :: "(bytes \<Rightarrow> bytes) \<Rightarrow> l2tp \<Rightarrow> l2tp option" where
  "answer_challenge md5 s =
     (case secret s of
        None \<Rightarrow> Some s
      | Some sec \<Rightarrow> do {
          ch \<leftarrow> get_attribute_raw md5 s CHALLENGE MAX_ATTRIBUTE_SIZE;
          if ch \<noteq> [] then add_attribute_raw CHALLENGE_RESPONSE
            (take MD5_DIGEST_LENGTH (compute_response md5 sec (ucast L2TP_SCCCN) ch)) s
          else Some s
        })"

section \<open>The operations of the protocol\<close>

text \<open>The arguments are the server, the port and the secret.\<close>

definition l2tp_connect :: "mtp_env \<Rightarrow> l2tp \<Rightarrow> mtp \<Rightarrow> bytes list \<Rightarrow> (int, l2tp \<times> mtp) ret option" where
  "l2tp_connect env s m args =
     (case args of
        server # port # sec # _ \<Rightarrow>
          (case create_server_socket env m server port of
             Quit code m \<Rightarrow> Some (Quit code (s, m))
           | Execed m \<Rightarrow> Some (Execed (s, m))
           | Ret _ m \<Rightarrow> do {
               (t, m) \<leftarrow> pick16 env (local_tunnel s) m;
               s \<leftarrow> l2tp_set_message 0 L2TP_SCCRQ (s\<lparr>local_tunnel := t, l_state := L2TP_SCCRQ\<rparr>);
               s \<leftarrow> add_attribute_u16 L2TP_PROTOCOL_VERSION 0x0100 s;
               s \<leftarrow> add_attribute_raw HOST_NAME [97, 110, 111, 110, 121, 109, 111, 117, 115] s;
               s \<leftarrow> add_attribute_u32 FRAMING_CAPABILITIES 3 s;
               s \<leftarrow> add_attribute_u16 ASSIGNED_TUNNEL t s;
               s \<leftarrow> add_attribute_u16 WINDOW_SIZE 1 s;
               if sec = [] then do {
                 (s, m) \<leftarrow> l2tp_send_packet s m;
                 Some (Ret TIMEOUT_INTERVAL (s, m))
               }
               else
                 let m = memit (M_urandom CHALLENGE_SIZE) m in
                 case me_urandom env (m_io m) of
                   None \<Rightarrow> Some (Quit SYSTEM_ERROR (s, m))
                 | Some ch \<Rightarrow>
                     if length ch \<noteq> CHALLENGE_SIZE then Some (Quit SYSTEM_ERROR (s, m))
                     else do {
                       s \<leftarrow> add_attribute_raw CHALLENGE ch (s\<lparr>challenge := ch\<rparr>);
                       (s, m) \<leftarrow> l2tp_send_packet (s\<lparr>secret := Some sec\<rparr>) m;
                       Some (Ret TIMEOUT_INTERVAL (s, m))
                     }
             })
      | _ \<Rightarrow> None)"

definition l2tp_create_pppox :: "mtp_env \<Rightarrow> l2tp \<Rightarrow> mtp \<Rightarrow> (int, mtp) ret" where
  "l2tp_create_pppox env s m =
     (let m = memit M_pppox_socket m; pppox = me_socket env (m_io m) in
      if pppox = - 1 then Quit SYSTEM_ERROR m
      else
        let m = memit (M_pppox_connect pppox (the_socket m)
              [local_tunnel s, local_session s, remote_tunnel s, remote_session s]) m in
        if me_ok env (m_io m) then Ret pppox m else Quit SYSTEM_ERROR m)"

text \<open>The cases of \<open>l2tp_process\<close>: \<open>Inl\<close> is a return from the function, \<open>Inr\<close> a \<open>break\<close>.\<close>

type_synonym l2tp_step = "((int, l2tp \<times> mtp) ret + l2tp \<times> mtp) option"

definition on_sccrp :: "(bytes \<Rightarrow> bytes) \<Rightarrow> l2tp \<Rightarrow> mtp \<Rightarrow> l2tp_step" where
  "on_sccrp md5 s m =
     (if l_state s \<noteq> L2TP_SCCRQ then Some (Inr (s, m))
      else do {
        (found, tunnel) \<leftarrow> get_attribute_u16 md5 s ASSIGNED_TUNNEL 0;
        verified \<leftarrow> (if found \<and> tunnel \<noteq> 0 then verify_challenge md5 s else Some False);
        if verified then do {
          s \<leftarrow> l2tp_set_message 0 L2TP_SCCCN (s\<lparr>remote_tunnel := tunnel, l_state := L2TP_SCCCN\<rparr>);
          s \<leftarrow> answer_challenge md5 s;
          Some (Inr (s, m))
        }
        else Some (Inl (Ret (if tunnel \<noteq> 0 then - CHALLENGE_FAILED else - PROTOCOL_ERROR) (s, m)))
      })"

definition on_icrp :: "(bytes \<Rightarrow> bytes) \<Rightarrow> u16 \<Rightarrow> l2tp \<Rightarrow> mtp \<Rightarrow> l2tp_step" where
  "on_icrp md5 session s m =
     (if l_state s \<noteq> L2TP_ICRQ \<or> session \<noteq> local_session s then Some (Inr (s, m))
      else do {
        (found, rsession) \<leftarrow> get_attribute_u16 md5 s ASSIGNED_SESSION session;
        if found \<and> rsession \<noteq> 0 then do {
          s \<leftarrow> l2tp_set_message rsession L2TP_ICCN (s\<lparr>remote_session := rsession, l_state := L2TP_ICCN\<rparr>);
          s \<leftarrow> add_attribute_u32 CONNECT_SPEED 100000000 s;
          s \<leftarrow> add_attribute_u32 FRAMING_TYPE 3 s;
          Some (Inr (s, m))
        }
        else Some (Inl (Ret (- PROTOCOL_ERROR) (s, m)))
      })"

definition on_harmless :: "mtp_env \<Rightarrow> (int \<Rightarrow> bytes) \<Rightarrow> l2tp \<Rightarrow> mtp \<Rightarrow> l2tp_step" where
  "on_harmless env number s m =
     (if l_state s = L2TP_SCCCN then do {
        (n, m) \<leftarrow> pick16 env (local_session s) m;
        s \<leftarrow> l2tp_set_message 0 L2TP_ICRQ (s\<lparr>local_session := n, l_state := L2TP_ICRQ\<rparr>);
        s \<leftarrow> add_attribute_u16 ASSIGNED_SESSION n s;
        let (r, m) = mrandom env m;
        s \<leftarrow> add_attribute_raw CALL_SERIAL_NUMBER
          [lo8 (lo16 r), hi8 (lo16 r), lo8 (hi16 r), hi8 (hi16 r)] s;
        Some (Inr (s, m))
      }
      else
        let m = (if li_message s = L2TP_ACK then m else send_ack s m) in
        if l_state s = L2TP_ICCN then
          let s = s\<lparr>l_state := L2TP_ACK\<rparr> in
          case l2tp_create_pppox env s m of
            Quit code m \<Rightarrow> Some (Inl (Quit code (s, m)))
          | Execed m \<Rightarrow> Some (Inl (Execed (s, m)))
          | Ret pppox m \<Rightarrow> do {
              r \<leftarrow> start_pppd env number m pppox;
              Some (Inl (case r of Ret _ m \<Rightarrow> Ret 0 (s, m) | Quit code m \<Rightarrow> Quit code (s, m)
                | Execed m \<Rightarrow> Execed (s, m)))
            }
        else Some (Inl (Ret 0 (s, m))))"

definition on_call_request :: "(bytes \<Rightarrow> bytes) \<Rightarrow> u16 \<Rightarrow> l2tp \<Rightarrow> mtp \<Rightarrow> l2tp_step" where
  "on_call_request md5 session s m = do {
     (found, rsession) \<leftarrow> get_attribute_u16 md5 s ASSIGNED_SESSION session;
     if found \<and> rsession \<noteq> 0 then do {
       s \<leftarrow> l2tp_set_message rsession L2TP_CDN s;
       s \<leftarrow> add_attribute_u32 RESULT_CODE 0x00020006 s;
       s \<leftarrow> add_attribute_u16 ASSIGNED_SESSION 0 s;
       Some (Inr (s, m))
     }
     else Some (Inr (s, m))
   }"

definition l2tp_dispatch :: "mtp_env \<Rightarrow> (int \<Rightarrow> bytes) \<Rightarrow> (bytes \<Rightarrow> bytes) \<Rightarrow> u16 \<Rightarrow> l2tp \<Rightarrow> mtp \<Rightarrow> l2tp_step" where
  "l2tp_dispatch env number md5 session s m =
     (let message = li_message s in
      if message = L2TP_SCCRP then on_sccrp md5 s m
      else if message = L2TP_ICRP then on_icrp md5 session s m
      else if message = L2TP_STOPCCN then Some (Inl (Ret (- REMOTE_REQUESTED) (s\<lparr>l_state := L2TP_STOPCCN\<rparr>, m)))
      else if message = L2TP_CDN then
        Some (if session \<noteq> 0 \<and> session = local_session s then Inl (Ret (- REMOTE_REQUESTED) (s, m))
              else Inr (s, m))
      else if message \<in> {L2TP_ACK, L2TP_HELLO, L2TP_WEN, L2TP_SLI} then on_harmless env number s m
      else if message = L2TP_ICRQ \<or> message = L2TP_OCRQ then on_call_request md5 session s m
      else Some (Inr (s, m)))"

definition l2tp_process :: "mtp_env \<Rightarrow> (int \<Rightarrow> bytes) \<Rightarrow> (bytes \<Rightarrow> bytes) \<Rightarrow> l2tp \<Rightarrow> mtp \<Rightarrow> (int, l2tp \<times> mtp) ret option" where
  "l2tp_process env number md5 s m = do {
     let sequence = local_sequence s;
     r \<leftarrow> l2tp_recv_packet env s m;
     case r of
       Quit code x \<Rightarrow> Some (Quit code x)
     | Execed x \<Rightarrow> Some (Execed x)
     | Ret None (s, m) \<Rightarrow> Some (Ret (if acknowledged s then 0 else TIMEOUT_INTERVAL) (s, m))
     | Ret (Some session) (s, m) \<Rightarrow> do {
         x \<leftarrow> l2tp_dispatch env number md5 session s m;
         case x of
           Inl r \<Rightarrow> Some r
         | Inr (s, m) \<Rightarrow>
             if sequence \<noteq> local_sequence s then do {
               (s, m) \<leftarrow> l2tp_send_packet s m;
               Some (Ret TIMEOUT_INTERVAL (s, m))
             }
             else Some (Ret 0 (s, send_ack s m))
       }
   }"

definition l2tp_timeout :: "l2tp \<Rightarrow> mtp \<Rightarrow> (int, l2tp \<times> mtp) ret option" where
  "l2tp_timeout s m =
     (if acknowledged s then Some (Ret 0 (s, m))
      else do {
        d \<leftarrow> rd_bytes (lo_buffer s) 0 (lo_length s);
        Some (Ret TIMEOUT_INTERVAL (s, msend d m))
      })"

definition l2tp_shutdown :: "l2tp \<Rightarrow> mtp \<Rightarrow> (l2tp \<times> mtp) option" where
  "l2tp_shutdown s m =
     (if l_state s \<noteq> L2TP_STOPCCN then do {
        s \<leftarrow> l2tp_set_message 0 L2TP_STOPCCN s;
        s \<leftarrow> add_attribute_u16 ASSIGNED_TUNNEL (local_tunnel s) s;
        s \<leftarrow> add_attribute_u16 RESULT_CODE 6 s;
        l2tp_send_packet s m
      }
      else Some (s, m))"

end
