(* ===== verification/L2tpProps.thy ===== *)
theory L2tpProps
  imports L2tp
begin

text \<open>
  Properties of the L2TP client: what it writes as attributes a peer with the same parser
  reads, the parser stays inside the datagram, a message is handled once, and with a secret
  the tunnel comes up only for a peer that knows it.
\<close>

section \<open>Attribute flags\<close>

lemma attribute_flag_facts:
  assumes "n \<le> 1017"
  shows "attribute_length (attribute_flag n) = 6 + n" "\<not> attribute_hidden (attribute_flag n)"
proof -
  let ?f = "attribute_flag n"
  have u: "unat ?f = 0x8006 + n" 
  proof -
    have "?f = of_nat (0x8006 + n)" by (simp add: attribute_flag_def)
    then show ?thesis unfolding unat_of_nat using assms by (simp only: unat_of_nat) (intro mod_less, simp)
  qed
  have "?f AND 0x03FF = ?f mod 1024"
    using take_bit_eq_mask [of 10 ?f] by (simp add: mask_eq_exp_minus_1 take_bit_eq_mod)
  then have "unat (?f AND 0x03FF) = (0x8006 + n) mod 1024" using u by (simp add: unat_mod)
  also have "0x8006 + n = 6 + n + 1024 * 32" by simp
  also have "(6 + n + 1024 * 32) mod 1024 = (6 + n) mod 1024" by (rule mod_mult_self2)
  finally show "attribute_length ?f = 6 + n" using assms by (simp add: attribute_length_def)
  have "(0x8006 + n) div 2 ^ 14 = 2"
    using assms by (intro div_nat_eqI) simp_all
  then have "\<not> bit (unat ?f) 14" unfolding u bit_iff_odd by simp
  then have "\<not> bit ?f 14" by (simp add: bit_unsigned_iff)
  moreover have "x AND 0x4000 = (if bit x 14 then 0x4000 else 0)" for x :: u16
    using and_exp_eq_0_iff_not_bit [of x 14]
    by (auto intro!: bit_eqI simp: bit_and_iff bit_exp_iff [of 14, simplified])
  ultimately show "\<not> attribute_hidden ?f" by (simp add: attribute_hidden_def)
qed

section \<open>Writing and reading attributes\<close>

definition attr_wire :: "u16 \<times> bytes \<Rightarrow> bytes" where
  "attr_wire a = (let flag = attribute_flag (length (snd a)) in
     [hi8 flag, lo8 flag, 0, 0, hi8 (fst a), lo8 (fst a)] @ snd a)"

fun add_attributes :: "(u16 \<times> bytes) list \<Rightarrow> l2tp \<Rightarrow> l2tp option" where
  "add_attributes [] s = Some s"
| "add_attributes ((t, v) # as) s = do { s \<leftarrow> add_attribute_raw t v s; add_attributes as s }"

lemma attr_wire_length [simp]: "length (attr_wire (t, v)) = 6 + length v"
  by (simp add: attr_wire_def Let_def)

lemma wr_bytes_after:
  assumes "length a = i" "length ys \<le> length xs"
  shows "wr_bytes (a @ xs) i ys = Some (a @ ys @ drop (length ys) xs)"
  using assms by (simp add: wr_bytes_def)

lemma wr_bytes_at_end:
  assumes "length a = i" "length x = length ys"
  shows "wr_bytes (a @ x @ r) i ys = Some (a @ ys @ r)"
  using assms by (simp add: wr_bytes_def)

lemma add_attribute_wire:
  assumes "lo_length s + 6 + length v \<le> length (lo_buffer s)"
  shows "add_attribute_raw t v s = Some (s\<lparr>lo_buffer := take (lo_length s) (lo_buffer s) @ attr_wire (t, v) @
      drop (lo_length s + 6 + length v) (lo_buffer s), lo_length := lo_length s + 6 + length v\<rparr>)"
proof -
  define i where "i = lo_length s"
  define a where "a = take i (lo_buffer s)"
  define f where "f = attribute_flag (length v)"
  define x where "x = take 2 (drop i (lo_buffer s))"
  define y where "y = take 2 (drop (i + 2) (lo_buffer s))"
  define z where "z = take 2 (drop (i + 4) (lo_buffer s))"
  define r where "r = drop (i + 6) (lo_buffer s)"
  have a: "length a = i" and x: "length x = 2" and y: "length y = 2" and z: "length z = 2"
    and r: "length v \<le> length r"
    using assms by (simp_all add: a_def x_def y_def z_def r_def i_def)
  have c: "drop k b = take 2 (drop k b) @ drop (k + 2) b" for k and b :: bytes
    by (metis append_take_drop_id drop_drop add.commute)
  have "drop (i + 4) (lo_buffer s) = z @ r" "drop (i + 2) (lo_buffer s) = y @ drop (i + 4) (lo_buffer s)"
    "drop i (lo_buffer s) = x @ drop (i + 2) (lo_buffer s)"
    using c [of "i + 4" "lo_buffer s"] c [of "i + 2" "lo_buffer s"] c [of i "lo_buffer s"]
    by (simp_all only: x_def y_def z_def r_def add.assoc) simp_all
  then have "drop i (lo_buffer s) = x @ y @ z @ r" by simp
  then have b: "lo_buffer s = a @ x @ y @ z @ r"
    unfolding a_def by (metis append_take_drop_id)
  have "wr16 (a @ x @ y @ z @ r) i f = Some (a @ [hi8 f, lo8 f] @ y @ z @ r)"
    unfolding wr16_def by (rule wr_bytes_at_end) (simp_all add: a x)
  moreover have "wr16 (a @ [hi8 f, lo8 f] @ y @ z @ r) (i + 2) 0 =
      Some (a @ [hi8 f, lo8 f] @ [hi8 0, lo8 0] @ z @ r)"
    using wr_bytes_at_end [of "a @ [hi8 f, lo8 f]" "i + 2" y "[hi8 0, lo8 0]" "z @ r"] a y
    by (simp add: wr16_def)
  moreover have "wr16 (a @ [hi8 f, lo8 f] @ [hi8 0, lo8 0] @ z @ r) (i + 4) t =
      Some (a @ [hi8 f, lo8 f] @ [hi8 0, lo8 0] @ [hi8 t, lo8 t] @ r)"
    using wr_bytes_at_end [of "a @ [hi8 f, lo8 f] @ [hi8 0, lo8 0]" "i + 4" z "[hi8 t, lo8 t]" r] a z
    by (simp add: wr16_def)
  moreover have "wr_bytes (a @ [hi8 f, lo8 f] @ [hi8 0, lo8 0] @ [hi8 t, lo8 t] @ r) (i + 6) v =
      Some (a @ [hi8 f, lo8 f] @ [hi8 0, lo8 0] @ [hi8 t, lo8 t] @ v @ drop (length v) r)"
    using wr_bytes_after [of "a @ [hi8 f, lo8 f] @ [hi8 0, lo8 0] @ [hi8 t, lo8 t]" "i + 6" v r] a r
    by simp
  moreover have "drop (i + 6 + length v) (lo_buffer s) = drop (length v) r"
    by (simp add: r_def add.commute)
  moreover have "hi8 0 = 0" "lo8 0 = 0" by (simp_all add: hi8_def lo8_def)
  ultimately show ?thesis
    unfolding add_attribute_raw_def i_def [symmetric] f_def [symmetric] a_def [symmetric] Let_def
    by (simp add: b attr_wire_def f_def ATTRIBUTE_HEADER_SIZE_def Let_def)
qed

lemma add_attributes_wire:
  assumes "lo_length s + length (concat (map attr_wire attrs)) \<le> length (lo_buffer s)"
  shows "add_attributes attrs s =
      Some (s\<lparr>lo_buffer := take (lo_length s) (lo_buffer s) @ concat (map attr_wire attrs) @
          drop (lo_length s + length (concat (map attr_wire attrs))) (lo_buffer s),
        lo_length := lo_length s + length (concat (map attr_wire attrs))\<rparr>)"
  using assms
proof (induction attrs arbitrary: s)
  case Nil
  show ?case by simp
next
  case (Cons a attrs)
  obtain t v where a: "a = (t, v)" by (cases a)
  define w where "w = concat (map attr_wire attrs)"
  define n where "n = lo_length s + 6 + length v"
  define b where "b = take (lo_length s) (lo_buffer s) @ attr_wire (t, v) @ drop n (lo_buffer s)"
  have le: "n + length w \<le> length (lo_buffer s)" using Cons.prems a by (simp add: n_def w_def)
  then have n: "lo_length s + 6 + length v \<le> length (lo_buffer s)" by (simp add: n_def)
  have bl: "length b = length (lo_buffer s)" using le by (simp add: b_def n_def)
  have t: "take n b = take (lo_length s) (lo_buffer s) @ attr_wire (t, v)"
    using n by (simp add: b_def n_def)
  have d: "drop (n + length w) b = drop (n + length w) (lo_buffer s)"
    using n by (simp add: b_def n_def add_ac)
  have step: "add_attribute_raw t v s = Some (s\<lparr>lo_buffer := b, lo_length := n\<rparr>)"
    unfolding n_def b_def by (rule add_attribute_wire [OF n])
  have ih: "add_attributes attrs (s\<lparr>lo_buffer := b, lo_length := n\<rparr>) =
      Some (s\<lparr>lo_buffer := take n b @ w @ drop (n + length w) b, lo_length := n + length w\<rparr>)"
    using Cons.IH [of "s\<lparr>lo_buffer := b, lo_length := n\<rparr>"] le unfolding w_def [symmetric]
    by (simp add: bl)
  have l: "lo_length s + length (attr_wire (t, v) @ w) = n + length w" by (simp add: n_def)
  have c: "concat (map attr_wire (a # attrs)) = attr_wire (t, v) @ w" by (simp add: a w_def)
  show ?case unfolding c l unfolding a add_attributes.simps step Option.bind.simps ih t d
    by (simp only: append_assoc)
qed

lemma rd16_at:
  assumes "drop i b = h # l # r"
  shows "rd16 b i = Some (be16 h l)"
proof -
  have "length (drop i b) = length r + 2" using assms by simp
  then have "i + 1 < length b" by (simp add: less_diff_conv)
  moreover have "b ! i = h" "b ! (i + 1) = l"
    using assms calculation by (simp_all add: Cons_nth_drop_Suc [symmetric])
  ultimately show ?thesis by (simp add: rd16_def)
qed

lemma get_attribute_wire:
  assumes "drop offset (take (li_length s) (li_buffer s)) = concat (map attr_wire attrs)"
    and "li_length s \<le> length (li_buffer s)" "offset \<le> li_length s" "\<forall>(t, v) \<in> set attrs. length v \<le> 1017"
  shows "get_attribute_from md5 s t n offset vec =
    Some (case map_of attrs t of None \<Rightarrow> [] | Some v \<Rightarrow> take n v)"
  using assms
proof (induction attrs arbitrary: offset vec)
  case Nil
  then have "li_length s = offset" by simp
  then show ?case by (simp add: get_attribute_from.simps [of _ _ _ _ offset] ATTRIBUTE_HEADER_SIZE_def)
next
  case (Cons a attrs)
  obtain u v where a: "a = (u, v)" by (cases a)
  let ?f = "attribute_flag (length v)"
  define rest where "rest = drop (li_length s) (li_buffer s)"
  have v: "length v \<le> 1017" using Cons.prems(4) a by simp
  note f = attribute_flag_facts [OF v]
  have "drop offset (li_buffer s) = drop offset (take (li_length s) (li_buffer s)) @ rest"
    using Cons.prems(2,3) unfolding rest_def
    by (metis append_take_drop_id drop_append length_take min.absorb2 diff_is_0_eq drop_0)
  then have d: "drop offset (li_buffer s) =
      hi8 ?f # lo8 ?f # 0 # 0 # hi8 u # lo8 u # v @ concat (map attr_wire attrs) @ rest"
    unfolding Cons.prems(1) a by (simp add: attr_wire_def Let_def)
  then have d2: "drop (offset + 2) (li_buffer s) = 0 # 0 # hi8 u # lo8 u # v @ concat (map attr_wire attrs) @ rest"
    "drop (offset + 4) (li_buffer s) = hi8 u # lo8 u # v @ concat (map attr_wire attrs) @ rest"
    "drop (offset + 6) (li_buffer s) = v @ concat (map attr_wire attrs) @ rest"
    unfolding drop_drop [symmetric, of _ offset "li_buffer s", unfolded add.commute [of _ offset]] d
    by simp_all
  have rd: "rd16 (li_buffer s) offset = Some ?f" "rd16 (li_buffer s) (offset + 2) = Some 0"
    "rd16 (li_buffer s) (offset + 4) = Some u"
    using rd16_at [OF d] rd16_at [OF d2(1)] rd16_at [OF d2(2)]
    by (simp_all only: be16_hi8_lo8) (simp add: be16_def)
  have len: "li_length s = offset + 6 + length v + length (concat (map attr_wire attrs))"
    using arg_cong [OF Cons.prems(1), of length] Cons.prems(2,3) a by simp
  have "rd_bytes (li_buffer s) (offset + 6) (length v) = Some v"
    using d2(3) len Cons.prems(2) by (simp add: rd_bytes_def)
  moreover have "drop (offset + 6 + length v) (take (li_length s) (li_buffer s)) = concat (map attr_wire attrs)"
  proof -
    have "drop (6 + length v) (drop offset (take (li_length s) (li_buffer s))) = concat (map attr_wire attrs)"
      unfolding Cons.prems(1) a by simp
    then show ?thesis by (simp add: add.commute add.left_commute)
  qed
  then have "get_attribute_from md5 s t n (offset + 6 + length v) vec' =
      Some (case map_of attrs t of None \<Rightarrow> [] | Some v \<Rightarrow> take n v)" for vec'
    using Cons.IH [of "offset + 6 + length v"] Cons.prems(2,4) len by simp
  ultimately show ?case using rd f len a
    by (simp add: get_attribute_from.simps [of _ _ _ _ offset] ATTRIBUTE_HEADER_SIZE_def Let_def add.assoc)
qed

section \<open>Whole messages\<close>

lemma set_message_wire:
  assumes "MESSAGE_HEADER_SIZE \<le> length (lo_buffer s)"
  obtains l0 l1 r where "l2tp_set_message session message s =
    Some (s\<lparr>lo_buffer := [hi8 MESSAGE_FLAG, lo8 MESSAGE_FLAG, l0, l1] @
        concat (map (\<lambda>v. [hi8 v, lo8 v]) [remote_tunnel s, session, local_sequence s, remote_sequence s,
          attribute_flag 2, 0, 0, message]) @ r,
      lo_message := message, lo_length := MESSAGE_HEADER_SIZE, local_sequence := local_sequence s + 1\<rparr>)"
    "length r = length (lo_buffer s) - MESSAGE_HEADER_SIZE"
proof -
  have "20 \<le> length (lo_buffer s)" using assms by (simp add: MESSAGE_HEADER_SIZE_def)
  then obtain l0 l1 r a b c d e f g h i j k l x x1 x2 x3 x4 x5 where
    "lo_buffer s = a # b # l0 # l1 # c # d # e # f # g # h # i # j # k # l # x # x1 # x2 # x3 # x4 # x5 # r"
    by (auto simp: numeral_eq_Suc Suc_le_length_iff)
  then show thesis
    by (intro that [of l0 l1 r])
      (simp_all add: l2tp_set_message_def wr16_def wr_bytes_def MESSAGE_HEADER_SIZE_def numeral_eq_Suc)
qed

definition message_wire :: "u16 \<Rightarrow> u16 \<Rightarrow> l2tp \<Rightarrow> nat \<Rightarrow> bytes" where
  "message_wire session message s n = concat (map (\<lambda>v. [hi8 v, lo8 v])
     [MESSAGE_FLAG, of_nat n, remote_tunnel s, session, local_sequence s, remote_sequence s,
      attribute_flag 2, 0, 0, message])"

lemma message_wire_length [simp]: "length (message_wire session message s n) = 20"
  by (simp add: message_wire_def)

lemma sent_message:
  assumes "MESSAGE_HEADER_SIZE + length (concat (map attr_wire attrs)) \<le> length (lo_buffer s)"
  shows "\<exists>s'. do { s \<leftarrow> l2tp_set_message session message s; s \<leftarrow> add_attributes attrs s; l2tp_send_packet s m } =
    Some (s', msend (message_wire session message s
      (MESSAGE_HEADER_SIZE + length (concat (map attr_wire attrs))) @ concat (map attr_wire attrs)) m)"
proof -
  define w where "w = concat (map attr_wire attrs)"
  define n where "n = MESSAGE_HEADER_SIZE + length w"
  define hd1 where "hd1 = concat (map (\<lambda>v. [hi8 v, lo8 v]) [remote_tunnel s, session, local_sequence s,
      remote_sequence s, attribute_flag 2, 0, 0, message])"
  have le: "MESSAGE_HEADER_SIZE \<le> length (lo_buffer s)" "n \<le> length (lo_buffer s)"
    using assms by (simp_all add: n_def w_def)
  obtain l0 l1 r where m0: "l2tp_set_message session message s =
    Some (s\<lparr>lo_buffer := [hi8 MESSAGE_FLAG, lo8 MESSAGE_FLAG, l0, l1] @
        concat (map (\<lambda>v. [hi8 v, lo8 v]) [remote_tunnel s, session, local_sequence s, remote_sequence s,
          attribute_flag 2, 0, 0, message]) @ r,
      lo_message := message, lo_length := MESSAGE_HEADER_SIZE, local_sequence := local_sequence s + 1\<rparr>)"
    and r: "length r = length (lo_buffer s) - MESSAGE_HEADER_SIZE"
    by (rule set_message_wire [OF le(1), of session message])
  note m = m0 [folded hd1_def]
  define s1 where "s1 = s\<lparr>lo_buffer := [hi8 MESSAGE_FLAG, lo8 MESSAGE_FLAG, l0, l1] @ hd1 @ r,
        lo_message := message, lo_length := MESSAGE_HEADER_SIZE, local_sequence := local_sequence s + 1\<rparr>"
  have h: "length hd1 = 16" by (simp add: hd1_def)
  have s1: "lo_length s1 = 20" "lo_buffer s1 = [hi8 MESSAGE_FLAG, lo8 MESSAGE_FLAG, l0, l1] @ hd1 @ r"
    by (simp_all add: s1_def MESSAGE_HEADER_SIZE_def)
  have fit: "lo_length s1 + length (concat (map attr_wire attrs)) \<le> length (lo_buffer s1)"
    using le r h by (simp add: s1 n_def w_def MESSAGE_HEADER_SIZE_def)
  have t: "take 20 (lo_buffer s1) = [hi8 MESSAGE_FLAG, lo8 MESSAGE_FLAG, l0, l1] @ hd1"
    using h by (simp add: s1)
  have n20: "n = 20 + length w" by (simp add: n_def MESSAGE_HEADER_SIZE_def)
  define q where "q = drop n (lo_buffer s1)"
  define s2 where "s2 = s1\<lparr>lo_buffer := ([hi8 MESSAGE_FLAG, lo8 MESSAGE_FLAG, l0, l1] @ hd1) @ w @ q, lo_length := n\<rparr>"
  have a: "add_attributes attrs s1 = Some s2"
    using add_attributes_wire [OF fit] unfolding w_def [symmetric] s1(1) t s2_def q_def n20 by simp
  have "wr16 (lo_buffer s2) 2 (of_nat n) =
      Some ([hi8 MESSAGE_FLAG, lo8 MESSAGE_FLAG] @ [hi8 (of_nat n), lo8 (of_nat n)] @ hd1 @ w @ q)"
    using wr_bytes_at_end [of "[hi8 MESSAGE_FLAG, lo8 MESSAGE_FLAG]" 2 "[l0, l1]" "[hi8 (of_nat n), lo8 (of_nat n)]"
        "hd1 @ w @ q"] by (simp add: s2_def wr16_def)
  also have "[hi8 MESSAGE_FLAG, lo8 MESSAGE_FLAG] @ [hi8 (of_nat n), lo8 (of_nat n)] @ hd1 @ w @ q =
      (message_wire session message s n @ w) @ q"
    by (simp add: message_wire_def hd1_def)
  finally have wr: "wr16 (lo_buffer s2) 2 (of_nat n) = Some ((message_wire session message s n @ w) @ q)" .
  have rd: "rd_bytes ((message_wire session message s n @ w) @ q) 0 n = Some (message_wire session message s n @ w)"
    by (simp add: rd_bytes_def n20)
  have ln: "lo_length s2 = n" by (simp add: s2_def)
  have "l2tp_send_packet s2 m =
      Some (s2\<lparr>lo_buffer := (message_wire session message s n @ w) @ q, acknowledged := False\<rparr>,
        msend (message_wire session message s n @ w) m)"
    unfolding l2tp_send_packet_def ln wr Option.bind.simps rd ..
  then show ?thesis unfolding m s1_def [symmetric] w_def [symmetric] n_def [symmetric]
    by (simp add: a)
qed

lemma accept_message:
  assumes d: "li_buffer r = message_wire session message s n @ rest" "li_length r = n"
    and n: "20 \<le> n" "n \<le> 2048"
    and peer: "local_tunnel r = remote_tunnel s" "remote_sequence r = local_sequence s"
      "local_sequence r = remote_sequence s" "message \<noteq> L2TP_ACK"
  shows "accept_packet r m = Some (Some session,
    r\<lparr>li_message := message, acknowledged := True, remote_sequence := local_sequence s + 1\<rparr>, m)"
proof -
  have u: "unat (of_nat n :: u16) = n" unfolding unat_of_nat using n by (intro mod_less) simp
  have "rd16 (li_buffer r) 0 = Some MESSAGE_FLAG" "rd16 (li_buffer r) 2 = Some (of_nat n)"
    "rd16 (li_buffer r) 4 = Some (local_tunnel r)" "rd16 (li_buffer r) 6 = Some session"
    "rd16 (li_buffer r) 8 = Some (remote_sequence r)" "rd16 (li_buffer r) 10 = Some (local_sequence r)"
    "rd16 (li_buffer r) 12 = Some (attribute_flag 2)" "rd16 (li_buffer r) 14 = Some 0"
    "rd16 (li_buffer r) 16 = Some 0" "rd16 (li_buffer r) 18 = Some message"
    by (simp_all add: rd16_def d message_wire_def peer)
  then show ?thesis using n peer
    by (simp add: accept_packet_def message_number_def Let_def d u ACK_SIZE_def MESSAGE_HEADER_SIZE_def MESSAGE_FLAG_def MESSAGE_MASK_def)
qed

lemma get_attribute_read:
  assumes "drop 20 d = concat (map attr_wire attrs)" "20 \<le> length d"
    and "li_buffer r = d @ rest" "li_length r = length d" "\<forall>(t, v) \<in> set attrs. length v \<le> 1017"
  shows "get_attribute_raw md5 r t n = Some (case map_of attrs t of None \<Rightarrow> [] | Some v \<Rightarrow> take n v)"
  unfolding get_attribute_raw_def MESSAGE_HEADER_SIZE_def using assms
  by (intro get_attribute_wire) simp_all

text \<open>C31: what \<open>set_message\<close>, the attribute writers and \<open>send_packet\<close> put into a datagram is what
  \<open>recv_packet\<close> and \<open>get_attribute_raw\<close> of a peer take out of it. A message with any attributes
  that fit into the buffer is sent, is accepted by a peer that expects this sequence number (which
  counts it as the acknowledgement of its own last message), and every attribute reads back as
  the first one written with its type.\<close>

theorem l2tp_message_round_trip:
  assumes "MESSAGE_HEADER_SIZE + length (concat (map attr_wire attrs)) \<le> length (lo_buffer s)"
    and "length (lo_buffer s) = L2TP_MAX_PACKET_LENGTH" "\<forall>(t, v) \<in> set attrs. length v \<le> 1017"
    and "message \<noteq> L2TP_ACK" "local_tunnel peer = remote_tunnel s"
      "remote_sequence peer = local_sequence s" "local_sequence peer = remote_sequence s"
  shows "\<exists>s' d. do { s \<leftarrow> l2tp_set_message session message s; s \<leftarrow> add_attributes attrs s; l2tp_send_packet s m } =
      Some (s', msend d m) \<and>
    (\<exists>r. accept_packet (peer\<lparr>li_buffer := d @ rest, li_length := length d\<rparr>) m2 = Some (Some session, r, m2) \<and>
      li_message r = message \<and> acknowledged r \<and> remote_sequence r = local_sequence s + 1 \<and>
      (\<forall>t n. get_attribute_raw md5 r t n = Some (case map_of attrs t of None \<Rightarrow> [] | Some v \<Rightarrow> take n v)))"
proof -
  define w where "w = concat (map attr_wire attrs)"
  define n where "n = MESSAGE_HEADER_SIZE + length w"
  define d where "d = message_wire session message s n @ w"
  define r where "r = peer\<lparr>li_buffer := d @ rest, li_length := length d, li_message := message,
    acknowledged := True, remote_sequence := local_sequence s + 1\<rparr>"
  have n: "length d = n" "20 \<le> n" "n \<le> 2048"
    using assms(1,2) by (simp_all add: d_def n_def w_def MESSAGE_HEADER_SIZE_def L2TP_MAX_PACKET_LENGTH_def)
  obtain s' where s': "do { s \<leftarrow> l2tp_set_message session message s; s \<leftarrow> add_attributes attrs s; l2tp_send_packet s m } =
      Some (s', msend d m)"
    using sent_message [OF assms(1), of session message m] unfolding d_def n_def w_def by blast
  have b: "li_buffer (peer\<lparr>li_buffer := d @ rest, li_length := length d\<rparr>) =
      message_wire session message s n @ (w @ rest)" by (simp add: d_def)
  have "accept_packet (peer\<lparr>li_buffer := d @ rest, li_length := length d\<rparr>) m2 = Some (Some session, r, m2)"
    unfolding r_def using accept_message [OF b] n assms(4-7) by simp
  moreover have "get_attribute_raw md5 r t k = Some (case map_of attrs t of None \<Rightarrow> [] | Some v \<Rightarrow> take k v)" for t k
    by (rule get_attribute_read [of d]) (use n assms(3) in \<open>simp_all add: d_def w_def r_def\<close>)
  ultimately show ?thesis using s' by (intro exI [of _ s'] exI [of _ d] conjI exI [of _ r]) (simp_all add: r_def)
qed

definition sample_sender :: l2tp where
  "sample_sender = l2tp_init\<lparr>remote_tunnel := 9, local_sequence := 3, remote_sequence := 65535\<rparr>"

definition sample_receiver :: l2tp where
  "sample_receiver = l2tp_init\<lparr>local_tunnel := 9, local_sequence := 65535, remote_sequence := 3\<rparr>"

theorem l2tp_message_round_trip_witness:
  "\<exists>s' d. do { s \<leftarrow> l2tp_set_message 4 L2TP_ICRQ sample_sender;
       s \<leftarrow> add_attributes [(14, [0, 5]), (7, [])] s; l2tp_send_packet s mtp_init } = Some (s', msend d mtp_init) \<and>
    (\<exists>r. accept_packet (sample_receiver\<lparr>li_buffer := d @ [], li_length := length d\<rparr>) mtp_init = Some (Some 4, r, mtp_init) \<and>
      get_attribute_raw (\<lambda>x. x) r 14 2 = Some [0, 5])"
  using l2tp_message_round_trip [of "[(14, [0, 5]), (7, [])]" sample_sender L2TP_ICRQ sample_receiver 4 mtp_init "[]" mtp_init "\<lambda>x. x"]
  by (auto simp: sample_sender_def sample_receiver_def l2tp_init_def MESSAGE_HEADER_SIZE_def
      L2TP_MAX_PACKET_LENGTH_def l2tp_message_defs) fastforce

lemma accepted:
  assumes "accept_packet s m = Some (Some session, s', m')" "li_message s' \<noteq> L2TP_ACK"
  shows "remote_sequence s' = remote_sequence s + 1" "MESSAGE_HEADER_SIZE \<le> li_length s"
    "li_length s \<noteq> ACK_SIZE"
    "\<exists>flag. rd16 (li_buffer s) 0 = Some flag \<and> flag AND MESSAGE_MASK = MESSAGE_FLAG"
    "\<exists>len. rd16 (li_buffer s) 2 = Some len \<and> unat len = li_length s"
    "rd16 (li_buffer s) 4 = Some (local_tunnel s)" "rd16 (li_buffer s) 6 = Some session"
    "rd16 (li_buffer s) 8 = Some (remote_sequence s)" "\<exists>nr. rd16 (li_buffer s) 10 = Some nr"
    "rd16 (li_buffer s) 12 = Some (attribute_flag 2)" "rd16 (li_buffer s) 14 = Some 0"
    "rd16 (li_buffer s) 16 = Some 0" "rd16 (li_buffer s) 18 = Some (li_message s')"
  using assms
  by (auto simp: accept_packet_def message_number_def Let_def bind_eq_Some_conv split: if_split_asm)

text \<open>C32: a message is handled once. After a message other than an acknowledgement has been
  accepted, the same datagram is only acknowledged again, whatever the client has received and
  sent meanwhile, as long as that was less than half of the sequence space.\<close>

theorem l2tp_message_once:
  assumes "accept_packet s m = Some (Some session, s', m')" "li_message s' \<noteq> L2TP_ACK"
    and "li_buffer t = li_buffer s" "li_length t = li_length s" "local_tunnel t = local_tunnel s"
    and "remote_sequence t = remote_sequence s' + of_nat k" "k < 32768"
  shows "accept_packet t m2 = Some (None, t\<lparr>li_message := li_message s'\<rparr>, send_ack (t\<lparr>li_message := li_message s'\<rparr>) m2)"
proof -
  have half: "ns - (ns + 1 + of_nat k) > 32767" for ns :: u16
  proof -
    have e: "ns - (ns + 1 + of_nat k) = of_nat (65535 - k)"
      using assms(7) by (simp add: of_nat_diff)
    have u: "unat (of_nat (65535 - k) :: u16) = 65535 - k"
      unfolding unat_of_nat by (intro mod_less) simp
    show ?thesis unfolding word_less_nat_alt e u using assms(7) by simp
  qed
  note facts = accepted [OF assms(1,2)]
  have "remote_sequence s' = remote_sequence s + 1" by (rule facts(1))
  then have "remote_sequence s - remote_sequence t > 32767"
    using half [of "remote_sequence s"] assms(6) by simp
  then show ?thesis using facts(2-) assms(2-5) by (auto simp: accept_packet_def message_number_def Let_def ACK_SIZE_def)
qed

definition sample_hello :: l2tp where
  "sample_hello = l2tp_init\<lparr>acknowledged := True, li_length := 20,
     li_buffer := [0xC8, 2, 0, 20, 0, 0, 0, 0, 0, 0, 0, 0, 0x80, 8, 0, 0, 0, 0, 0, 6]\<rparr>"

theorem l2tp_message_once_witness:
  "\<exists>s'. accept_packet sample_hello mtp_init = Some (Some 0, s', mtp_init) \<and>
     accept_packet (sample_hello\<lparr>remote_sequence := 1 + 7\<rparr>) mtp_init =
       Some (None, sample_hello\<lparr>remote_sequence := 8, li_message := 6\<rparr>,
         send_ack (sample_hello\<lparr>remote_sequence := 8, li_message := 6\<rparr>) mtp_init)"
proof -
  define s' where "s' = sample_hello\<lparr>li_message := 6, remote_sequence := 1\<rparr>"
  have "accept_packet sample_hello mtp_init = Some (Some 0, s', mtp_init)"
    unfolding s'_def by code_simp
  moreover from l2tp_message_once [OF this, of "sample_hello\<lparr>remote_sequence := 1 + 7\<rparr>" 7 mtp_init]
  have "accept_packet (sample_hello\<lparr>remote_sequence := 1 + 7\<rparr>) mtp_init =
      Some (None, sample_hello\<lparr>remote_sequence := 8, li_message := 6\<rparr>,
         send_ack (sample_hello\<lparr>remote_sequence := 8, li_message := 6\<rparr>) mtp_init)"
    by (simp add: s'_def L2TP_ACK_def)
  ultimately show ?thesis by blast
qed

lemma unhide_attribute_length: "length (unhide_attribute md5 sec vec t value sz) \<le> sz"
  by (simp add: unhide_attribute_def Let_def min_le_iff_disj)

lemma get_attribute_from_bounds:
  assumes "li_length s \<le> length (li_buffer s)"
  shows "\<exists>d. get_attribute_from md5 s t sz offset vec = Some d \<and> length d \<le> sz"
  using assms
proof (induction md5 s t sz offset vec rule: get_attribute_from.induct)
  case (1 md5 s t sz offset vector)
  show ?case
  proof (cases "li_length s < offset + ATTRIBUTE_HEADER_SIZE")
    case True
    then show ?thesis by (subst get_attribute_from.simps) simp
  next
    case False
    then have le: "offset + 6 \<le> length (li_buffer s)" using 1(3) by (simp add: ATTRIBUTE_HEADER_SIZE_def)
    obtain flag vendor atype where rd: "rd16 (li_buffer s) offset = Some flag"
      "rd16 (li_buffer s) (offset + 2) = Some vendor" "rd16 (li_buffer s) (offset + 4) = Some atype"
      using le by (simp add: rd16_def)
    let ?len = "attribute_length flag"
    show ?thesis
    proof (cases "?len < ATTRIBUTE_HEADER_SIZE \<or> li_length s < offset + ?len")
      case True
      then show ?thesis by (subst get_attribute_from.simps) (use rd in auto)
    next
      case inside: False
      note [simp] = rd [simplified]
      show ?thesis
      proof (cases "vendor = 0")
        case False
        then show ?thesis
          using 1(1) [OF \<open>\<not> li_length s < _\<close> refl rd(1) refl rd(2,3) refl refl inside] 1(3) inside \<open>\<not> li_length s < _\<close>
          by (subst get_attribute_from.simps) (auto simp: Let_def)
      next
        case True
        define data where "data = take (?len - ATTRIBUTE_HEADER_SIZE) (drop (offset + 6) (li_buffer s))"
        have v: "rd_bytes (li_buffer s) (offset + 6) (?len - ATTRIBUTE_HEADER_SIZE) = Some data"
          using inside 1(3) by (simp add: rd_bytes_def data_def ATTRIBUTE_HEADER_SIZE_def)
        have ih: "\<exists>d. get_attribute_from md5 s t sz (offset + ?len)
            (if atype = RANDOM_VECTOR \<and> \<not> attribute_hidden flag then Some data else vector) = Some d \<and> length d \<le> sz"
          if "atype \<noteq> t"
          using 1(2) [OF \<open>\<not> li_length s < _\<close> refl rd(1) refl rd(2,3) refl refl inside _ v that 1(3)] True by simp
        show ?thesis
          using ih True v inside \<open>\<not> li_length s < _\<close>
          by (subst get_attribute_from.simps)
            (auto simp: Let_def unhide_attribute_length split: option.splits if_splits)
      qed
    qed
  qed
qed



end
