(* ===== verification/MtpQuiet.thy ===== *)
theory MtpQuiet
  imports L2tp Pptp
begin

text \<open>
  Operations of the PPP daemon that neither start nor wait for a process nor forget one.
\<close>

section \<open>Quiet steps\<close>

text \<open>Steps that neither start nor wait for a process.\<close>

definition silent :: "mtp_io \<Rightarrow> bool" where
  "silent e \<longleftrightarrow> (\<forall>pid. e \<noteq> M_fork \<and> e \<noteq> M_waitpid pid \<and> e \<noteq> M_trywait pid)"

definition quiet :: "mtp \<Rightarrow> mtp \<Rightarrow> bool" where
  "quiet m m' \<longleftrightarrow> pppd_pid m' = pppd_pid m \<and> pppd_argv m' = pppd_argv m \<and>
     (\<exists>es. m_io m' = m_io m @ es \<and> (\<forall>e \<in> set es. silent e))"

lemma quiet_refl [simp]: "quiet m m"
  by (simp add: quiet_def)

lemma quiet_trans: "quiet m m' \<Longrightarrow> quiet m' m'' \<Longrightarrow> quiet m m''"
  unfolding quiet_def by (elim conjE exE) (auto simp: append_assoc)

lemma quiet_memit: "silent e \<Longrightarrow> quiet m (memit e m)"
  by (simp add: quiet_def)

lemma quiet_socket [simp]: "quiet m (m'\<lparr>the_socket := x\<rparr>) = quiet m m'"
  by (simp add: quiet_def)

lemma quiet_send [simp]: "quiet m (msend d m)" "quiet m (send_ack s m)"
  by (simp_all add: msend_def send_ack_def quiet_memit silent_def)

lemma quiet_random: "mrandom env m = (r, m') \<Longrightarrow> quiet m m'"
  by (auto simp: mrandom_def Let_def quiet_memit silent_def)

lemma try_records_quiet: "quiet m (try_records env rs m)"
proof (induction rs arbitrary: m)
  case (Cons r rs)
  define m1 where "m1 = memit M_socket m"
  define s where "s = me_socket env (m_io m1)"
  define m2 where "m2 = memit (M_bind_device s (interface m)) m1"
  have m2: "quiet m m2" by (simp add: m1_def m2_def quiet_def silent_def)
  have m3: "quiet m (memit (M_connect s r) m2)" "quiet m (memit (M_close s) m2)"
    "quiet m (memit (M_close s) (memit (M_connect s r) m2))"
    by (simp_all add: m1_def m2_def quiet_def silent_def)
  have i: "interface m1 = interface m" by (simp add: m1_def)
  show ?case
    using m3 quiet_trans [OF m3(2) Cons.IH] quiet_trans [OF m3(3) Cons.IH]
    by (simp add: Let_def m1_def [symmetric] s_def [symmetric] i m2_def [symmetric])
qed simp

lemma server_socket_quiet: "quiet m (ret_state (create_server_socket env m server port))"
  using quiet_trans [OF quiet_memit try_records_quiet, of "M_getaddrinfo server port" m env]
  by (auto simp: create_server_socket_def Let_def silent_def quiet_memit split: option.split)

lemma l2tp_pppox_quiet: "quiet m (ret_state (l2tp_create_pppox env s m))"
  by (auto simp: l2tp_create_pppox_def Let_def quiet_def silent_def)

lemma pptp_pppox_quiet: "quiet m (ret_state (pptp_create_pppox env s m))"
  by (auto simp: pptp_create_pppox_def Let_def quiet_def silent_def)

lemma not_execed [simp]:
  "create_server_socket env m server port \<noteq> Execed x" "l2tp_create_pppox env s m \<noteq> Execed x"
  "pptp_create_pppox env t m \<noteq> Execed x"
  by (simp_all add: create_server_socket_def l2tp_create_pppox_def pptp_create_pppox_def Let_def split: option.split)

end
