(* ===== verification/L2tpAuth.thy ===== *)
theory L2tpAuth
  imports MtpQuiet
begin

text \<open>
  The states of the L2TP client: how the state moves, and that with a secret no session and no
  \<open>pppd\<close> comes up before the peer has answered the challenge.
\<close>

section \<open>What the operations keep\<close>

definition core :: "l2tp \<Rightarrow> u16 \<times> bytes option \<times> bytes \<times> nat \<times> bytes" where
  "core s = (l_state s, secret s, challenge s, li_length s, li_buffer s)"

definition grows :: "bool \<Rightarrow> mtp \<Rightarrow> mtp \<Rightarrow> bool" where
  "grows forks m m' \<longleftrightarrow> (\<exists>es. m_io m' = m_io m @ es \<and> (M_fork \<in> set es \<longrightarrow> forks))"

lemma grows_refl [simp, intro]: "grows f m m"
  by (simp add: grows_def)

lemma grows_trans: "grows f m m' \<Longrightarrow> grows f m' m'' \<Longrightarrow> grows f m m''"
  by (auto simp: grows_def)

lemma grows_weaken: "grows False m m' \<Longrightarrow> grows f m m'"
  by (auto simp: grows_def)

lemma grows_memit [simp, intro]: "e \<noteq> M_fork \<Longrightarrow> grows f m (memit e m)"
  by (simp add: grows_def)

lemma grows_send [simp, intro]: "grows f m (msend d m)" "grows f m (send_ack s m)"
  by (simp_all add: msend_def send_ack_def)

lemma quiet_grows: "quiet m m' \<Longrightarrow> grows f m m'"
  by (auto simp: quiet_def grows_def silent_def)

lemmas grows_random = quiet_grows [OF quiet_random]

lemma grows_pick16:
  assumes "pick16 env v m = Some (t, m')"
  shows "grows f m m' \<and> t \<noteq> 0"
proof -
  have "grows f m (snd r) \<and> fst r \<noteq> 0" if "pick16 env v m = Some r" for r
    using that
  proof (rule pick16.raw_induct [of "\<lambda>env v m r. grows f m (snd r) \<and> fst r \<noteq> 0", rotated])
    fix rec and env and v and m r
    assume ih: "\<And>env v m r. rec env v m = Some r \<Longrightarrow> grows f m (snd r) \<and> fst r \<noteq> 0"
      and r: "(if v \<noteq> 0 then Some (v, m) else case mrandom env m of (r, m) \<Rightarrow> rec env (bswap16 (ucast r)) m) = Some r"
    show "grows f m (snd r) \<and> fst r \<noteq> 0"
    proof (cases "v = 0")
      case True
      obtain x m1 where x: "mrandom env m = (x, m1)" by (cases "mrandom env m")
      show ?thesis using ih [of env _ m1 r] r True grows_random [OF x, of f] by (auto simp: x intro: grows_trans)
    next
      case False
      then show ?thesis using r by auto
    qed
  qed
  from this [OF assms] show ?thesis by simp
qed

lemma core_message: "l2tp_set_message session message s = Some s' \<Longrightarrow> core s' = core s"
  by (auto simp: l2tp_set_message_def core_def bind_eq_Some_conv)

lemma core_raw: "add_attribute_raw t v s = Some s' \<Longrightarrow> core s' = core s"
  by (auto simp: add_attribute_raw_def core_def bind_eq_Some_conv Let_def)

lemma core_u16: "add_attribute_u16 t v s = Some s' \<Longrightarrow> core s' = core s"
  by (auto simp: add_attribute_u16_def dest: core_raw)

lemma core_u32: "add_attribute_u32 t v s = Some s' \<Longrightarrow> core s' = core s"
  by (auto simp: add_attribute_u32_def dest: core_raw)

lemma core_send: "l2tp_send_packet s m = Some (s', m') \<Longrightarrow> core s' = core s \<and> grows f m m'"
  by (auto simp: l2tp_send_packet_def core_def bind_eq_Some_conv)

lemma core_accept:
  assumes "accept_packet s m = Some (x, s', m')"
  shows "core s' = core s \<and> grows f m m'"
proof (cases "message_number s")
  case None
  then show ?thesis using assms by (simp add: accept_packet_def)
next
  case (Some message)
  show ?thesis
  proof (cases message)
    case None
    then show ?thesis using assms Some by (simp add: accept_packet_def)
  next
    case (Some number)
    define far where "far ns \<longleftrightarrow> ns - remote_sequence s > 32767" for ns
    define q where "q = send_ack (s\<lparr>li_message := number\<rparr>) m"
    have q: "grows f m q" by (simp add: q_def)
    have "message_number s = Some (Some number)" using Some \<open>message_number s = _\<close> by simp
    then show ?thesis using assms unfolding accept_packet_def Let_def
      apply (simp add: bind_eq_Some_conv far_def [symmetric] q_def [symmetric])
      apply (elim exE conjE)
      apply (simp add: core_def Let_def split: if_split_asm)
           apply (auto simp: q)
      done
  qed
qed

lemma core_answer: "answer_challenge md5 s = Some s' \<Longrightarrow> core s' = core s"
  by (auto simp: answer_challenge_def bind_eq_Some_conv split: option.splits if_splits dest: core_raw)

lemmas core_dests = core_message core_raw core_u16 core_u32 core_answer

lemma core_fields:
  assumes "core s' = core s"
  shows "l_state s' = l_state s" "secret s' = secret s" "challenge s' = challenge s"
    "li_length s' = li_length s" "li_buffer s' = li_buffer s"
  using assms by (simp_all add: core_def)

section \<open>How the state moves\<close>

definition kept :: "l2tp \<Rightarrow> l2tp \<Rightarrow> bool" where
  "kept s s' \<longleftrightarrow> secret s' = secret s \<and> challenge s' = challenge s \<and> li_length s' = li_length s \<and>
     li_buffer s' = li_buffer s"

primrec step_state :: "(int, l2tp \<times> mtp) ret + l2tp \<times> mtp \<Rightarrow> l2tp \<times> mtp" where
  "step_state (Inl r) = ret_state r"
| "step_state (Inr p) = p"

lemma kept_core: "core s' = core s \<Longrightarrow> kept s s' \<and> l_state s' = l_state s"
  by (simp add: kept_def core_def)

lemma kept_state [simp]:
  "kept s (t\<lparr>l_state := x\<rparr>) = kept s t" "kept s (t\<lparr>remote_tunnel := y\<rparr>) = kept s t"
  "kept s (t\<lparr>remote_session := y\<rparr>) = kept s t" "kept s (t\<lparr>local_session := y\<rparr>) = kept s t"
  by (simp_all add: kept_def)

lemma kept_refl [simp]: "kept s s"
  by (simp add: kept_def)

lemma kept_trans: "kept s t \<Longrightarrow> kept t u \<Longrightarrow> kept s u"
  by (simp add: kept_def)

lemma on_sccrp_moves:
  assumes "on_sccrp md5 s m = Some x" "step_state x = (s', m')"
  shows "kept s s'" "grows f m m'"
    "l_state s' = l_state s \<or> (l_state s = L2TP_SCCRQ \<and> l_state s' = L2TP_SCCCN \<and> verify_challenge md5 s = Some True)"
proof -
  have "kept s s' \<and> grows f m m' \<and> (l_state s' = l_state s \<or>
      (l_state s = L2TP_SCCRQ \<and> l_state s' = L2TP_SCCCN \<and> verify_challenge md5 s = Some True))"
    using assms
    by (auto simp: on_sccrp_def bind_eq_Some_conv kept_def core_def split: if_split_asm dest!: core_dests)
  then show "kept s s'" "grows f m m'"
    "l_state s' = l_state s \<or> (l_state s = L2TP_SCCRQ \<and> l_state s' = L2TP_SCCCN \<and> verify_challenge md5 s = Some True)"
    by simp_all
qed

lemma on_icrp_moves:
  assumes "on_icrp md5 session s m = Some x" "step_state x = (s', m')"
  shows "kept s s' \<and> grows f m m' \<and>
    (l_state s' = l_state s \<or> (l_state s = L2TP_ICRQ \<and> l_state s' = L2TP_ICCN))"
  using assms
  by (auto simp: on_icrp_def bind_eq_Some_conv kept_def core_def split: if_split_asm dest!: core_dests)

lemma on_call_request_moves:
  assumes "on_call_request md5 session s m = Some x" "step_state x = (s', m')"
  shows "kept s s' \<and> grows f m m' \<and> l_state s' = l_state s"
proof -
  have "core s' = core s \<and> grows f m m'"
    using assms
    by (auto simp: on_call_request_def bind_eq_Some_conv split: if_split_asm dest!: core_dests)
  then show ?thesis using kept_core by blast
qed

lemmas grows_pppox = quiet_grows [OF l2tp_pppox_quiet]

lemma grows_pppd:
  assumes "start_pppd env number m pppox = Some r"
  shows "grows True m (ret_state r)"
  using assms by (auto simp: start_pppd_def Let_def grows_def bind_eq_Some_conv split: if_split_asm)

lemma on_harmless_moves:
  assumes "on_harmless env number s m = Some x" "step_state x = (s', m')"
  shows "kept s s' \<and> grows (l_state s = L2TP_ICCN) m m' \<and>
    (l_state s' = l_state s \<or> (l_state s = L2TP_SCCCN \<and> l_state s' = L2TP_ICRQ) \<or>
      (l_state s = L2TP_ICCN \<and> l_state s' = L2TP_ACK))"
proof (cases "l_state s = L2TP_SCCCN")
  case True
  obtain n m1 where n: "pick16 env (local_session s) m = Some (n, m1)"
    using assms(1) True by (auto simp: on_harmless_def bind_eq_Some_conv)
  obtain r m2 where r: "mrandom env m1 = (r, m2)" by (cases "mrandom env m1")
  have "grows (l_state s = L2TP_ICCN) m m2"
    using grows_trans [OF conjunct1 [OF grows_pick16 [OF n]] grows_random [OF r]] .
  then show ?thesis using assms True
    by (auto simp: on_harmless_def n r bind_eq_Some_conv kept_def core_def dest!: core_dests)
next
  case False
  define m1 where "m1 = (if li_message s = L2TP_ACK then m else send_ack s m)"
  have m1: "grows f m m1" for f by (simp add: m1_def)
  show ?thesis
  proof (cases "l_state s = L2TP_ICCN")
    case True
    define s1 where "s1 = s\<lparr>l_state := L2TP_ACK\<rparr>"
    have s1: "kept s s1" "l_state s1 = L2TP_ACK" by (simp_all add: s1_def kept_def)
    have p: "grows True m1 (ret_state (l2tp_create_pppox env s1 m1))" by (rule grows_pppox)
    show ?thesis
    proof (cases "l2tp_create_pppox env s1 m1")
      case (Ret pppox m2)
      then obtain r where r: "start_pppd env number m2 pppox = Some r"
        using assms(1) False True by (auto simp: on_harmless_def m1_def [symmetric] s1_def [symmetric] bind_eq_Some_conv)
      have "grows True m (ret_state r)"
        using grows_trans [OF m1 grows_trans [OF p]] Ret grows_pppd [OF r] by simp
      then show ?thesis using assms False True Ret r s1
        by (cases r) (auto simp: on_harmless_def m1_def [symmetric] s1_def [symmetric])
    next
      case (Quit code m2)
      then show ?thesis using assms False True s1 grows_trans [OF m1 p]
        by (auto simp: on_harmless_def m1_def [symmetric] s1_def [symmetric])
    next
      case (Execed m2)
      then show ?thesis using assms False True s1 grows_trans [OF m1 p]
        by (auto simp: on_harmless_def m1_def [symmetric] s1_def [symmetric])
    qed
  next
    case icc: False
    then show ?thesis using assms False m1
      by (auto simp: on_harmless_def m1_def [symmetric])
  qed
qed

definition l2tp_moves :: "(u16 \<times> u16) set" where
  "l2tp_moves = {(L2TP_SCCRQ, L2TP_SCCCN), (L2TP_SCCCN, L2TP_ICRQ), (L2TP_ICRQ, L2TP_ICCN), (L2TP_ICCN, L2TP_ACK)}"

lemma dispatch_moves:
  assumes "l2tp_dispatch env number md5 session s m = Some x" "step_state x = (s', m')"
  shows "kept s s'" "grows (l_state s = L2TP_ICCN) m m'"
    "l_state s' = l_state s \<or> l_state s' = L2TP_STOPCCN \<or> (l_state s, l_state s') \<in> l2tp_moves"
    "l_state s = L2TP_SCCRQ \<Longrightarrow> l_state s' = L2TP_SCCCN \<Longrightarrow> verify_challenge md5 s = Some True"
proof -
  let ?moved = "l_state s' = l_state s \<or> l_state s' = L2TP_STOPCCN \<or> (l_state s, l_state s') \<in> l2tp_moves"
  consider "on_sccrp md5 s m = Some x" | "on_icrp md5 session s m = Some x"
    | "on_call_request md5 session s m = Some x" | "on_harmless env number s m = Some x"
    | "Inl (Ret (- REMOTE_REQUESTED) (s\<lparr>l_state := L2TP_STOPCCN\<rparr>, m)) = x"
    | "Inl (Ret (- REMOTE_REQUESTED) (s, m)) = x" | "Inr (s, m) = x"
    using assms(1) unfolding l2tp_dispatch_def Let_def
    by (simp split: if_split_asm)
  then have "kept s s' \<and> grows (l_state s = L2TP_ICCN) m m' \<and> ?moved \<and>
      (l_state s = L2TP_SCCRQ \<longrightarrow> l_state s' = L2TP_SCCCN \<longrightarrow> verify_challenge md5 s = Some True)"
  proof cases
    case 1
    then show ?thesis using on_sccrp_moves [OF 1 assms(2)]
      by (auto simp: l2tp_moves_def l2tp_message_defs)
  next
    case 2
    then show ?thesis using on_icrp_moves [OF 2 assms(2)] by (auto simp: l2tp_moves_def l2tp_message_defs)
  next
    case 3
    then show ?thesis using on_call_request_moves [OF 3 assms(2)] by (auto simp: l2tp_message_defs)
  next
    case 4
    then show ?thesis using on_harmless_moves [OF 4 assms(2)] by (auto simp: l2tp_moves_def l2tp_message_defs)
  qed (use assms(2) in \<open>auto simp: l2tp_message_defs kept_def\<close>)
  then show "kept s s'" "grows (l_state s = L2TP_ICCN) m m'" ?moved
    "l_state s = L2TP_SCCRQ \<Longrightarrow> l_state s' = L2TP_SCCCN \<Longrightarrow> verify_challenge md5 s = Some True"
    by auto
qed

lemma core_set_buffer:
  "core (s\<lparr>li_buffer := b, li_length := n\<rparr>) = (l_state s, secret s, challenge s, n, b)"
  by (simp add: core_def)

text \<open>What \<open>process\<close> does to the state: the bytes it verified are those it received.\<close>

lemma process_moves:
  assumes "l2tp_process env number md5 s m = Some r" "ret_state r = (s', m')"
  obtains "l_state s' = l_state s" "secret s' = secret s" "challenge s' = challenge s" "grows (l_state s = L2TP_ICCN) m m'"
  | "l_state s' = L2TP_STOPCCN" "secret s' = secret s" "challenge s' = challenge s" "grows (l_state s = L2TP_ICCN) m m'"
  | d x where "(l_state s, l_state s') \<in> l2tp_moves" "secret s' = secret s" "challenge s' = challenge s"
    "grows (l_state s = L2TP_ICCN) m m'"
    "me_recv env (m_io m @ [M_recv (the_socket m) (int L2TP_MAX_PACKET_LENGTH)]) = R_data d"
    "\<exists>es. m_io m' = m_io m @ M_recv (the_socket m) (int L2TP_MAX_PACKET_LENGTH) # es"
    "secret x = secret s" "challenge x = challenge s" "li_length x = length (take L2TP_MAX_PACKET_LENGTH d)"
    "take (li_length x) (li_buffer x) = take L2TP_MAX_PACKET_LENGTH d"
    "l_state s = L2TP_SCCRQ \<Longrightarrow> verify_challenge md5 x = Some True"
proof -
  define rv where "rv = M_recv (the_socket m) (int L2TP_MAX_PACKET_LENGTH)"
  define m1 where "m1 = memit rv m"
  have m1: "grows f m m1" for f by (simp add: m1_def rv_def)
  obtain q where q: "l2tp_recv_packet env s m = Some q" using assms(1)
    by (auto simp: l2tp_process_def bind_eq_Some_conv)
  show thesis
  proof (cases "me_recv env (m_io m1)")
    case R_eintr
    then have "q = Ret None (s, m1)" using q by (simp add: l2tp_recv_packet_def m1_def rv_def Let_def)
    then show thesis using that(1) assms q m1 by (auto simp: l2tp_process_def)
  next
    case R_error
    then have "q = Quit NETWORK_ERROR (s, m1)" using q by (simp add: l2tp_recv_packet_def m1_def rv_def Let_def)
    then show thesis using that(1) assms q m1 by (auto simp: l2tp_process_def)
  next
    case (R_data d)
    define e where "e = take L2TP_MAX_PACKET_LENGTH d"
    obtain b y s1 m2 where b: "wr_bytes (li_buffer s) 0 e = Some b"
      and a: "accept_packet (s\<lparr>li_buffer := b, li_length := length e\<rparr>) m1 = Some (y, s1, m2)"
      and qy: "q = Ret y (s1, m2)"
      using q R_data
      by (auto simp: l2tp_recv_packet_def m1_def [symmetric] rv_def [symmetric] e_def Let_def bind_eq_Some_conv)
    have s1: "l_state s1 = l_state s" "secret s1 = secret s" "challenge s1 = challenge s"
        "li_length s1 = length e" "li_buffer s1 = b"
      and m2: "grows f m1 m2" for f
      using core_accept [OF a] by (simp_all add: core_def)
    have t: "take (length e) b = e" using b by (auto simp: wr_bytes_def split: if_split_asm)
    show thesis
    proof (cases y)
      case None
      then show thesis using that(1) assms q qy s1 grows_trans [OF m1 m2]
        by (auto simp: l2tp_process_def split: if_split_asm)
    next
      case (Some session)
      then obtain x where x: "l2tp_dispatch env number md5 session s1 m2 = Some x"
        using assms(1) q qy by (auto simp: l2tp_process_def bind_eq_Some_conv)
      obtain s2 m3 where sx: "step_state x = (s2, m3)" by fastforce
      note d = dispatch_moves [OF x sx]
      have "core s' = core s2 \<and> grows f m3 m'" for f
        using assms q qy Some x sx
        by (auto simp: l2tp_process_def bind_eq_Some_conv split: sum.splits if_split_asm dest!: core_send [where f = f])
      then have s': "l_state s' = l_state s2" "secret s' = secret s2" "challenge s' = challenge s2"
        and m3: "grows f m3 m'" for f by (simp_all add: core_def)
      have k: "secret s2 = secret s" "challenge s2 = challenge s" using d(1) s1 by (simp_all add: kept_def)
      have g: "grows (l_state s = L2TP_ICCN) m1 m'"
        using grows_trans [OF m2 grows_trans [OF _ m3]] d(2) s1 by simp
      then have g': "grows (l_state s = L2TP_ICCN) m m'" by (rule grows_trans [OF m1])
      have "\<exists>es. m_io m' = m_io m @ rv # es" using g by (auto simp: grows_def m1_def)
      then show thesis using d(3,4) that(1,2) g' s' k s1 t R_data
          that(3) [of d s1] by (auto simp: m1_def rv_def e_def l2tp_moves_def l2tp_message_defs)
    qed
  qed
qed

section \<open>Runs of the client\<close>

text \<open>A run connects and then processes datagrams and timeouts in any order. The results that end
  the daemon or are the child process belong to it.\<close>

inductive l2tp_run :: "mtp_env \<Rightarrow> (int \<Rightarrow> bytes) \<Rightarrow> (bytes \<Rightarrow> bytes) \<Rightarrow> l2tp \<Rightarrow> mtp \<Rightarrow> bytes list \<Rightarrow> l2tp \<times> mtp \<Rightarrow> bool"
  for env number md5 s0 m0 args where
  connect: "l2tp_connect env s0 m0 args = Some (Ret t p) \<Longrightarrow> l2tp_run env number md5 s0 m0 args p"
| process: "l2tp_run env number md5 s0 m0 args (s, m) \<Longrightarrow> l2tp_process env number md5 s m = Some r \<Longrightarrow>
    l2tp_run env number md5 s0 m0 args (ret_state r)"
| timeout: "l2tp_run env number md5 s0 m0 args (s, m) \<Longrightarrow> l2tp_timeout s m = Some r \<Longrightarrow>
    l2tp_run env number md5 s0 m0 args (ret_state r)"

text \<open>A datagram of the run carried the response to the challenge: the hash of the type, the secret
  and the challenge, as \<open>get_attribute_raw\<close> reads it.\<close>

definition answered :: "mtp_env \<Rightarrow> (bytes \<Rightarrow> bytes) \<Rightarrow> bytes \<Rightarrow> l2tp \<Rightarrow> mtp \<Rightarrow> bool" where
  "answered env md5 sec s m \<longleftrightarrow> (\<exists>h es d x. m_io m = h @ es \<and> me_recv env h = R_data d \<and> secret x = Some sec \<and>
     li_length x = length (take L2TP_MAX_PACKET_LENGTH d) \<and>
     take (li_length x) (li_buffer x) = take L2TP_MAX_PACKET_LENGTH d \<and>
     get_attribute_raw md5 x CHALLENGE_RESPONSE 16 = Some (md5 ([2] @ sec @ challenge s)))"

lemma answered_mono:
  assumes "answered env md5 sec s m" "challenge s' = challenge s" "grows f m m'"
  shows "answered env md5 sec s' m'"
proof -
  obtain es' where es': "m_io m' = m_io m @ es'" using assms(3) by (auto simp: grows_def)
  from assms(1) obtain h es d x where "m_io m = h @ es" and a: "me_recv env h = R_data d" "secret x = Some sec"
     "li_length x = length (take L2TP_MAX_PACKET_LENGTH d)"
     "take (li_length x) (li_buffer x) = take L2TP_MAX_PACKET_LENGTH d"
     "get_attribute_raw md5 x CHALLENGE_RESPONSE 16 = Some (md5 ([2] @ sec @ challenge s))"
    unfolding answered_def by blast
  then have "m_io m' = h @ (es @ es')" using es' by simp
  then show ?thesis unfolding answered_def assms(2) using a by blast
qed

lemma server_socket_grows:
  "create_server_socket env m server port = Ret u m' \<Longrightarrow> grows f m m'"
  using quiet_grows [OF server_socket_quiet [of m env server port]] by simp

lemma connect_facts:
  assumes "l2tp_connect env s0 m0 (server # port # sec # rest) = Some (Ret t (s, m))" "sec \<noteq> []"
  shows "l_state s = L2TP_SCCRQ" "secret s = Some sec" "grows False m0 m"
proof -
  obtain u m1 where m1: "create_server_socket env m0 server port = Ret u m1"
    using assms(1) by (auto simp: l2tp_connect_def split: ret.splits)
  obtain tn m2 where m2: "pick16 env (local_tunnel s0) m1 = Some (tn, m2)"
    using assms(1) by (auto simp: l2tp_connect_def m1 bind_eq_Some_conv)
  have g: "grows False m0 m2"
    using grows_trans [OF server_socket_grows [OF m1] conjunct1 [OF grows_pick16 [OF m2]]] .
  define m3 where "m3 = memit (M_urandom CHALLENGE_SIZE) m2"
  have m3: "grows False m0 m3" using g by (auto simp: m3_def grows_def)
  have "l_state s = L2TP_SCCRQ \<and> secret s = Some sec \<and> grows False m3 m"
    using assms by (auto simp: l2tp_connect_def m1 m2 bind_eq_Some_conv core_def m3_def [symmetric] Let_def
      split: if_split_asm option.split_asm dest!: core_dests core_send [where f = False])
  then show "l_state s = L2TP_SCCRQ" "secret s = Some sec" "grows False m0 m"
    using grows_trans [OF m3] by simp_all
qed

definition guarded :: "mtp_env \<Rightarrow> (bytes \<Rightarrow> bytes) \<Rightarrow> bytes \<Rightarrow> l2tp \<Rightarrow> mtp \<Rightarrow> bool" where
  "guarded env md5 sec s m \<longleftrightarrow> secret s = Some sec \<and>
    (M_fork \<in> set (m_io m) \<or> l_state s \<notin> {L2TP_SCCRQ, L2TP_STOPCCN} \<longrightarrow> answered env md5 sec s m)"

lemma process_guarded:
  assumes "guarded env md5 sec s1 m1" "l2tp_process env number md5 s1 m1 = Some r" "ret_state r = (s, m)"
  shows "guarded env md5 sec s m"
proof -
  have sec: "secret s1 = Some sec" using assms(1) by (simp add: guarded_def)
  have old: "M_fork \<in> set (m_io m) \<longrightarrow> M_fork \<in> set (m_io m1) \<or> l_state s1 = L2TP_ICCN"
    if "grows (l_state s1 = L2TP_ICCN) m1 m" using that by (auto simp: grows_def)
  show ?thesis
  proof (rule process_moves [OF assms(2,3)], goal_cases)
    case 1
    then show ?case using assms(1) old answered_mono [of env md5 sec s1 m1 s] sec
      by (auto simp: l2tp_message_defs guarded_def)
  next
    case 2
    then show ?case using assms(1) old answered_mono [of env md5 sec s1 m1 s] sec
      by (auto simp: l2tp_message_defs guarded_def)
  next
    case (3 d x)
    show ?case
    proof (cases "l_state s1 = L2TP_SCCRQ")
      case True
      have "get_attribute_raw md5 x CHALLENGE_RESPONSE 16 = Some (md5 ([2] @ sec @ challenge s))"
        using 3 True sec by (auto simp: verify_challenge_def bind_eq_Some_conv compute_response_def
          MD5_DIGEST_LENGTH_def L2TP_SCCRP_def)
      moreover obtain es where "m_io m = m_io m1 @ M_recv (the_socket m1) (int L2TP_MAX_PACKET_LENGTH) # es"
        using 3(6) by blast
      ultimately have "answered env md5 sec s m"
        using 3 sec unfolding answered_def
        by (intro exI [of _ "m_io m1 @ [M_recv (the_socket m1) (int L2TP_MAX_PACKET_LENGTH)]"] exI [of _ es]
            exI [of _ d] exI [of _ x]) simp
      then show ?thesis using 3 sec by (simp add: guarded_def)
    next
      case False
      then have "l_state s1 \<notin> {L2TP_SCCRQ, L2TP_STOPCCN}"
        using 3(1) by (auto simp: l2tp_moves_def l2tp_message_defs)
      then show ?thesis using assms(1) 3 answered_mono [of env md5 sec s1 m1 s] sec by (auto simp: guarded_def)
    qed
  qed
qed

lemma run_guarded:
  assumes "l2tp_run env number md5 s0 m0 (server # port # sec # rest) (s, m)" "sec \<noteq> []"
    and "M_fork \<notin> set (m_io m0)"
  shows "guarded env md5 sec s m"
  using assms(1)
proof (induction "(s, m)" arbitrary: s m)
  case (connect t)
  then show ?case using connect_facts [OF connect assms(2)] assms(3) by (auto simp: grows_def guarded_def)
next
  case (process s1 m1 r s m)
  then show ?case using process_guarded [of env md5 sec s1 m1 number r s m] by simp
next
  case (timeout s1 m1 r s m)
  then have "s = s1" "grows False m1 m"
    by (auto simp: l2tp_timeout_def bind_eq_Some_conv split: if_split_asm)
  then show ?case using timeout(2) answered_mono [of env md5 sec s1 m1 s] by (auto simp: grows_def guarded_def)
qed

text \<open>C6: with a secret, the tunnel comes up only for a peer that knows it. In every run of a
  client with a nonempty secret, once the state is past the request for the connection, and before
  \<open>pppd\<close> is ever forked, some datagram of the run has carried the hash of the secret and of the
  challenge this run drew.\<close>

theorem l2tp_authentication:
  assumes "l2tp_run env number md5 s0 m0 (server # port # sec # rest) (s, m)" "sec \<noteq> []"
    and "M_fork \<notin> set (m_io m0)"
    and "M_fork \<in> set (m_io m) \<or> l_state s \<notin> {L2TP_SCCRQ, L2TP_STOPCCN}"
  shows "answered env md5 sec s m"
  using run_guarded [OF assms(1-3)] assms(4) by (auto simp: guarded_def)

definition sample_answer :: bytes where
  "sample_answer = [0xC8, 2, 0, 50, 0, 5, 0, 0, 0, 0, 0, 1, 0x80, 8, 0, 0, 0, 0, 0, 2,
     0x80, 8, 0, 0, 0, 9, 0, 1, 0x80, 22, 0, 0, 0, 13] @ replicate 16 7"

definition sample_env :: mtp_env where
  "sample_env = \<lparr>me_addrinfo = \<lambda>h. Some [[1]], me_socket = \<lambda>h. 3, me_ok = \<lambda>h. True,
     me_recv = \<lambda>h. R_data sample_answer, me_random = \<lambda>h. 1, me_urandom = \<lambda>h. Some (replicate 32 9),
     me_fork = \<lambda>h. 77, me_poll = \<lambda>h. None, me_signal = \<lambda>h. 15, me_exit_status = \<lambda>h. None\<rparr>"

definition sample_md5 :: "bytes \<Rightarrow> bytes" where
  "sample_md5 x = replicate 16 7"

definition sample_l2tp :: l2tp where
  "sample_l2tp = l2tp_init\<lparr>local_tunnel := 5, li_buffer := replicate 100 0, lo_buffer := replicate 150 0\<rparr>"

definition sample_connected :: mtp where
  "sample_connected = mtp_init\<lparr>the_socket := 3,
     m_io := [M_getaddrinfo [49] [50], M_socket, M_bind_device 3 [], M_connect 3 [1]]\<rparr>"

lemma sample_connect:
  "create_server_socket sample_env mtp_init [49] [50] = Ret () sample_connected"
  by code_simp

lemma pick16_known: "pick16 env (local_tunnel sample_l2tp) m = Some (5, m)"
  by (simp add: pick16.simps sample_l2tp_def)

lemma sample_run:
  "case l2tp_connect sample_env sample_l2tp mtp_init [[49], [50], [1]] of
     Some (Ret t p) \<Rightarrow>
       (case l2tp_process sample_env (\<lambda>n. []) sample_md5 (fst p) (snd p) of
          Some r \<Rightarrow> l_state (fst (ret_state r)) = L2TP_SCCCN | _ \<Rightarrow> False)
   | _ \<Rightarrow> False"
  unfolding l2tp_connect_def list.case sample_connect ret.case pick16_known Option.bind.simps prod.case
  by code_simp

theorem l2tp_authentication_witness:
  "\<exists>s m. l2tp_run sample_env (\<lambda>n. []) sample_md5 sample_l2tp mtp_init [[49], [50], [1]] (s, m) \<and>
     l_state s = L2TP_SCCCN \<and> answered sample_env sample_md5 [1] s m"
proof -
  obtain t p r where
    c: "l2tp_connect sample_env sample_l2tp mtp_init [[49], [50], [1]] = Some (Ret t p)"
    and q: "l2tp_process sample_env (\<lambda>n. []) sample_md5 (fst p) (snd p) = Some r"
    and l: "l_state (fst (ret_state r)) = L2TP_SCCCN"
    using sample_run by (force split: option.split_asm ret.split_asm)
  define s m where "s = fst (ret_state r)" and "m = snd (ret_state r)"
  have r: "l2tp_run sample_env (\<lambda>n. []) sample_md5 sample_l2tp mtp_init [[49], [50], [1]] (s, m)"
    using l2tp_run.process [OF _ q] l2tp_run.connect [OF c] by (simp add: s_def m_def)
  have "answered sample_env sample_md5 [1] s m"
    by (rule l2tp_authentication [OF r]) (use l in \<open>simp_all add: s_def mtp_init_def l2tp_message_defs\<close>)
  then show ?thesis using r l by (auto simp: s_def)
qed

end
