(* ===== verification/Mtpd.thy ===== *)
theory Mtpd
  imports L2tp Pptp
begin

text \<open>
  The PPP daemon, \<open>mtpd/mtpd.c\<close>: how it gets its arguments, the choice of the protocol, the loop
  over \<open>poll\<close>, signals and the end. The pipe that carries signals is an event source of \<open>poll\<close>. The
  arguments are lists of bytes without the terminator; allocation of their memory is taken to
  succeed.
\<close>

section \<open>Protocols\<close>

text \<open>\<open>struct protocol\<close>. The static variables of a protocol are its state.\<close>

record 's protocol =
  p_name :: bytes
  p_arguments :: nat
  p_connect :: "'s \<Rightarrow> mtp \<Rightarrow> bytes list \<Rightarrow> (int, 's \<times> mtp) ret option"
  p_process :: "'s \<Rightarrow> mtp \<Rightarrow> (int, 's \<times> mtp) ret option"
  p_timeout :: "'s \<Rightarrow> mtp \<Rightarrow> (int, 's \<times> mtp) ret option"
  p_shutdown :: "'s \<Rightarrow> mtp \<Rightarrow> ('s \<times> mtp) option"

definition l2tp_protocol :: "mtp_env \<Rightarrow> (int \<Rightarrow> bytes) \<Rightarrow> (bytes \<Rightarrow> bytes) \<Rightarrow> l2tp protocol" where
  "l2tp_protocol env number md5 =
     \<lparr>p_name = [108, 50, 116, 112], p_arguments = 3, p_connect = l2tp_connect env,
      p_process = l2tp_process env number md5, p_timeout = l2tp_timeout, p_shutdown = l2tp_shutdown\<rparr>"

definition pptp_protocol :: "mtp_env \<Rightarrow> (int \<Rightarrow> bytes) \<Rightarrow> pptp protocol" where
  "pptp_protocol env number =
     \<lparr>p_name = [112, 112, 116, 112], p_arguments = 2, p_connect = pptp_connect env,
      p_process = pptp_process env number, p_timeout = pptp_timeout, p_shutdown = pptp_shutdown\<rparr>"

section \<open>The control socket\<close>

text \<open>The attempts to connect; the result is what is left of \<open>tries\<close>.\<close>

fun control_tries :: "nat \<Rightarrow> int \<Rightarrow> bytes \<Rightarrow> mtp \<Rightarrow> nat \<times> mtp" where
  "control_tries 0 control path m = (0, m)"
| "control_tries (Suc tries) control path m = control_tries tries control path (memit (M_connect control path) m)"

definition control_byte :: "mtp_env \<Rightarrow> int \<Rightarrow> mtp \<Rightarrow> u8 option \<times> mtp" where
  "control_byte env control m =
     (let m = memit (M_recv control 1) m in
      (case me_recv env (m_io m) of R_data (b # _) \<Rightarrow> Some b | _ \<Rightarrow> None, m))"

text \<open>The value of an argument, of which \<open>n\<close> bytes are missing.\<close>

function control_value :: "mtp_env \<Rightarrow> int \<Rightarrow> nat \<Rightarrow> mtp \<Rightarrow> (bytes, mtp) ret" where
  "control_value env control n m =
     (if n = 0 then Ret [] m
      else
        let m = memit (M_recv control (int n)) m in
        case me_recv env (m_io m) of
          R_data (b # d) \<Rightarrow>
            (case control_value env control (n - length (take n (b # d))) m of
               Ret v m \<Rightarrow> Ret (take n (b # d) @ v) m
             | Quit code m \<Rightarrow> Quit code m
             | Execed m \<Rightarrow> Execed m)
        | _ \<Rightarrow> Quit SYSTEM_ERROR m)"
  by pat_completeness auto

termination
  by (relation "measure (\<lambda>(env, control, n, m). n)") auto

declare control_value.simps [simp del]

text \<open>At most \<open>n\<close> arguments; the length \<open>0xFFFF\<close> ends them.\<close>

fun control_args :: "nat \<Rightarrow> mtp_env \<Rightarrow> int \<Rightarrow> mtp \<Rightarrow> (bytes list, mtp) ret" where
  "control_args 0 env control m = Ret [] m"
| "control_args (Suc n) env control m =
     (case control_byte env control m of
        (None, m) \<Rightarrow> Quit SYSTEM_ERROR m
      | (Some h, m) \<Rightarrow>
          (case control_byte env control m of
             (None, m) \<Rightarrow> Quit SYSTEM_ERROR m
           | (Some l, m) \<Rightarrow>
               if be16 h l = 0xFFFF then Ret [] m
               else
                 (case control_value env control (unat (be16 h l)) m of
                    Ret v m \<Rightarrow>
                      (case control_args n env control m of
                         Ret vs m \<Rightarrow> Ret (v # vs) m
                       | Quit code m \<Rightarrow> Quit code m
                       | Execed m \<Rightarrow> Execed m)
                  | Quit code m \<Rightarrow> Quit code m
                  | Execed m \<Rightarrow> Execed m)))"

text \<open>\<open>sun_path\<close> has 108 bytes and is filled with \<open>strcpy\<close>.\<close>

definition ocpa_get_control_and_arguments ::
  "mtp_env \<Rightarrow> bytes list \<Rightarrow> mtp \<Rightarrow> (int \<times> bytes list, mtp) ret option" where
  "ocpa_get_control_and_arguments env argv m =
     (case argv of
        prog # path # _ \<Rightarrow>
          if 108 \<le> length path then None
          else
            let m = memit M_socket m; control = me_socket env (m_io m) in
            if control = - 1 then Some (Ret (- 1, argv) m)
            else
              let (tries, m) = control_tries 5 control path m in
              if tries = 0 then Some (Quit SYSTEM_ERROR m)
              else
                (case control_args 31 env control m of
                   Ret args m \<Rightarrow> Some (Ret (control, prog # args) m)
                 | Quit code m \<Rightarrow> Some (Quit code m)
                 | Execed m \<Rightarrow> Some (Execed m))
      | _ \<Rightarrow> Some (Quit SYSTEM_ERROR m))"

section \<open>The loop\<close>

text \<open>One turn: either the loop goes on with a timeout and the events that stay in the array, or it
  is left with a timeout, an exit or the child process. The events are those of the server,
  the signals and the control socket.\<close>

datatype 's turn =
    Again int "bool \<times> bool \<times> bool" 's mtp
  | Leave "(int, 's \<times> mtp) ret"

definition mtpd_turn ::
  "mtp_env \<Rightarrow> 's protocol \<Rightarrow> int \<Rightarrow> bool \<times> bool \<times> bool \<Rightarrow> 's \<Rightarrow> mtp \<Rightarrow> 's turn option" where
  "mtpd_turn env p timeout revents s m =
     (let m = memit (M_poll (if timeout \<noteq> 0 then timeout else - 1)) m in
      case me_poll env (m_io m) of
        None \<Rightarrow> Some (Leave (Quit SYSTEM_ERROR (s, m)))
      | Some polled \<Rightarrow>
          (case (case polled of None \<Rightarrow> revents | Some e \<Rightarrow> e) of
             (server, signal, control) \<Rightarrow>
               if signal then Some (Leave (Ret timeout (s, m)))
               else do {
                 r \<leftarrow> (if server then p_process p s m else p_timeout p s m);
                 Some (case r of
                     Ret timeout (s, m) \<Rightarrow> Again timeout (server, signal, False) s m
                   | Quit code x \<Rightarrow> Leave (Quit code x)
                   | Execed x \<Rightarrow> Leave (Execed x))
               }))"

partial_function (option) mtpd_loop ::
  "mtp_env \<Rightarrow> 's protocol \<Rightarrow> int \<Rightarrow> bool \<times> bool \<times> bool \<Rightarrow> 's \<Rightarrow> mtp \<Rightarrow> (int, 's \<times> mtp) ret option" where
  "mtpd_loop env p timeout revents s m =
     (if timeout < 0 then Some (Ret timeout (s, m))
      else Option.bind (mtpd_turn env p timeout revents s m) (\<lambda>t.
        case t of Again timeout revents s m \<Rightarrow> mtpd_loop env p timeout revents s m | Leave r \<Rightarrow> Some r))"

section \<open>The end\<close>

definition SIGCHLD :: int where "SIGCHLD = 17"

definition exit_status :: "mtp_env \<Rightarrow> int \<Rightarrow> mtp \<Rightarrow> int \<times> mtp" where
  "exit_status env timeout m =
     (if timeout < 0 then (- timeout, m)
      else
        let m = memit M_read_signal m in
        if me_signal env (m_io m) = SIGCHLD then
          let m = memit (M_trywait (pppd_pid m)) m in
          case me_exit_status env (m_io m) of
            Some status \<Rightarrow> (status + PPPD_EXITED, m\<lparr>pppd_pid := 0\<rparr>)
          | None \<Rightarrow> (USER_REQUESTED, m)
        else (USER_REQUESTED, m))"

text \<open>What follows the loop in \<open>main\<close>, or after an \<open>exit\<close> inside of it the handler \<open>stop_pppd\<close>.\<close>

definition mtpd_finish :: "mtp_env \<Rightarrow> 's protocol \<Rightarrow> (int, 's \<times> mtp) ret \<Rightarrow> (int, 's \<times> mtp) ret option" where
  "mtpd_finish env p r =
     (case r of
        Ret timeout (s, m) \<Rightarrow>
          (case exit_status env timeout m of
             (status, m) \<Rightarrow> do {
               (s, m) \<leftarrow> p_shutdown p s (stop_pppd m);
               Some (Ret status (s, m))
             })
      | Quit code (s, m) \<Rightarrow> Some (Quit code (s, stop_pppd m))
      | Execed x \<Rightarrow> Some (Execed x))"

text \<open>From \<open>initialize\<close> on, with the protocol chosen. The array of events is not initialised.\<close>

definition mtpd_run ::
  "mtp_env \<Rightarrow> 's protocol \<Rightarrow> bool \<times> bool \<times> bool \<Rightarrow> bytes list \<Rightarrow> 's \<Rightarrow> mtp \<Rightarrow> (int, 's \<times> mtp) ret option" where
  "mtpd_run env p revents argv s m = do {
     r \<leftarrow> p_connect p s (m\<lparr>interface := argv ! 1, pppd_argv := drop (3 + p_arguments p) argv\<rparr>) (drop 3 argv);
     case r of
       Ret timeout (s, m) \<Rightarrow> do {
         r \<leftarrow> mtpd_loop env p timeout revents s m;
         mtpd_finish env p r
       }
     | Quit code x \<Rightarrow> Some (Quit code x)
     | Execed x \<Rightarrow> Some (Execed x)
   }"

definition chosen :: "'s protocol \<Rightarrow> bytes list \<Rightarrow> bool" where
  "chosen p argv \<longleftrightarrow> 3 + p_arguments p \<le> length argv \<and> argv ! 2 = p_name p"

fun drop_state :: "(int, 's \<times> mtp) ret \<Rightarrow> (int, mtp) ret" where
  "drop_state (Ret a (s, m)) = Ret a m"
| "drop_state (Quit code (s, m)) = Quit code m"
| "drop_state (Execed (s, m)) = Execed m"

definition mtpd_main ::
  "mtp_env \<Rightarrow> (int \<Rightarrow> bytes) \<Rightarrow> (bytes \<Rightarrow> bytes) \<Rightarrow> bool \<times> bool \<times> bool \<Rightarrow> bytes list \<Rightarrow> mtp \<Rightarrow> (int, mtp) ret option" where
  "mtpd_main env number md5 revents argv m = do {
     r \<leftarrow> ocpa_get_control_and_arguments env argv m;
     case r of
       Quit code m \<Rightarrow> Some (Quit code m)
     | Execed m \<Rightarrow> Some (Execed m)
     | Ret (control, argv) m \<Rightarrow>
         let m = memit M_pipe m in
         if \<not> me_ok env (m_io m) then Some (Quit SYSTEM_ERROR m)
         else if chosen (l2tp_protocol env number md5) argv
         then map_option drop_state (mtpd_run env (l2tp_protocol env number md5) revents argv l2tp_init m)
         else if chosen (pptp_protocol env number) argv
         then map_option drop_state (mtpd_run env (pptp_protocol env number) revents argv pptp_init m)
         else Some (Quit 0 m)
   }"

end
