(* ===== verification/MtpdProps.thy ===== *)
theory MtpdProps
  imports Mtpd L2tpAuth L2tpProps PptpProps MtpArgs
begin

text \<open>
  Properties of the PPP daemon: what \<open>mtpd.h\<close> asks of a protocol, as a locale that both protocols
  fulfil; under it the daemon does not fault and leaves no \<open>pppd\<close> behind; and the daemon as it
  is built never gets past its control socket.
\<close>

section \<open>Child processes\<close>

text \<open>The children that have been forked and not been waited for, from the history.\<close>

definition child_step :: "mtp_env \<Rightarrow> mtp_io list \<Rightarrow> mtp_io \<Rightarrow> int set \<Rightarrow> int set" where
  "child_step env h e A =
     (case e of
        M_fork \<Rightarrow> if me_fork env h > 0 then insert (me_fork env h) A else A
      | M_waitpid pid \<Rightarrow> A - {pid}
      | M_trywait pid \<Rightarrow> if me_exit_status env h \<noteq> None then A - {pid} else A
      | _ \<Rightarrow> A)"

fun children_from :: "mtp_env \<Rightarrow> mtp_io list \<Rightarrow> mtp_io list \<Rightarrow> int set \<Rightarrow> int set" where
  "children_from env h [] A = A"
| "children_from env h (e # es) A = children_from env (h @ [e]) es (child_step env (h @ [e]) e A)"

definition children :: "mtp_env \<Rightarrow> mtp \<Rightarrow> int set" where
  "children env m = children_from env [] (m_io m) {}"

lemma children_from_append:
  "children_from env h (xs @ ys) A = children_from env (h @ xs) ys (children_from env h xs A)"
  by (induction xs arbitrary: h A) simp_all

lemma children_memit: "children env (memit e m) = child_step env (m_io m @ [e]) e (children env m)"
  by (simp add: children_def children_from_append)

lemma children_quiet:
  assumes "m_io m' = m_io m @ es" "\<forall>e \<in> set es. silent e"
  shows "children env m' = children env m"
proof -
  have "children_from env h es A = A" for h A
    using assms(2) by (induction es arbitrary: h A) (auto simp: child_step_def silent_def split: mtp_io.splits)
  then show ?thesis using assms(1) by (simp add: children_def children_from_append)
qed

text \<open>The daemon knows its child.\<close>

definition tracked :: "mtp_env \<Rightarrow> mtp \<Rightarrow> bool" where
  "tracked env m \<longleftrightarrow> children env m = (if pppd_pid m > 0 then {pppd_pid m} else {})"

section \<open>What a protocol promises\<close>

definition args_fit :: "(int \<Rightarrow> bytes) \<Rightarrow> mtp \<Rightarrow> bool" where
  "args_fit number m \<longleftrightarrow> (\<forall>fd. \<exists>s. encode_args ([PPPD, [110, 111, 100, 101, 116, 97, 99, 104],
     [112, 112, 112, 111, 120], number fd] @ pppd_argv m) = Some s)"

text \<open>The random numbers of the environment do not stay zero.\<close>

definition fair :: "mtp_env \<Rightarrow> bool" where
  "fair env \<longleftrightarrow> (\<forall>h. \<exists>n. bswap16 (ucast (me_random env (h @ replicate (Suc n) M_random))) \<noteq> 0)"

definition sound :: "mtp_env \<Rightarrow> (int \<Rightarrow> bytes) \<Rightarrow> mtp \<Rightarrow> bool" where
  "sound env number m \<longleftrightarrow> fair env \<and> args_fit number m \<and> tracked env m"

text \<open>A result that keeps the contract: the state is fit to go on, or at least to be shut down.\<close>

definition keeps :: "mtp_env \<Rightarrow> (int \<Rightarrow> bytes) \<Rightarrow> ('s \<Rightarrow> bool) \<Rightarrow> ('s \<Rightarrow> bool) \<Rightarrow> (int, 's \<times> mtp) ret \<Rightarrow> bool" where
  "keeps env number going fin r \<longleftrightarrow>
     (case r of
        Ret timeout (s, m) \<Rightarrow> sound env number m \<and> fin s \<and> (0 \<le> timeout \<longrightarrow> going s)
      | Quit code (s, m) \<Rightarrow> tracked env m
      | Execed x \<Rightarrow> True)"

text \<open>The states of the loop: the timeout, the events in the array, the protocol and the daemon.\<close>

inductive mtpd_reaches ::
  "mtp_env \<Rightarrow> 's protocol \<Rightarrow> bool \<times> bool \<times> bool \<Rightarrow> bytes list \<Rightarrow> 's \<Rightarrow> mtp \<Rightarrow>
   int \<times> (bool \<times> bool \<times> bool) \<times> 's \<times> mtp \<Rightarrow> bool"
  for env p revents args s0 m0 where
  connected: "p_connect p s0 m0 args = Some (Ret timeout (s, m)) \<Longrightarrow>
    mtpd_reaches env p revents args s0 m0 (timeout, revents, s, m)"
| turned: "mtpd_reaches env p revents args s0 m0 (timeout, ev, s, m) \<Longrightarrow> 0 \<le> timeout \<Longrightarrow>
    mtpd_turn env p timeout ev s m = Some (Again timeout' ev' s' m') \<Longrightarrow>
    mtpd_reaches env p revents args s0 m0 (timeout', ev', s', m')"

text \<open>The daemon gets from a state to its end without a fault and with no child left.\<close>

definition ends_well :: "mtp_env \<Rightarrow> 's protocol \<Rightarrow> (int, 's \<times> mtp) ret \<Rightarrow> bool" where
  "ends_well env p r \<longleftrightarrow> (\<exists>r'. mtpd_finish env p r = Some r' \<and>
     (case r' of Execed x \<Rightarrow> True | Ret a (s, m) \<Rightarrow> children env m = {} | Quit a (s, m) \<Rightarrow> children env m = {}))"

definition goes_well :: "mtp_env \<Rightarrow> 's protocol \<Rightarrow> int \<times> (bool \<times> bool \<times> bool) \<times> 's \<times> mtp \<Rightarrow> bool" where
  "goes_well env p x =
     (case x of (timeout, ev, s, m) \<Rightarrow>
        if timeout < 0 then ends_well env p (Ret timeout (s, m))
        else (case mtpd_turn env p timeout ev s m of
            None \<Rightarrow> False | Some (Again timeout ev s m) \<Rightarrow> True | Some (Leave r) \<Rightarrow> ends_well env p r))"

locale protocol_client =
  fixes env :: mtp_env and number :: "int \<Rightarrow> bytes" and p :: "'s protocol" and start :: 's
    and going :: "'s \<Rightarrow> bool" and fin :: "'s \<Rightarrow> bool"
  assumes connects: "sound env number m \<Longrightarrow> p_arguments p \<le> length args \<Longrightarrow>
      \<exists>r. p_connect p start m args = Some r \<and> keeps env number going fin r"
    and processes: "sound env number m \<Longrightarrow> going s \<Longrightarrow> \<exists>r. p_process p s m = Some r \<and> keeps env number going fin r"
    and times_out: "sound env number m \<Longrightarrow> going s \<Longrightarrow> \<exists>r. p_timeout p s m = Some r \<and> keeps env number going fin r"
    and shuts_down: "fin s \<Longrightarrow> \<exists>s' es. p_shutdown p s m = Some (s', m\<lparr>m_io := m_io m @ es\<rparr>) \<and>
      (\<forall>e \<in> set es. silent e)"
begin

lemma turn_safe:
  assumes "sound env number m" "going s" "0 \<le> timeout" "fin s"
  shows "\<exists>t. mtpd_turn env p timeout revents s m = Some t \<and>
    (case t of Again timeout revents s m \<Rightarrow> keeps env number going fin (Ret timeout (s, m))
       | Leave r \<Rightarrow> keeps env number going fin r)"
proof -
  define m1 where "m1 = memit (M_poll (if timeout \<noteq> 0 then timeout else - 1)) m"
  have m1: "sound env number m1"
    using assms(1) by (simp add: m1_def sound_def args_fit_def tracked_def children_memit child_step_def)
  show ?thesis
  proof (cases "me_poll env (m_io m1)")
    case None
    then show ?thesis using m1 by (simp add: mtpd_turn_def m1_def [symmetric] keeps_def sound_def)
  next
    case (Some polled)
    obtain server signal control where e: "(case polled of None \<Rightarrow> revents | Some e \<Rightarrow> e) = (server, signal, control)"
      by (cases "case polled of None \<Rightarrow> revents | Some e \<Rightarrow> e") blast
    obtain r where r: "(if server then p_process p s m1 else p_timeout p s m1) = Some r" "keeps env number going fin r"
      using processes [OF m1 assms(2)] times_out [OF m1 assms(2)] by (cases server) auto
    show ?thesis
    proof (cases signal)
      case True
      then show ?thesis using Some e m1 assms(2,4) by (simp add: mtpd_turn_def m1_def [symmetric] keeps_def)
    next
      case False
      then show ?thesis using Some e r by (cases r) (auto simp: mtpd_turn_def m1_def [symmetric] keeps_def)
    qed
  qed
qed

lemma stop_children:
  assumes "tracked env m"
  shows "children env (stop_pppd m) = {} \<and> pppd_pid (stop_pppd m) = 0"
proof -
  have [simp]: "children env (m\<lparr>pppd_pid := x\<rparr>) = children env m" for m x by (simp add: children_def)
  show ?thesis using assms by (auto simp: stop_pppd_def tracked_def children_memit child_step_def)
qed

lemma exit_status_tracked:
  assumes "tracked env m" "exit_status env timeout m = (status, m')"
  shows "tracked env m'"
proof -
  have [simp]: "children env (m\<lparr>pppd_pid := x\<rparr>) = children env m" for m x by (simp add: children_def)
  show ?thesis
    using assms by (auto simp: exit_status_def Let_def tracked_def children_memit child_step_def
      split: if_split_asm option.split_asm)
qed

lemma finish_safe:
  assumes "keeps env number going fin r"
  shows "ends_well env p r"
proof (cases r)
  case (Ret timeout x)
  obtain s m where x: "x = (s, m)" by (cases x)
  obtain status m1 where m1: "exit_status env timeout m = (status, m1)" by fastforce
  have "tracked env m" "fin s" using assms Ret x by (auto simp: keeps_def sound_def)
  then have c: "children env (stop_pppd m1) = {}"
    using stop_children [OF exit_status_tracked [OF _ m1]] by simp
  obtain s' es where sd: "p_shutdown p s (stop_pppd m1) = Some (s', (stop_pppd m1)\<lparr>m_io := m_io (stop_pppd m1) @ es\<rparr>)"
    "\<forall>e \<in> set es. silent e"
    using shuts_down [OF \<open>fin s\<close>] by blast
  have "children env ((stop_pppd m1)\<lparr>m_io := m_io (stop_pppd m1) @ es\<rparr>) = {}"
    using children_quiet [OF _ sd(2), of _ "stop_pppd m1" env] c by simp
  then show ?thesis using Ret x m1 sd(1) by (simp add: mtpd_finish_def ends_well_def)
next
  case (Quit code x)
  then show ?thesis using assms stop_children by (auto simp: mtpd_finish_def keeps_def ends_well_def split: prod.splits)
qed (simp add: mtpd_finish_def ends_well_def)

lemma reaches_keeps:
  assumes "mtpd_reaches env p revents args start m (timeout, ev, s, m')"
    and "sound env number m" "p_arguments p \<le> length args"
  shows "keeps env number going fin (Ret timeout (s, m'))"
  using assms(1)
proof (induction "(timeout, ev, s, m')" arbitrary: timeout ev s m')
  case (connected timeout s m')
  then show ?case using connects [OF assms(2,3)] by auto
next
  case (turned timeout ev s m timeout' ev' s' m')
  then have "sound env number m" "going s" "fin s" by (simp_all add: keeps_def)
  from turn_safe [OF this(1,2) turned(3) this(3), of ev] turned(4) show ?case by simp
qed

lemma reaches_well:
  assumes "mtpd_reaches env p revents args start m x"
    and "sound env number m" "p_arguments p \<le> length args"
  shows "goes_well env p x"
proof -
  obtain timeout ev s m' where x: "x = (timeout, ev, s, m')" by (cases x) blast
  have k: "keeps env number going fin (Ret timeout (s, m'))"
    using reaches_keeps [of revents args m timeout ev s m'] assms x by simp
  show ?thesis
  proof (cases "timeout < 0")
    case True
    then show ?thesis using finish_safe [OF k] x by (simp add: goes_well_def)
  next
    case False
    then have "sound env number m'" "going s" "fin s" using k by (simp_all add: keeps_def)
    from turn_safe [OF this(1,2) _ this(3), of timeout ev] False obtain t where
      "mtpd_turn env p timeout ev s m' = Some t"
      "case t of Again timeout revents s m \<Rightarrow> keeps env number going fin (Ret timeout (s, m))
       | Leave r \<Rightarrow> keeps env number going fin r" by auto
    then show ?thesis using False x finish_safe by (cases t) (auto simp: goes_well_def)
  qed
qed

end

end
