(* ===== verification/MtpdSafe.thy ===== *)
theory MtpdSafe
  imports MtpdProps
begin

text \<open>
  Both protocols fulfil the contract of \<open>protocol_client\<close>: no operation faults, whatever the
  network delivers, as long as the random numbers do not stay zero and the arguments of
  \<open>pppd\<close> fit into their buffer.
\<close>

section \<open>Results with a property\<close>

definition yields :: "('a \<Rightarrow> bool) \<Rightarrow> 'a option \<Rightarrow> bool" where
  "yields P x \<longleftrightarrow> (\<exists>y. x = Some y \<and> P y)"

lemma yields_Some [simp]: "yields P (Some y) \<longleftrightarrow> P y"
  by (simp add: yields_def)

lemma yields_bind: "yields Q x \<Longrightarrow> (\<And>y. Q y \<Longrightarrow> yields P (f y)) \<Longrightarrow> yields P (Option.bind x f)"
  by (auto simp: yields_def)

lemma yields_weaken: "yields Q x \<Longrightarrow> (\<And>y. Q y \<Longrightarrow> P y) \<Longrightarrow> yields P x"
  by (auto simp: yields_def)

section \<open>What both protocols use\<close>

lemma quiet_sound: "quiet m m' \<Longrightarrow> sound env number m \<Longrightarrow> sound env number m'"
  using children_quiet [of m' m _ env]
  by (auto simp: quiet_def sound_def args_fit_def tracked_def)

lemma pick16_total:
  assumes "fair env"
  shows "yields (\<lambda>(v', m'). v' \<noteq> 0 \<and> quiet m m') (pick16 env v m)"
proof -
  have step: "yields (\<lambda>(v', m'). v' \<noteq> 0 \<and> quiet m m') (pick16 env v m)"
    if "bswap16 (ucast (me_random env (m_io m @ replicate (Suc n) M_random))) \<noteq> 0" for n v m
    using that
  proof (induction n arbitrary: v m)
    case 0
    then show ?case
      by (simp add: pick16.simps [of env v] pick16.simps [of env _ "memit M_random m"] mrandom_def Let_def
          quiet_memit silent_def)
  next
    case (Suc n)
    have "yields (\<lambda>(v', m'). v' \<noteq> 0 \<and> quiet (memit M_random m) m') (pick16 env x (memit M_random m))" for x
      using Suc.IH [of "memit M_random m"] Suc.prems by simp
    then have "yields (\<lambda>(v', m'). v' \<noteq> 0 \<and> quiet m m') (pick16 env x (memit M_random m))" for x
      by (rule yields_weaken) (auto intro: quiet_trans [OF quiet_memit] simp: silent_def)
    then show ?case by (simp add: pick16.simps [of env v] mrandom_def Let_def)
  qed
  obtain n where "bswap16 (ucast (me_random env (m_io m @ replicate (Suc n) M_random))) \<noteq> 0"
    using assms by (auto simp: fair_def)
  then show ?thesis by (rule step)
qed

lemma start_pppd_sound:
  assumes "sound env number m"
  shows "yields (\<lambda>r. case r of Ret u m' \<Rightarrow> sound env number m' | Quit code m' \<Rightarrow> tracked env m' | Execed x \<Rightarrow> True)
    (start_pppd env number m pppox)"
proof (cases "pppd_pid m = 0")
  case False
  have "sound env number (memit (M_close pppox) m)"
    by (rule quiet_sound [OF quiet_memit assms]) (simp add: silent_def)
  then show ?thesis using False by (simp add: start_pppd_def)
next
  case True
  define pid where "pid = me_fork env (m_io m @ [M_fork])"
  define m1 where "m1 = (memit M_fork m)\<lparr>pppd_pid := pid\<rparr>"
  have [simp]: "children env (m\<lparr>pppd_pid := x\<rparr>) = children env m" for m x by (simp add: children_def)
  have m1: "sound env number m1"
    using assms True
    by (simp add: m1_def sound_def tracked_def args_fit_def children_memit child_step_def pid_def [symmetric])
  have io: "m_io (memit M_fork m) = m_io m @ [M_fork]" by simp
  have q: "sound env number (memit e m1)" if "silent e" for e
    using quiet_sound [OF quiet_memit [OF that] m1] .
  obtain s where s: "encode_args ([PPPD, [110, 111, 100, 101, 116, 97, 99, 104], [112, 112, 112, 111, 120],
      number pppox] @ pppd_argv m) = Some s"
    using assms unfolding sound_def args_fit_def by blast
  have start: "start_pppd env number m pppox =
     (if pid < 0 then Some (Quit SYSTEM_ERROR m1)
      else if pid = 0 then
        Some (if me_ok env (m_io (memit (M_exec s) m1)) then Execed (memit (M_exec s) m1) else Quit 1 (memit (M_exec s) m1))
      else Some (Ret () (memit (M_close pppox) m1)))"
    using True s by (simp add: start_pppd_def Let_def m1_def pid_def)
  show ?thesis using m1 q [of "M_exec s"] q [of "M_close pppox"]
    unfolding start by (simp add: silent_def sound_def)
qed

section \<open>L2TP\<close>

definition l2tp_ok :: "l2tp \<Rightarrow> bool" where
  "l2tp_ok s \<longleftrightarrow> length (lo_buffer s) = L2TP_MAX_PACKET_LENGTH \<and> length (li_buffer s) = L2TP_MAX_PACKET_LENGTH \<and>
     li_length s \<le> L2TP_MAX_PACKET_LENGTH \<and> lo_length s \<le> L2TP_MAX_PACKET_LENGTH"

text \<open>The outgoing message has \<open>k\<close> bytes at most.\<close>

definition l2tp_out :: "nat \<Rightarrow> l2tp \<Rightarrow> bool" where
  "l2tp_out k s \<longleftrightarrow> l2tp_ok s \<and> lo_length s \<le> k"

lemma l2tp_ok_upd [simp]:
  "l2tp_ok (s\<lparr>l_state := x\<rparr>) = l2tp_ok s" "l2tp_ok (s\<lparr>remote_tunnel := y\<rparr>) = l2tp_ok s"
  "l2tp_ok (s\<lparr>remote_session := y\<rparr>) = l2tp_ok s" "l2tp_ok (s\<lparr>local_session := y\<rparr>) = l2tp_ok s"
  "l2tp_ok (s\<lparr>local_tunnel := y\<rparr>) = l2tp_ok s" "l2tp_ok (s\<lparr>acknowledged := b\<rparr>) = l2tp_ok s"
  "l2tp_ok (s\<lparr>challenge := d\<rparr>) = l2tp_ok s" "l2tp_ok (s\<lparr>secret := e\<rparr>) = l2tp_ok s"
  "l2tp_ok (s\<lparr>li_message := y\<rparr>) = l2tp_ok s" "l2tp_ok (s\<lparr>remote_sequence := y\<rparr>) = l2tp_ok s"
  by (simp_all add: l2tp_ok_def)

lemma l2tp_out_upd [simp]:
  "l2tp_out k (s\<lparr>challenge := d\<rparr>) = l2tp_out k s" "l2tp_out k (s\<lparr>secret := e\<rparr>) = l2tp_out k s"
  by (simp_all add: l2tp_out_def)

lemma l2tp_out_ok: "l2tp_out k s \<Longrightarrow> l2tp_ok s"
  by (simp add: l2tp_out_def)

lemma set_message_yields:
  assumes "l2tp_ok s"
  shows "yields (l2tp_out 20) (l2tp_set_message session message s)"
proof -
  have "MESSAGE_HEADER_SIZE \<le> length (lo_buffer s)"
    using assms by (simp add: l2tp_ok_def MESSAGE_HEADER_SIZE_def L2TP_MAX_PACKET_LENGTH_def)
  from set_message_wire [OF this, of session message] obtain l0 l1 r where
    "l2tp_set_message session message s =
    Some (s\<lparr>lo_buffer := [hi8 MESSAGE_FLAG, lo8 MESSAGE_FLAG, l0, l1] @
        concat (map (\<lambda>v. [hi8 v, lo8 v]) [remote_tunnel s, session, local_sequence s, remote_sequence s,
          attribute_flag 2, 0, 0, message]) @ r,
      lo_message := message, lo_length := MESSAGE_HEADER_SIZE, local_sequence := local_sequence s + 1\<rparr>)"
    "length r = length (lo_buffer s) - MESSAGE_HEADER_SIZE" .
  then show ?thesis using assms
    by (simp add: yields_def l2tp_out_def l2tp_ok_def MESSAGE_HEADER_SIZE_def L2TP_MAX_PACKET_LENGTH_def)
qed

lemma add_raw_yields:
  assumes "l2tp_out k s" "k + 6 + length v \<le> 2048" "k + 6 + length v \<le> k'"
  shows "yields (l2tp_out k') (add_attribute_raw t v s)"
proof -
  have "lo_length s + 6 + length v \<le> length (lo_buffer s)"
    using assms by (simp add: l2tp_out_def l2tp_ok_def L2TP_MAX_PACKET_LENGTH_def)
  then show ?thesis
    using assms add_attribute_wire [of s v t]
    by (simp add: yields_def l2tp_out_def l2tp_ok_def L2TP_MAX_PACKET_LENGTH_def)
qed

lemma add_u16_yields: "l2tp_out k s \<Longrightarrow> k + 8 \<le> 2048 \<Longrightarrow> yields (l2tp_out (k + 8)) (add_attribute_u16 t v s)"
  unfolding add_attribute_u16_def by (erule add_raw_yields) simp_all

lemma add_u32_yields: "l2tp_out k s \<Longrightarrow> k + 10 \<le> 2048 \<Longrightarrow> yields (l2tp_out (k + 10)) (add_attribute_u32 t v s)"
  unfolding add_attribute_u32_def by (erule add_raw_yields) simp_all

lemma send_yields:
  assumes "l2tp_ok s"
  shows "yields (\<lambda>(s', m'). l2tp_ok s' \<and> quiet m m') (l2tp_send_packet s m)"
proof -
  have "2 + 2 \<le> length (lo_buffer s)" using assms by (simp add: l2tp_ok_def L2TP_MAX_PACKET_LENGTH_def)
  then obtain b where b: "wr16 (lo_buffer s) 2 (of_nat (lo_length s)) = Some b" "length b = length (lo_buffer s)"
    using wr16_Some [of "lo_buffer s" 2 "of_nat (lo_length s)"] wr16_length by metis
  then show ?thesis using assms
    by (simp add: l2tp_send_packet_def rd_bytes_def l2tp_ok_def)
qed

lemma get_attribute_yields: "l2tp_ok s \<Longrightarrow> yields (\<lambda>d. length d \<le> n) (get_attribute_raw md5 s t n)"
  using get_attribute_from_bounds [of s md5 t n MESSAGE_HEADER_SIZE None]
  by (auto simp: get_attribute_raw_def yields_def l2tp_ok_def)

lemma get_u16_yields: "l2tp_ok s \<Longrightarrow> yields (\<lambda>x. True) (get_attribute_u16 md5 s t v)"
  unfolding get_attribute_u16_def by (rule yields_bind [OF get_attribute_yields]) simp_all

lemma verify_yields: "l2tp_ok s \<Longrightarrow> yields (\<lambda>x. True) (verify_challenge md5 s)"
  unfolding verify_challenge_def
  by (auto split: option.split intro!: yields_bind [OF get_attribute_yields])

lemma answer_yields:
  assumes "l2tp_out 20 s"
  shows "yields l2tp_ok (answer_challenge md5 s)"
proof -
  have "yields l2tp_ok (add_attribute_raw CHALLENGE_RESPONSE (take MD5_DIGEST_LENGTH d) s)" for d
    by (rule yields_weaken [OF add_raw_yields [OF assms, of _ 42]])
      (simp_all add: MD5_DIGEST_LENGTH_def l2tp_out_ok)
  then show ?thesis using l2tp_out_ok [OF assms] unfolding answer_challenge_def
    by (auto split: option.split intro!: yields_bind [OF get_attribute_yields])
qed

lemma accept_yields:
  assumes "l2tp_ok s"
  shows "yields (\<lambda>(x, s', m'). l2tp_ok s' \<and> quiet m m') (accept_packet s m)"
proof -
  have rd: "\<exists>v. rd16 (li_buffer s) i = Some v" if "i + 2 \<le> 2048" for i
    using assms that by (simp add: rd16_Some l2tp_ok_def L2TP_MAX_PACKET_LENGTH_def)
  have n: "\<exists>x. message_number s = Some x"
  proof -
    have "\<exists>v. rd16 (li_buffer s) 0 = Some v" "\<exists>v. rd16 (li_buffer s) 2 = Some v"
      "\<exists>v. rd16 (li_buffer s) 4 = Some v" "\<exists>v. rd16 (li_buffer s) 12 = Some v"
      "\<exists>v. rd16 (li_buffer s) 14 = Some v" "\<exists>v. rd16 (li_buffer s) 16 = Some v"
      "\<exists>v. rd16 (li_buffer s) 18 = Some v"
      by (rule rd, simp)+
    then show ?thesis by (elim exE) (simp add: message_number_def Let_def)
  qed
  obtain ns nr se where r: "rd16 (li_buffer s) 8 = Some ns" "rd16 (li_buffer s) 10 = Some nr" "rd16 (li_buffer s) 6 = Some se"
    using rd [of 8] rd [of 10] rd [of 6] by auto
  define far where "far \<longleftrightarrow> ns - remote_sequence s > 32767"
  show ?thesis using n assms
    by (elim exE) (simp add: accept_packet_def r Let_def far_def [symmetric] split: option.split)
qed

definition l2tp_step_keeps :: "mtp_env \<Rightarrow> (int \<Rightarrow> bytes) \<Rightarrow> (int, l2tp \<times> mtp) ret + l2tp \<times> mtp \<Rightarrow> bool" where
  "l2tp_step_keeps env number x \<longleftrightarrow>
     (case x of Inl r \<Rightarrow> keeps env number l2tp_ok l2tp_ok r | Inr (s, m) \<Rightarrow> l2tp_ok s \<and> sound env number m)"

lemma recv_yields:
  assumes "l2tp_ok s"
  shows "yields (\<lambda>r. l2tp_ok (fst (ret_state r)) \<and> quiet m (snd (ret_state r))) (l2tp_recv_packet env s m)"
proof -
  define m1 where "m1 = memit (M_recv (the_socket m) (int L2TP_MAX_PACKET_LENGTH)) m"
  have m1: "quiet m m1" by (simp add: m1_def quiet_memit silent_def)
  show ?thesis
  proof (cases "me_recv env (m_io m1)")
    case (R_data d)
    define e where "e = take L2TP_MAX_PACKET_LENGTH d"
    define b where "b = e @ drop (length e) (li_buffer s)"
    have e: "length e \<le> L2TP_MAX_PACKET_LENGTH" by (simp add: e_def)
    then have b: "wr_bytes (li_buffer s) 0 e = Some b" "length b = L2TP_MAX_PACKET_LENGTH"
      using assms by (simp_all add: wr_bytes_def b_def l2tp_ok_def)
    have "l2tp_ok (s\<lparr>li_buffer := b, li_length := length e\<rparr>)" using assms e b(2) by (simp add: l2tp_ok_def)
    then have "yields (\<lambda>(x, s', m'). l2tp_ok s' \<and> quiet m1 m') (accept_packet (s\<lparr>li_buffer := b, li_length := length e\<rparr>) m1)"
      by (rule accept_yields)
    then show ?thesis using R_data b m1
      by (auto simp: l2tp_recv_packet_def m1_def [symmetric] e_def [symmetric] yields_def Let_def intro: quiet_trans)
  qed (use m1 assms in \<open>simp_all add: l2tp_recv_packet_def m1_def [symmetric] Let_def\<close>)
qed

lemma on_sccrp_yields:
  assumes "l2tp_ok s" "sound env number m"
  shows "yields (l2tp_step_keeps env number) (on_sccrp md5 s m)"
proof -
  have "yields (l2tp_step_keeps env number)
    (do { s \<leftarrow> l2tp_set_message 0 L2TP_SCCCN (s\<lparr>remote_tunnel := t, l_state := L2TP_SCCCN\<rparr>);
       s \<leftarrow> answer_challenge md5 s; Some (Inr (s, m)) })" for t
    by (intro yields_bind [OF set_message_yields] yields_bind [OF answer_yields])
      (use assms in \<open>simp_all add: l2tp_step_keeps_def\<close>)
  then show ?thesis using assms
    by (auto simp: on_sccrp_def l2tp_step_keeps_def keeps_def intro!: yields_bind [OF get_u16_yields]
        yields_bind [OF verify_yields] split: prod.split if_split)
qed

lemma on_icrp_yields:
  assumes "l2tp_ok s" "sound env number m"
  shows "yields (l2tp_step_keeps env number) (on_icrp md5 session s m)"
proof -
  have "yields (l2tp_step_keeps env number)
    (do { s \<leftarrow> l2tp_set_message t L2TP_ICCN (s\<lparr>remote_session := t, l_state := L2TP_ICCN\<rparr>);
       s \<leftarrow> add_attribute_u32 CONNECT_SPEED 100000000 s;
       s \<leftarrow> add_attribute_u32 FRAMING_TYPE 3 s; Some (Inr (s, m)) })" for t
    by (rule yields_bind [OF set_message_yields], simp add: assms)
      (rule yields_bind [OF add_u32_yields], assumption, simp,
       rule yields_bind [OF add_u32_yields], assumption, simp,
       use assms in \<open>simp add: l2tp_step_keeps_def l2tp_out_ok\<close>)
  then show ?thesis using assms
    by (auto simp: on_icrp_def l2tp_step_keeps_def keeps_def intro!: yields_bind [OF get_u16_yields]
        split: prod.split if_split)
qed

lemma on_call_request_yields:
  assumes "l2tp_ok s" "sound env number m"
  shows "yields (l2tp_step_keeps env number) (on_call_request md5 session s m)"
proof -
  have "yields (l2tp_step_keeps env number)
    (do { s \<leftarrow> l2tp_set_message t L2TP_CDN s;
       s \<leftarrow> add_attribute_u32 RESULT_CODE 0x00020006 s;
       s \<leftarrow> add_attribute_u16 ASSIGNED_SESSION 0 s; Some (Inr (s, m)) })" for t
    by (rule yields_bind [OF set_message_yields], simp add: assms)
      (rule yields_bind [OF add_u32_yields], assumption, simp,
       rule yields_bind [OF add_u16_yields], assumption, simp,
       use assms in \<open>simp add: l2tp_step_keeps_def l2tp_out_ok\<close>)
  then show ?thesis using assms
    by (auto simp: on_call_request_def l2tp_step_keeps_def intro!: yields_bind [OF get_u16_yields]
        split: prod.split if_split)
qed

lemma sound_tracked: "sound env number m \<Longrightarrow> tracked env m"
  by (simp add: sound_def)

lemma on_harmless_yields:
  assumes "l2tp_ok s" "sound env number m"
  shows "yields (l2tp_step_keeps env number) (on_harmless env number s m)"
proof (cases "l_state s = L2TP_SCCCN")
  case True
  have fair: "fair env" using assms(2) by (simp add: sound_def)
  have body: "yields (l2tp_step_keeps env number)
    (do { s \<leftarrow> l2tp_set_message 0 L2TP_ICRQ (s\<lparr>local_session := n, l_state := L2TP_ICRQ\<rparr>);
       s \<leftarrow> add_attribute_u16 ASSIGNED_SESSION n s;
       let (r, m) = mrandom env m1;
       s \<leftarrow> add_attribute_raw CALL_SERIAL_NUMBER [lo8 (lo16 r), hi8 (lo16 r), lo8 (hi16 r), hi8 (hi16 r)] s;
       Some (Inr (s, m)) })" if m1: "quiet m m1" for n m1
  proof -
    obtain r m2 where r: "mrandom env m1 = (r, m2)" by (cases "mrandom env m1")
    have m2: "sound env number m2"
      using quiet_sound [OF quiet_trans [OF m1 quiet_random [OF r]] assms(2)] .
    show ?thesis
      by (rule yields_bind [OF set_message_yields], simp add: assms)
        (rule yields_bind [OF add_u16_yields], assumption, simp,
         simp add: r, rule yields_bind [OF add_raw_yields [where k' = 40]], assumption, simp, simp,
         use m2 in \<open>simp add: l2tp_step_keeps_def l2tp_out_ok\<close>)
  qed
  show ?thesis unfolding on_harmless_def if_P [OF True]
    by (rule yields_bind [OF pick16_total [OF fair]]) (auto intro: body [unfolded Let_def])
next
  case False
  define m1 where "m1 = (if li_message s = L2TP_ACK then m else send_ack s m)"
  have m1: "sound env number m1" using assms(2) quiet_sound [OF quiet_send(2) assms(2)] by (simp add: m1_def)
  define s1 where "s1 = s\<lparr>l_state := L2TP_ACK\<rparr>"
  have s1: "l2tp_ok s1" using assms(1) by (simp add: s1_def)
  note q = quiet_sound [OF l2tp_pppox_quiet [of m1 env s1] m1]
  show ?thesis
  proof (cases "l_state s = L2TP_ICCN")
    case True
    show ?thesis
    proof (cases "l2tp_create_pppox env s1 m1")
      case (Ret pppox m2)
      have m2: "sound env number m2" using q Ret by simp
      have "yields (l2tp_step_keeps env number) (do { r \<leftarrow> start_pppd env number m2 pppox;
          Some (Inl (case r of Ret _ m \<Rightarrow> Ret 0 (s1, m) | Quit code m \<Rightarrow> Quit code (s1, m) | Execed m \<Rightarrow> Execed (s1, m))) })"
        by (rule yields_bind [OF start_pppd_sound [OF m2]])
          (use s1 in \<open>auto simp: l2tp_step_keeps_def keeps_def split: ret.splits\<close>)
      then show ?thesis using False True Ret
        by (simp add: on_harmless_def m1_def [symmetric] s1_def [symmetric])
    next
      case (Quit code m2)
      then show ?thesis using False True q
        by (simp add: on_harmless_def m1_def [symmetric] s1_def [symmetric] l2tp_step_keeps_def keeps_def sound_tracked)
    qed simp
  next
    case icc: False
    then show ?thesis using False m1 assms(1)
      by (simp add: on_harmless_def m1_def [symmetric] l2tp_step_keeps_def keeps_def)
  qed
qed

lemma l2tp_dispatch_yields:
  assumes "l2tp_ok s" "sound env number m"
  shows "yields (l2tp_step_keeps env number) (l2tp_dispatch env number md5 session s m)"
  using on_sccrp_yields [OF assms] on_icrp_yields [OF assms] on_call_request_yields [OF assms]
    on_harmless_yields [OF assms] assms
  unfolding l2tp_dispatch_def Let_def
  by (simp add: l2tp_step_keeps_def keeps_def)

lemma l2tp_process_yields:
  assumes "l2tp_ok s" "sound env number m"
  shows "yields (keeps env number l2tp_ok l2tp_ok) (l2tp_process env number md5 s m)"
  unfolding l2tp_process_def Let_def
proof (rule yields_bind [OF recv_yields [OF assms(1)]], goal_cases)
  case (1 r)
  obtain s1 m1 where sm: "ret_state r = (s1, m1)" by (cases "ret_state r")
  have s1: "l2tp_ok s1" "sound env number m1" using 1 sm quiet_sound [OF _ assms(2)] by auto
  show ?case
  proof (cases r)
    case (Ret x y)
    show ?thesis
    proof (cases x)
      case None
      then show ?thesis using Ret sm s1 by (simp add: keeps_def)
    next
      case (Some session)
      have "yields (keeps env number l2tp_ok l2tp_ok)
        (case z of Inl r \<Rightarrow> Some r | Inr (s, m) \<Rightarrow>
          if seq \<noteq> local_sequence s then do { (s, m) \<leftarrow> l2tp_send_packet s m; Some (Ret TIMEOUT_INTERVAL (s, m)) }
          else Some (Ret 0 (s, send_ack s m)))" if z: "l2tp_step_keeps env number z" for z seq
      proof (cases z)
        case (Inl r)
        then show ?thesis using z by (simp add: l2tp_step_keeps_def)
      next
        case (Inr y)
        obtain s2 m2 where y: "y = (s2, m2)" by (cases y)
        then have k: "l2tp_ok s2" "sound env number m2" using z Inr by (simp_all add: l2tp_step_keeps_def)
        have "yields (keeps env number l2tp_ok l2tp_ok)
          (do { (s, m) \<leftarrow> l2tp_send_packet s2 m2; Some (Ret TIMEOUT_INTERVAL (s, m)) })"
          by (rule yields_bind [OF send_yields [OF k(1)]])
            (auto simp: keeps_def intro: quiet_sound [OF _ k(2)])
        then show ?thesis using Inr y k quiet_sound [OF quiet_send(2) k(2)] by (simp add: keeps_def)
      qed
      then show ?thesis using Ret Some sm by (simp add: yields_bind [OF l2tp_dispatch_yields [OF s1]])
    qed
  qed (use sm s1 in \<open>simp_all add: keeps_def sound_tracked\<close>)
qed

lemma l2tp_timeout_yields:
  assumes "l2tp_ok s" "sound env number m"
  shows "yields (keeps env number l2tp_ok l2tp_ok) (l2tp_timeout s m)"
proof -
  have "lo_length s \<le> length (lo_buffer s)" using assms(1) by (simp add: l2tp_ok_def)
  then show ?thesis using assms quiet_sound [OF quiet_send(1) assms(2)]
    by (simp add: l2tp_timeout_def rd_bytes_def keeps_def)
qed

lemma l2tp_shutdown_silent:
  assumes "l2tp_ok s"
  shows "\<exists>s' es. l2tp_shutdown s m = Some (s', m\<lparr>m_io := m_io m @ es\<rparr>) \<and> (\<forall>e \<in> set es. silent e)"
proof (cases "l_state s = L2TP_STOPCCN")
  case True
  then show ?thesis by (intro exI [of _ s] exI [of _ "[]"]) (simp add: l2tp_shutdown_def)
next
  case False
  have send: "yields (\<lambda>(s', m'). \<exists>d. m' = msend d m) (l2tp_send_packet s m)" if "l2tp_ok s" for s
    using send_yields [OF that, of m] by (auto simp: yields_def l2tp_send_packet_def bind_eq_Some_conv)
  have "yields (\<lambda>(s', m'). \<exists>d. m' = msend d m)
    (do { s \<leftarrow> l2tp_set_message 0 L2TP_STOPCCN s; s \<leftarrow> add_attribute_u16 ASSIGNED_TUNNEL (local_tunnel s) s;
       s \<leftarrow> add_attribute_u16 RESULT_CODE 6 s; l2tp_send_packet s m })"
    by (rule yields_bind [OF set_message_yields [OF assms]])
      (rule yields_bind [OF add_u16_yields], assumption, simp,
       rule yields_bind [OF add_u16_yields], assumption, simp, rule send, erule l2tp_out_ok)
  then obtain s' d where "l2tp_shutdown s m = Some (s', msend d m)"
    using False by (auto simp: l2tp_shutdown_def yields_def)
  then show ?thesis
    by (intro exI [of _ s'] exI [of _ "[M_send (the_socket m) d]"]) (simp add: msend_def memit_def silent_def)
qed

lemma l2tp_connect_yields:
  assumes "sound env number m" "3 \<le> length args"
  shows "yields (keeps env number l2tp_ok l2tp_ok) (l2tp_connect env l2tp_init m args)"
proof -
  obtain server port sec rest where args: "args = server # port # sec # rest"
    using assms(2) by (auto simp: numeral_eq_Suc Suc_le_length_iff)
  have fair: "fair env" using assms(1) by (simp add: sound_def)
  have init: "l2tp_ok l2tp_init" by (simp add: l2tp_init_def l2tp_ok_def)
  have send: "yields (keeps env number l2tp_ok l2tp_ok)
      (do { (s, m) \<leftarrow> l2tp_send_packet s m; Some (Ret TIMEOUT_INTERVAL (s, m)) })"
    if "l2tp_ok s" "sound env number m" for s m
    by (rule yields_bind [OF send_yields [OF that(1)]]) (auto simp: keeps_def intro: quiet_sound [OF _ that(2)])
  have challenged: "yields (keeps env number l2tp_ok l2tp_ok)
      (let m = memit (M_urandom CHALLENGE_SIZE) m in
       case me_urandom env (m_io m) of
         None \<Rightarrow> Some (Quit SYSTEM_ERROR (s, m))
       | Some ch \<Rightarrow>
           if length ch \<noteq> CHALLENGE_SIZE then Some (Quit SYSTEM_ERROR (s, m))
           else do {
             s \<leftarrow> add_attribute_raw CHALLENGE ch (s\<lparr>challenge := ch\<rparr>);
             (s, m) \<leftarrow> l2tp_send_packet (s\<lparr>secret := Some sec\<rparr>) m;
             Some (Ret TIMEOUT_INTERVAL (s, m))
           })" if s: "l2tp_out 69 s" and m: "sound env number m" for s m
  proof -
    define m1 where "m1 = memit (M_urandom CHALLENGE_SIZE) m"
    have m1: "sound env number m1"
      unfolding m1_def by (rule quiet_sound [OF quiet_memit m]) (simp add: silent_def)
    have "yields (keeps env number l2tp_ok l2tp_ok)
      (do { s \<leftarrow> add_attribute_raw CHALLENGE ch (s\<lparr>challenge := ch\<rparr>);
         (s, m) \<leftarrow> l2tp_send_packet (s\<lparr>secret := Some sec\<rparr>) m1;
         Some (Ret TIMEOUT_INTERVAL (s, m)) })" if "length ch = CHALLENGE_SIZE" for ch
      by (rule yields_bind [OF add_raw_yields [where k' = 107]], simp, rule s, simp add: that CHALLENGE_SIZE_def,
          simp add: that CHALLENGE_SIZE_def, rule send, simp, erule l2tp_out_ok, rule m1)
    then show ?thesis using m1
      by (simp add: m1_def [symmetric] keeps_def sound_tracked split: option.split)
  qed
  have body: "yields (keeps env number l2tp_ok l2tp_ok)
    (do { s \<leftarrow> l2tp_set_message 0 L2TP_SCCRQ (l2tp_init\<lparr>local_tunnel := t, l_state := L2TP_SCCRQ\<rparr>);
       s \<leftarrow> add_attribute_u16 L2TP_PROTOCOL_VERSION 0x0100 s;
       s \<leftarrow> add_attribute_raw HOST_NAME [97, 110, 111, 110, 121, 109, 111, 117, 115] s;
       s \<leftarrow> add_attribute_u32 FRAMING_CAPABILITIES 3 s;
       s \<leftarrow> add_attribute_u16 ASSIGNED_TUNNEL t s;
       s \<leftarrow> add_attribute_u16 WINDOW_SIZE 1 s;
       F s })" if "\<And>s. l2tp_out 69 s \<Longrightarrow> yields (keeps env number l2tp_ok l2tp_ok) (F s)" for t F
    by (rule yields_bind [OF set_message_yields], simp add: init)
      (rule yields_bind [OF add_u16_yields], assumption, simp,
       rule yields_bind [OF add_raw_yields [where k' = 43]], assumption, simp, simp,
       rule yields_bind [OF add_u32_yields], assumption, simp,
       rule yields_bind [OF add_u16_yields], assumption, simp,
       rule yields_bind [OF add_u16_yields], assumption, simp,
       rule that, simp)
  show ?thesis
  proof (cases "create_server_socket env m server port")
    case (Ret u m1)
    have m1: "sound env number m1"
      using quiet_sound [OF server_socket_quiet [of m env server port] assms(1)] Ret by simp
    show ?thesis unfolding l2tp_connect_def args list.case Ret ret.case
    proof (rule yields_bind [OF pick16_total [OF fair]], goal_cases)
      case (1 y)
      obtain t m2 where y: "y = (t, m2)" by (cases y)
      then have m2: "sound env number m2" using 1 quiet_sound [OF _ m1] by simp
      show ?case unfolding y prod.case
        by (rule body) (use challenged [OF _ m2] send [OF l2tp_out_ok m2] in \<open>auto simp: Let_def\<close>)
    qed
  next
    case (Quit code m1)
    then show ?thesis
      using quiet_sound [OF server_socket_quiet [of m env server port] assms(1)] args
      by (simp add: l2tp_connect_def keeps_def sound_tracked)
  qed simp
qed

section \<open>PPTP\<close>

text \<open>A message of at least a header is expected and not complete, or a new one starts.\<close>

definition pptp_ok :: "pptp \<Rightarrow> bool" where
  "pptp_ok p \<longleftrightarrow> length (in_buffer p) = 220 \<and> length (out_buffer p) = 220 \<and> 0 \<le> in_length p \<and>
     0 \<le> out_length p \<and> out_length p \<le> 220 \<and>
     (in_expect p = 0 \<or> (8 \<le> in_expect p \<and> in_length p < in_expect p))"

lemma pptp_ok_upd [simp]:
  "pptp_ok (p\<lparr>p_state := x\<rparr>) = pptp_ok p" "pptp_ok (p\<lparr>p_local := x\<rparr>) = pptp_ok p"
  "pptp_ok (p\<lparr>p_remote := x\<rparr>) = pptp_ok p"
  by (simp_all add: pptp_ok_def)

lemma pptp_message_yields:
  assumes "pptp_ok p" "unat message < 16"
  shows "yields pptp_ok (pptp_set_message message p)"
proof -
  have l: "length lengths = 16" "\<forall>n \<in> set lengths. n \<le> 220" by (simp_all add: lengths_def)
  then have n: "lengths ! unat message \<le> 220" using assms(2) nth_mem by metis
  define b0 where "b0 = replicate (lengths ! unat message) 0 @ drop (lengths ! unat message) (out_buffer p)"
  have b0: "wr_bytes (out_buffer p) 0 (replicate (lengths ! unat message) 0) = Some b0" "length b0 = 220"
    using assms(1) n by (simp_all add: wr_bytes_def b0_def pptp_ok_def)
  obtain b1 where b1: "wr16 b0 0 (of_nat (lengths ! unat message)) = Some b1" "length b1 = 220"
    using wr16_Some [of b0 0] wr16_length [of b0 0] b0(2) by fastforce
  obtain b2 where b2: "wr16 b1 2 CONTROL_MESSAGE = Some b2" "length b2 = 220"
    using wr16_Some [of b1 2] wr16_length [of b1 2] b1(2) by fastforce
  obtain b3 where b3: "wr32 b2 4 MAGIC_COOKIE = Some b3" "length b3 = 220"
    using wr32_Some [of b2 4] wr32_length [of b2 4] b2(2) by fastforce
  obtain b4 where b4: "wr16 b3 8 message = Some b4" "length b4 = 220"
    using wr16_Some [of b3 8] wr16_length [of b3 8] b3(2) by fastforce
  show ?thesis using assms l(1) b0(1) b1(1) b2(1) b3(1) b4 n
    by (simp add: pptp_set_message_def Let_def pptp_ok_def)
qed

lemma put16_yields:
  assumes "pptp_ok p" "i + 2 \<le> 220"
  shows "yields pptp_ok (put16 i v p)"
proof -
  obtain b where "wr16 (out_buffer p) i v = Some b" "length b = 220"
    using wr16_Some [of "out_buffer p" i v] wr16_length [of "out_buffer p" i v] assms by (auto simp: pptp_ok_def)
  then show ?thesis using assms by (simp add: put16_def pptp_ok_def)
qed

lemma put32_yields:
  assumes "pptp_ok p" "i + 4 \<le> 220"
  shows "yields pptp_ok (put32 i v p)"
proof -
  obtain b where "wr32 (out_buffer p) i v = Some b" "length b = 220"
    using wr32_Some [of "out_buffer p" i v] wr32_length [of "out_buffer p" i v] assms by (auto simp: pptp_ok_def)
  then show ?thesis using assms by (simp add: put32_def pptp_ok_def)
qed

lemma put_bytes_yields:
  assumes "pptp_ok p" "i + length d \<le> 220"
  shows "yields pptp_ok (put_bytes i d p)"
  using assms by (simp add: put_bytes_def wr_bytes_def pptp_ok_def)

lemma pptp_send_yields:
  assumes "pptp_ok p"
  shows "yields (quiet m) (pptp_send_packet p m)"
  using assms by (simp add: pptp_send_packet_def rd_bytes_def pptp_ok_def nat_le_iff)

definition pptp_keeps :: "mtp_env \<Rightarrow> (int \<Rightarrow> bytes) \<Rightarrow> (int, pptp \<times> mtp) ret \<Rightarrow> bool" where
  "pptp_keeps env number = keeps env number pptp_ok (\<lambda>p. True)"

lemma pptp_reply_yields:
  assumes "pptp_ok p" "sound env number m"
  shows "yields (pptp_keeps env number) (do { m \<leftarrow> pptp_send_packet p m; Some (Ret 0 (p, m)) })"
  by (rule yields_bind [OF pptp_send_yields [OF assms(1)]])
    (use assms(1) quiet_sound [OF _ assms(2)] in \<open>simp add: pptp_keeps_def keeps_def\<close>)

lemma recv_data_yields:
  assumes "pptp_ok p" "in_expect p \<noteq> 0" "length d \<le> nat (recv_request p)"
  shows "yields (\<lambda>(r, p'). (0 \<le> r \<longrightarrow> pptp_ok p') \<and> length (in_buffer p') = 220) (recv_data p d)"
proof -
  have e: "8 \<le> in_expect p" "in_length p < in_expect p" "0 \<le> in_length p" "length (in_buffer p) = 220"
    using assms(1,2) by (auto simp: pptp_ok_def)
  have fit: "in_length p + int (length d) \<le> in_expect p"
    "in_length p < 220 \<Longrightarrow> in_length p + int (length d) \<le> 220"
    using assms(3) e by (auto simp: recv_request_def PPTP_MAX_PACKET_LENGTH_def split: if_split_asm)
  obtain b where b: "(if PPTP_MAX_PACKET_LENGTH \<le> in_length p then Some (in_buffer p)
      else wr_bytes (in_buffer p) (nat (in_length p)) d) = Some b" "length b = 220"
  proof (cases "in_length p < 220")
    case True
    then have "nat (in_length p) + length d \<le> 220" using fit(2) e(3) by linarith
    then show ?thesis using that True e(4) by (simp add: PPTP_MAX_PACKET_LENGTH_def wr_bytes_def)
  next
    case False
    then show ?thesis using that e(4) by (simp add: PPTP_MAX_PACKET_LENGTH_def)
  qed
  have rd: "\<exists>v. rd32 b 4 = Some v" "\<exists>v. rd16 b 0 = Some v" "\<exists>v. rd16 b 2 = Some v"
    using b(2) by (simp_all add: rd32_def rd16_def)
  define q where "q = p\<lparr>in_buffer := b, in_length := in_length p + int (length d)\<rparr>"
  have q: "length (in_buffer q) = 220" "in_buffer q = b" "in_expect q = in_expect p"
    "in_length q = in_length p + int (length d)" "out_buffer q = out_buffer p" "out_length q = out_length p"
    using b(2) by (simp_all add: q_def)
  have o: "length (out_buffer p) = 220" "0 \<le> out_length p" "out_length p \<le> 220"
    using assms(1) by (simp_all add: pptp_ok_def)
  have "yields (\<lambda>(err, p'). in_buffer p' = b \<and> (err \<or> (8 \<le> in_expect p' \<and> in_length p' \<le> in_expect p' \<and>
      0 \<le> in_length p' \<and> out_buffer p' = out_buffer p \<and> out_length p' = out_length p))) (recv_header q)"
    using rd e fit(1) by (elim exE) (auto simp: recv_header_def q HEADER_SIZE_def)
  then have "yields (\<lambda>(r, p'). (0 \<le> r \<longrightarrow> pptp_ok p') \<and> length (in_buffer p') = 220)
      (do { (err, p) \<leftarrow> recv_header q; if err then Some (- PROTOCOL_ERROR, p) else recv_complete p })"
    by (rule yields_bind)
      (use rd(3) b(2) o in \<open>auto simp: recv_complete_def pptp_ok_def exit_codes\<close>)
  then show ?thesis using b by (simp add: recv_data_def q_def exit_codes)
qed

lemma pptp_recv_yields:
  assumes "pptp_ok p"
  shows "yields (\<lambda>r. quiet m (snd (ret_state r)) \<and> length (in_buffer (fst (ret_state r))) = 220 \<and>
    (case r of Ret t (p', m') \<Rightarrow> 0 \<le> t \<longrightarrow> pptp_ok p' | Quit code x \<Rightarrow> True | Execed x \<Rightarrow> True)) (pptp_recv_packet env p m)"
proof -
  define q where "q = recv_start p"
  have q: "pptp_ok q" "in_expect q \<noteq> 0" using assms
    by (auto simp: q_def recv_start_def pptp_ok_def HEADER_SIZE_def)
  define m1 where "m1 = memit (M_recv (the_socket m) (recv_request q)) m"
  have m1: "quiet m m1" by (simp add: m1_def quiet_memit silent_def)
  have l: "length (in_buffer q) = 220" using q(1) by (simp add: pptp_ok_def)
  have recv: "pptp_recv_packet env p m =
      (case me_recv env (m_io m1) of
        R_eintr \<Rightarrow> Some (Ret 0 (q, m1))
      | R_error \<Rightarrow> Some (Quit NETWORK_ERROR (q, m1))
      | R_data d \<Rightarrow> map_option (\<lambda>(r, p). Ret r (p, m1)) (recv_data q (take (nat (recv_request q)) d)))"
    by (simp only: pptp_recv_packet_def q_def m1_def Let_def)
  show ?thesis
  proof (cases "me_recv env (m_io m1)")
    case (R_data d)
    have "yields (\<lambda>(r, p'). (0 \<le> r \<longrightarrow> pptp_ok p') \<and> length (in_buffer p') = 220)
        (recv_data q (take (nat (recv_request q)) d))"
      by (rule recv_data_yields [OF q]) simp
    then show ?thesis using R_data m1 by (auto simp: recv yields_def)
  qed (use m1 q l in \<open>simp_all add: recv\<close>)
qed

lemma pptp_ocrq_yields:
  assumes "pptp_ok p" "sound env number m"
  shows "yields (pptp_keeps env number) (do {
      (lo, m) \<leftarrow> pick16 env (p_local p) m;
      p \<leftarrow> pptp_set_message PPTP_OCRQ (p\<lparr>p_local := lo, p_state := PPTP_OCRQ\<rparr>);
      p \<leftarrow> put16 12 lo p;
      let (r, m) = mrandom env m;
      p \<leftarrow> put16 14 (bswap16 (ucast r)) p;
      p \<leftarrow> put32 16 1000 p;
      p \<leftarrow> put32 20 100000000 p;
      p \<leftarrow> put32 24 3 p;
      p \<leftarrow> put32 28 3 p;
      p \<leftarrow> put16 32 8192 p;
      m \<leftarrow> pptp_send_packet p m;
      Some (Ret 0 (p, m)) })"
proof -
  have fair: "fair env" using assms(2) by (simp add: sound_def)
  have rest: "yields (pptp_keeps env number) (do {
      p \<leftarrow> put16 14 v p;
      p \<leftarrow> put32 16 1000 p;
      p \<leftarrow> put32 20 100000000 p;
      p \<leftarrow> put32 24 3 p;
      p \<leftarrow> put32 28 3 p;
      p \<leftarrow> put16 32 8192 p;
      m \<leftarrow> pptp_send_packet p m;
      Some (Ret 0 (p, m)) })" if "pptp_ok p" "sound env number m" for p m v
    by (rule yields_bind [OF put16_yields [OF that(1)]], simp)
      (rule yields_bind [OF put32_yields], assumption, simp,
       rule yields_bind [OF put32_yields], assumption, simp,
       rule yields_bind [OF put32_yields], assumption, simp,
       rule yields_bind [OF put32_yields], assumption, simp,
       rule yields_bind [OF put16_yields], assumption, simp,
       erule pptp_reply_yields, rule that(2))
  show ?thesis
  proof (rule yields_bind [OF pick16_total [OF fair]], goal_cases)
    case (1 y)
    obtain lo m1 where y: "y = (lo, m1)" by (cases y)
    obtain r m2 where r: "mrandom env m1 = (r, m2)" by (cases "mrandom env m1")
    have m2: "sound env number m2"
      using quiet_sound [OF quiet_trans [OF _ quiet_random [OF r]] assms(2)] 1 y by simp
    show ?case unfolding y prod.case r Let_def
      by (rule yields_bind [OF pptp_message_yields], simp add: assms, simp add: PPTP_OCRQ_def)
        (rule yields_bind [OF put16_yields], assumption, simp, erule rest, rule m2)
  qed
qed

lemma pptp_answer_yields:
  assumes "pptp_ok p" "sound env number m" "unat message < 16" "i + 2 \<le> 220" "k + length d \<le> 220"
  shows "yields (pptp_keeps env number) (do { p \<leftarrow> pptp_set_message message p; p \<leftarrow> put16 i v p;
      p \<leftarrow> put_bytes k d p; m \<leftarrow> pptp_send_packet p m; Some (Ret 0 (p, m)) })"
  by (rule yields_bind [OF pptp_message_yields [OF assms(1,3)]])
    (rule yields_bind [OF put16_yields], assumption, rule assms,
     rule yields_bind [OF put_bytes_yields], assumption, rule assms,
     erule pptp_reply_yields, rule assms)

lemma pptp_echo_yields:
  assumes "pptp_ok p" "sound env number m"
  shows "yields (pptp_keeps env number) (do { p \<leftarrow> pptp_set_message PPTP_ECHORP p; p \<leftarrow> put32 12 v p;
      p \<leftarrow> put_bytes 16 [RESULT_OK] p; m \<leftarrow> pptp_send_packet p m; Some (Ret 0 (p, m)) })"
  by (rule yields_bind [OF pptp_message_yields [OF assms(1)]], simp add: PPTP_ECHORP_def)
    (rule yields_bind [OF put32_yields], assumption, simp,
     rule yields_bind [OF put_bytes_yields], assumption, simp,
     erule pptp_reply_yields, rule assms)

lemma pptp_session_yields:
  assumes "pptp_ok p" "sound env number m"
  shows "yields (pptp_keeps env number) (case pptp_create_pppox env p m of
      Quit code m \<Rightarrow> Some (Quit code (p, m))
    | Execed m \<Rightarrow> Some (Execed (p, m))
    | Ret pppox m \<Rightarrow> do {
        r \<leftarrow> start_pppd env number m pppox;
        Some (case r of Ret _ m \<Rightarrow> Ret 0 (p, m) | Quit code m \<Rightarrow> Quit code (p, m) | Execed m \<Rightarrow> Execed (p, m))
      })"
proof (cases "pptp_create_pppox env p m")
  case (Ret pppox m1)
  have m1: "sound env number m1"
    using quiet_sound [OF pptp_pppox_quiet [of m env p] assms(2)] Ret by simp
  have "yields (pptp_keeps env number) (do { r \<leftarrow> start_pppd env number m1 pppox;
      Some (case r of Ret _ m \<Rightarrow> Ret 0 (p, m) | Quit code m \<Rightarrow> Quit code (p, m) | Execed m \<Rightarrow> Execed (p, m)) })"
    by (rule yields_bind [OF start_pppd_sound [OF m1]])
      (use assms(1) in \<open>auto simp: pptp_keeps_def keeps_def split: ret.splits\<close>)
  then show ?thesis using Ret by simp
next
  case (Quit code m1)
  then show ?thesis using quiet_sound [OF pptp_pppox_quiet [of m env p] assms(2)]
    by (simp add: pptp_keeps_def keeps_def sound_tracked)
qed simp

lemma pptp_dispatch_yields:
  assumes "pptp_ok p" "sound env number m"
  shows "yields (pptp_keeps env number) (pptp_dispatch env number message p m)"
proof -
  have l: "length (in_buffer p) = 220" using assms(1) by (simp add: pptp_ok_def)
  have rd: "rd16 (in_buffer p) i = Some (be16 (in_buffer p ! i) (in_buffer p ! (i + 1)))" if "i + 2 \<le> 220" for i
    using l that by (simp add: rd16_def)
  have rd8: "rd8 (in_buffer p) i = Some (in_buffer p ! i)" if "i < 220" for i
    using l that by (simp add: rd8_def)
  obtain v where rd32: "rd32 (in_buffer p) 12 = Some v" using l by (simp add: rd32_def)
  have k: "pptp_keeps env number (Ret t (q, m))" if "pptp_ok q" for t q
    using that assms(2) by (simp add: pptp_keeps_def keeps_def)
  have n: "unat PPTP_ICRP < 16" "unat PPTP_OCRP < 16" by (simp_all add: PPTP_ICRP_def PPTP_OCRP_def)
  have answer: "yields (pptp_keeps env number) (do { p \<leftarrow> pptp_set_message message p; p \<leftarrow> put16 14 c p;
      p \<leftarrow> put_bytes 16 [RESULT_ERROR] p; m \<leftarrow> pptp_send_packet p m; Some (Ret 0 (p, m)) })"
    if "unat message < 16" for message c
    by (rule pptp_answer_yields) (use assms that in simp_all)
  note session = pptp_session_yields [OF _ assms(2)]
  show ?thesis
    using assms(1) pptp_ocrq_yields [OF assms] pptp_echo_yields [OF assms, of v] answer n k session
    unfolding pptp_dispatch_def
    by (simp add: rd rd8 rd32 Let_def)
qed

lemma pptp_process_yields:
  assumes "pptp_ok p" "sound env number m"
  shows "yields (pptp_keeps env number) (pptp_process env number p m)"
  unfolding pptp_process_def
proof (rule yields_bind [OF pptp_recv_yields [OF assms(1)]], goal_cases)
  case (1 r)
  obtain p1 m1 where pm: "ret_state r = (p1, m1)" by (cases "ret_state r")
  have m1: "sound env number m1" and b: "length (in_buffer p1) = 220"
    using 1 pm quiet_sound [OF _ assms(2)] by auto
  show ?case
  proof (cases r)
    case (Ret t x)
    have x: "x = (p1, m1)" using pm Ret by simp
    have ok: "0 \<le> t \<Longrightarrow> pptp_ok p1" using 1 Ret x by simp
    show ?thesis
    proof (cases "t \<le> 0 \<or> in_length p1 < MIN_MESSAGE_SIZE")
      case True
      then show ?thesis using Ret x m1 ok by (auto simp: pptp_keeps_def keeps_def)
    next
      case False
      obtain message where message: "rd16 (in_buffer p1) 8 = Some message" using b by (simp add: rd16_def)
      obtain b2 where b2: "wr16 (in_buffer p1) 8 (bswap16 message) = Some b2" "length b2 = 220"
        using wr16_Some [of "in_buffer p1" 8 "bswap16 message"] wr16_length [of "in_buffer p1" 8] b by fastforce
      have p2: "pptp_ok (p1\<lparr>in_buffer := b2\<rparr>)" using ok False b2(2) by (simp add: pptp_ok_def)
      show ?thesis using Ret x False message b2(1) p2 m1 pptp_dispatch_yields [OF p2 m1]
        by (auto simp: pptp_keeps_def keeps_def Let_def)
    qed
  qed (use pm m1 in \<open>simp_all add: pptp_keeps_def keeps_def sound_tracked\<close>)
qed

lemma pptp_connect_yields:
  assumes "sound env number m" "2 \<le> length args"
  shows "yields (pptp_keeps env number) (pptp_connect env pptp_init m args)"
proof -
  obtain server port rest where args: "args = server # port # rest"
    using assms(2) by (auto simp: numeral_eq_Suc Suc_le_length_iff)
  show ?thesis
  proof (cases "create_server_socket env m server port")
    case (Ret u m1)
    have m1: "sound env number m1"
      using quiet_sound [OF server_socket_quiet [of m env server port] assms(1)] Ret by simp
    have init: "pptp_ok (pptp_init\<lparr>p_state := PPTP_SCCRQ\<rparr>)" by (simp add: pptp_init_def pptp_ok_def)
    show ?thesis unfolding pptp_connect_def args list.case Ret ret.case
      by (rule yields_bind [OF pptp_message_yields [OF init]], simp add: PPTP_SCCRQ_def)
        (rule yields_bind [OF put16_yields], assumption, simp,
         rule yields_bind [OF put32_yields], assumption, simp,
         rule yields_bind [OF put32_yields], assumption, simp,
         rule yields_bind [OF put16_yields], assumption, simp,
         rule yields_bind [OF put_bytes_yields], assumption, simp,
         erule pptp_reply_yields, rule m1)
  next
    case (Quit code m1)
    then show ?thesis
      using quiet_sound [OF server_socket_quiet [of m env server port] assms(1)] args
      by (simp add: pptp_connect_def pptp_keeps_def keeps_def sound_tracked)
  qed simp
qed

section \<open>Both protocols fulfil the contract\<close>

interpretation l2tp_client:
  protocol_client env number "l2tp_protocol env number md5" l2tp_init l2tp_ok l2tp_ok for env number md5
proof (unfold_locales, goal_cases)
  case (1 m args)
  then show ?case using l2tp_connect_yields [of env number m args] by (simp add: l2tp_protocol_def yields_def)
next
  case (2 m s)
  then show ?case using l2tp_process_yields [of s env number m md5] by (simp add: l2tp_protocol_def yields_def)
next
  case (3 m s)
  then show ?case using l2tp_timeout_yields [of s env number m] by (simp add: l2tp_protocol_def yields_def)
next
  case (4 s m)
  then show ?case using l2tp_shutdown_silent [of s m] by (simp add: l2tp_protocol_def)
qed

interpretation pptp_client:
  protocol_client env number "pptp_protocol env number" pptp_init pptp_ok "\<lambda>p. True" for env number
proof (unfold_locales, goal_cases)
  case (1 m args)
  then show ?case using pptp_connect_yields [of env number m args]
    by (simp add: pptp_protocol_def yields_def pptp_keeps_def)
next
  case (2 m s)
  then show ?case using pptp_process_yields [of s env number m]
    by (simp add: pptp_protocol_def yields_def pptp_keeps_def)
next
  case (3 m s)
  then show ?case by (simp add: pptp_protocol_def pptp_timeout_def keeps_def)
next
  case (4 s m)
  show ?case by (intro exI [of _ s] exI [of _ "[]"]) (simp add: pptp_protocol_def pptp_shutdown_def)
qed

section \<open>The daemon\<close>



lemma sample_sound: "sound sample_env (\<lambda>n. [48]) mtp_init"
proof -
  have "fair sample_env" unfolding fair_def by (simp add: sample_env_def bswap16_def be16_def lo8_def hi8_def)
  moreover have "args_fit (\<lambda>n. [48]) mtp_init"
    by (simp add: args_fit_def mtp_init_def encode_args_length PPPD_def)
  moreover have "tracked sample_env mtp_init" by (simp add: tracked_def children_def mtp_init_def)
  ultimately show ?thesis by (simp add: sound_def)
qed



section \<open>The control socket\<close>

lemma control_tries_io:
  "control_tries n control path m = (0, m\<lparr>m_io := m_io m @ replicate n (M_connect control path)\<rparr>)"
  by (induction n arbitrary: m) (simp_all add: memit_def)

text \<open>C40: the daemon as it is built never gets past its control socket. The loop that connects has
  no exit on success, so after five calls of \<open>connect\<close>, successful or not, the daemon ends with
  \<open>SYSTEM_ERROR\<close>, before it has read an argument. It goes on only if the socket cannot even
  be created; then the arguments of the command line are used instead.\<close>

theorem mtpd_never_connects:
  assumes "length path < 108" "me_socket env [M_socket] \<noteq> - 1"
  shows "mtpd_main env number md5 revents (prog # path # rest) mtp_init =
    Some (Quit SYSTEM_ERROR (mtp_init\<lparr>m_io := M_socket # replicate 5 (M_connect (me_socket env [M_socket]) path)\<rparr>))"
  using assms
  by (simp add: mtpd_main_def ocpa_get_control_and_arguments_def control_tries_io Let_def mtp_init_def memit_def)

theorem mtpd_never_connects_witness:
  "mtpd_main sample_env (\<lambda>n. [48]) sample_md5 (False, False, False) [[109], [47, 115]] mtp_init =
    Some (Quit SYSTEM_ERROR (mtp_init\<lparr>m_io := M_socket # replicate 5 (M_connect 3 [47, 115])\<rparr>))"
  using mtpd_never_connects [of "[47, 115]" sample_env "\<lambda>n. [48]" sample_md5 "(False, False, False)" "[109]" "[]"]
  by (simp add: sample_env_def)

end
