(* ===== verification/CharonBase.thy ===== *)
theory CharonBase
  imports RouterLoop Refs
begin

text \<open>
  The IPsec client runs strongSwan's IKE daemon inside the process. This theory has the
  state that \<open>strongswan.c\<close>, \<open>backend/\<close> and \<open>kernel/\<close> share with the daemon, the calls they make, and the
  methods of \<open>charonservice\<close> that go to Java. The single instance \<open>charonservice\<close> is \<open>None\<close> while
  the pointer is \<open>NULL\<close>; a service is an address in a heap, because jobs, listeners and callbacks
  keep pointers to it. The slots of the library that the code registers itself in (the
  listeners of the bus, the callbacks of the receiver and of the ESP processor, the job
  queue, the credential sets) are fields. Everything else that the library, Java or the
  system answers comes from the environment, as a function of the events so far.

  strongSwan's \<open>INIT\<close> does not test \<open>malloc\<close>, so allocations are taken to succeed. A
  handler runs without interruption; a read-write lock counts its readers, and taking it
  twice in conflict is a fault.
\<close>

section \<open>Hosts, states and locks\<close>

text \<open>A \<open>host_t\<close> of one of the two families; ports play no part here.\<close>

datatype host = Host4 u32 | Host6 bytes

definition is_anyaddr :: "host \<Rightarrow> bool" where
  "is_anyaddr h = (case h of Host4 a \<Rightarrow> a = 0 | Host6 b \<Rightarrow> b = replicate 16 0)"

definition host_is_inet :: "host \<Rightarrow> bool" where
  "host_is_inet h = (case h of Host4 a \<Rightarrow> True | Host6 b \<Rightarrow> False)"

definition INET6_ADDRSTRLEN :: nat where "INET6_ADDRSTRLEN = 46"

datatype vpn_state =
    CHILD_STATE_UP
  | CHILD_STATE_DOWN
  | AUTH_ERROR
  | PEER_AUTH_ERROR
  | LOOKUP_ERROR
  | UNREACHABLE_ERROR
  | GENERIC_ERROR

definition status_code :: "vpn_state \<Rightarrow> int" where
  "status_code c = (case c of CHILD_STATE_UP \<Rightarrow> 1 | CHILD_STATE_DOWN \<Rightarrow> 2 | AUTH_ERROR \<Rightarrow> 3
     | PEER_AUTH_ERROR \<Rightarrow> 4 | LOOKUP_ERROR \<Rightarrow> 5 | UNREACHABLE_ERROR \<Rightarrow> 6 | GENERIC_ERROR \<Rightarrow> 7)"

datatype alert = PEER_ADDR_FAILED | PEER_AUTH_FAILED | PEER_INIT_UNREACHABLE | OTHER_ALERT

record rwlock =
  rl_readers :: nat
  rl_writer :: bool

definition rwlock_free :: rwlock where
  "rwlock_free = \<lparr>rl_readers = 0, rl_writer = False\<rparr>"

definition read_lock :: "rwlock \<Rightarrow> rwlock option" where
  "read_lock l = (if rl_writer l then None else Some (l\<lparr>rl_readers := rl_readers l + 1\<rparr>))"

definition write_lock :: "rwlock \<Rightarrow> rwlock option" where
  "write_lock l = (if rl_writer l \<or> rl_readers l \<noteq> 0 then None else Some (l\<lparr>rl_writer := True\<rparr>))"

definition rw_unlock :: "rwlock \<Rightarrow> rwlock option" where
  "rw_unlock l = (if rl_writer l then Some (l\<lparr>rl_writer := False\<rparr>)
     else if rl_readers l = 0 then None else Some (l\<lparr>rl_readers := rl_readers l - 1\<rparr>))"

lemma rwlock_simps [simp]:
  "read_lock rwlock_free = Some (rwlock_free\<lparr>rl_readers := Suc 0\<rparr>)"
  "write_lock rwlock_free = Some (rwlock_free\<lparr>rl_writer := True\<rparr>)"
  "rw_unlock (rwlock_free\<lparr>rl_readers := Suc 0\<rparr>) = Some rwlock_free"
  "rw_unlock (rwlock_free\<lparr>rl_writer := True\<rparr>) = Some rwlock_free"
  by (simp_all add: rwlock_free_def read_lock_def write_lock_def rw_unlock_def)

section \<open>The structs\<close>

text \<open>A private key keeps two global references of the JVM. \<open>pk_pubkey\<close> is the encoding of its
  public key.\<close>

record private_key =
  pk_key :: nat
  pk_class :: nat
  pk_pubkey :: bytes
  pk_ref :: nat

text \<open>strongSwan's in-memory set and \<open>private_android_creds_t\<close>. A certificate is its DER
  encoding. \<open>trusted\<close> holds some of the certificates of \<open>untrusted\<close>.\<close>

record mem_cred =
  mc_trusted :: "bytes list"
  mc_untrusted :: "bytes list"
  mc_keys :: "private_key list"
  mc_shared :: "(string \<times> string) list"

record android_creds =
  ac_creds :: mem_cred
  ac_lock :: rwlock
  ac_loaded :: bool

text \<open>\<open>private_android_service_t\<close>. \<open>sv_hook\<close> says whether \<open>listener.ike_updown\<close> is set; an IKE SA is
  an address. A C string is \<open>None\<close> for \<open>NULL\<close>, and otherwise all characters of its allocation
  before the last.\<close>

record android_service =
  sv_hook :: bool
  sv_ike_sa :: nat
  sv_type :: "string option"
  sv_gateway :: "string option"
  sv_username :: "string option"
  sv_password :: "string option"
  sv_lock :: rwlock
  sv_tunfd :: int

text \<open>\<open>private_charonservice_t\<close>. \<open>cs_connectivity\<close> says whether the network manager has its
  callback; its data is the object in \<open>cs_net\<close>, the time before which no roaming is scheduled.\<close>

record charonservice =
  cs_creds :: android_creds
  cs_service :: nat
  cs_connectivity :: bool
  cs_net :: "(int \<times> int) option"
  cs_jtunnel :: nat
  cs_sockets :: "int list"
  cs_tunnel_ctx :: nat

section \<open>Events, state and environment\<close>

datatype jarg = Jint int | Jstr string | Jbytes bytes | Jref nat | Jnull

datatype auth_rule = Auth_class string | Eap_ttls | Identity string | Subject_cert bytes
  | Xauth_identity string | Identity_loose

text \<open>The configuration of a connection, without what is the same for every one (lifetimes, retries,
  actions, the proposal).\<close>

record peer_cfg =
  pc_ports :: "int \<times> int"
  pc_gateway :: string
  pc_vips :: "host list"
  pc_auth :: "(auth_rule list \<times> bool) list"
  pc_selectors :: "(string \<times> bool) list"

datatype cev =
    Java_method string
  | Java_string string
  | Java_call string "jarg list"
  | Java_ref nat
  | Java_unref nat
  | Monotonic
  | Set_option string string
  | Free_string string
  | Add_handler
  | Remove_handler
  | Virtual_ips nat
  | Policies nat
  | Reauthenticating nat
  | Get_port
  | Checkout peer_cfg
  | Get_peer_cfg nat
  | Set_peer_cfg nat
  | Peer_cfg_destroy
  | Sa_initiate nat
  | Checkin nat
  | Checkin_and_destroy nat
  | Select int
  | Read_tun int nat
  | Write_tun int bytes
  | Close_tun int
  | Queue_inbound bytes
  | Queue_outbound bytes
  | Send_no_marker bytes
  | Destroy_packet
  | Schedule_roam
  | Roam
  | Init_library string
  | Deinit_library string
  | Load_loggers
  | Load_plugins
  | Start
  | Flush_sas

text \<open>The messages of the bus; an event of an IKE SA that goes down names its CHILD SAs.\<close>

datatype bus_event =
    Child_updown nat nat bool
  | Ike_updown nat bool "nat list"
  | Alert nat alert
  | Ike_rekey nat nat
  | Ike_reestablish nat nat

text \<open>A job of the processor. \<open>Plain_wait\<close> is \<open>handle_plain\<close> after it has released the lock, with the
  descriptor it read.\<close>

datatype job = Initiate nat | Handle_plain nat | Plain_wait nat int | Roam_event

datatype cred_set = Creds_set | Mem_set

record charon =
  c_world :: world
  c_lib :: nat
  c_hydra :: nat
  c_ipsec :: bool
  c_daemon :: nat
  c_cs :: "charonservice option"
  c_registered :: bool
  c_services :: "nat \<Rightarrow> android_service option"
  c_next :: nat
  c_listeners :: "nat list"
  c_esp_cb :: bool
  c_inbound :: "nat option"
  c_outbound :: bool
  c_jobs :: "job list"
  c_timers :: "(int \<times> int) list"
  c_sets :: "cred_set list"
  c_io :: "cev list"

datatype select_result = Select_bad_fd | Select_failed | Select_timeout | Select_ready

text \<open>\<open>ce_ntop\<close> is \<open>inet_ntop\<close>, \<open>ce_x509\<close> parses a certificate, \<open>ce_pubkey\<close> is the public key of one and
  \<open>ce_id_any\<close> tells whether an identity parses to \<open>ID_ANY\<close>. \<open>ce_ip_packet\<close> says whether \<open>ip_packet_create\<close>
  accepts a packet. An array of byte arrays may hold a \<open>null\<close>. \<open>ce_initiate\<close>, \<open>ce_dropped\<close> and
  \<open>ce_flushed\<close> give the messages of the bus while an SA is initiated, dropped, or all are flushed.
  \<open>ce_jelly_bean\<close> is the test of the SDK version.\<close>

record cenv =
  ce_method :: "cev list \<Rightarrow> bool"
  ce_newstr :: "cev list \<Rightarrow> bool"
  ce_bool :: "cev list \<Rightarrow> bool"
  ce_exception :: "cev list \<Rightarrow> bool"
  ce_array :: "cev list \<Rightarrow> bytes option list option"
  ce_object :: "cev list \<Rightarrow> nat option"
  ce_string :: "cev list \<Rightarrow> string option"
  ce_bytes :: "cev list \<Rightarrow> bytes option"
  ce_handle :: "cev list \<Rightarrow> nat"
  ce_ntop :: "host \<Rightarrow> string"
  ce_x509 :: "bytes \<Rightarrow> bool"
  ce_pubkey :: "bytes \<Rightarrow> bytes option"
  ce_subject :: "bytes \<Rightarrow> string"
  ce_id_any :: "string \<Rightarrow> bool"
  ce_ip_packet :: "bytes \<Rightarrow> bool"
  ce_time :: "cev list \<Rightarrow> int \<times> int"
  ce_vips :: "cev list \<Rightarrow> host list"
  ce_policies :: "cev list \<Rightarrow> (host \<times> nat) list"
  ce_reauth :: "cev list \<Rightarrow> bool"
  ce_port :: "cev list \<Rightarrow> int"
  ce_checkout :: "cev list \<Rightarrow> nat"
  ce_has_cfg :: "cev list \<Rightarrow> bool"
  ce_initiate :: "cev list \<Rightarrow> bus_event list \<times> bool"
  ce_dropped :: "cev list \<Rightarrow> bus_event list"
  ce_flushed :: "cev list \<Rightarrow> bus_event list"
  ce_select :: "cev list \<Rightarrow> select_result"
  ce_read :: "cev list \<Rightarrow> bytes option"
  ce_init :: "cev list \<Rightarrow> bool"
  ce_load :: "cev list \<Rightarrow> bool \<times> bool"
  ce_jelly_bean :: bool

definition cemit :: "cev \<Rightarrow> charon \<Rightarrow> charon" where
  "cemit e s = s\<lparr>c_io := c_io s @ [e]\<rparr>"

lemma cemit_simps [simp]:
  "c_world (cemit e s) = c_world s" "c_lib (cemit e s) = c_lib s" "c_hydra (cemit e s) = c_hydra s"
  "c_ipsec (cemit e s) = c_ipsec s" "c_daemon (cemit e s) = c_daemon s" "c_cs (cemit e s) = c_cs s"
  "c_registered (cemit e s) = c_registered s" "c_services (cemit e s) = c_services s"
  "c_next (cemit e s) = c_next s" "c_listeners (cemit e s) = c_listeners s"
  "c_esp_cb (cemit e s) = c_esp_cb s" "c_inbound (cemit e s) = c_inbound s"
  "c_outbound (cemit e s) = c_outbound s" "c_jobs (cemit e s) = c_jobs s"
  "c_timers (cemit e s) = c_timers s" "c_sets (cemit e s) = c_sets s"
  "c_io (cemit e s) = c_io s @ [e]"
  by (simp_all add: cemit_def)

definition set_cs :: "charonservice \<Rightarrow> charon \<Rightarrow> charon" where
  "set_cs c s = s\<lparr>c_cs := Some c\<rparr>"

definition get_service :: "charon \<Rightarrow> nat \<Rightarrow> android_service option" where
  "get_service s a = (if a = 0 then None else c_services s a)"

definition set_service :: "nat \<Rightarrow> android_service \<Rightarrow> charon \<Rightarrow> charon" where
  "set_service a v s = s\<lparr>c_services := (c_services s)(a \<mapsto> v)\<rparr>"

section \<open>Calls to Java\<close>

definition get_method :: "cenv \<Rightarrow> string \<Rightarrow> charon \<Rightarrow> bool \<times> charon" where
  "get_method env name s = (let s = cemit (Java_method name) s in (ce_method env (c_io s), s))"

definition new_string :: "cenv \<Rightarrow> string \<Rightarrow> charon \<Rightarrow> bool \<times> charon" where
  "new_string env t s = (let s = cemit (Java_string t) s in (ce_newstr env (c_io s), s))"

text \<open>A new global reference.\<close>

definition new_ref :: "cenv \<Rightarrow> charon \<Rightarrow> nat \<times> charon" where
  "new_ref env s = (let h = ce_handle env (c_io s) in (h, cemit (Java_ref h) s))"

text \<open>The printf hook for \<open>%H\<close> and, with \<open>full\<close>, for \<open>%+H\<close>.\<close>

definition host_text :: "cenv \<Rightarrow> bool \<Rightarrow> host \<Rightarrow> string" where
  "host_text env full h = (if is_anyaddr h \<and> \<not> full
     then (if host_is_inet h then ''%any'' else ''%any6'') else ce_ntop env h)"

section \<open>The methods of charonservice\<close>

definition update_status :: "cenv \<Rightarrow> vpn_state \<Rightarrow> charon \<Rightarrow> (bool \<times> charon) option" where
  "update_status env code s = do {
     cs \<leftarrow> c_cs s;
     let (m, s) = get_method env ''updateStatus'' s;
     if \<not> m then Some (False, s)
     else let s = cemit (Java_call ''updateStatus'' [Jint (status_code code)]) s
          in Some (\<not> ce_exception env (c_io s), s)
   }"

text \<open>The two methods that only the byod plugin calls, which the build leaves out.\<close>

datatype imc_state = IMC_STATE_UNKNOWN | IMC_STATE_ALLOW | IMC_STATE_BLOCK | IMC_STATE_ISOLATE

definition imc_code :: "imc_state \<Rightarrow> int" where
  "imc_code c = (case c of IMC_STATE_UNKNOWN \<Rightarrow> 0 | IMC_STATE_ALLOW \<Rightarrow> 1 | IMC_STATE_BLOCK \<Rightarrow> 2
     | IMC_STATE_ISOLATE \<Rightarrow> 3)"

definition update_imc_state :: "cenv \<Rightarrow> imc_state \<Rightarrow> charon \<Rightarrow> (bool \<times> charon) option" where
  "update_imc_state env state s = do {
     cs \<leftarrow> c_cs s;
     let (m, s) = get_method env ''updateImcState'' s;
     if \<not> m then Some (False, s)
     else let s = cemit (Java_call ''updateImcState'' [Jint (imc_code state)]) s
          in Some (\<not> ce_exception env (c_io s), s)
   }"

definition add_remediation_instr :: "cenv \<Rightarrow> string \<Rightarrow> charon \<Rightarrow> (bool \<times> charon) option" where
  "add_remediation_instr env instr s = do {
     cs \<leftarrow> c_cs s;
     let (m, s) = get_method env ''addRemediationInstruction'' s;
     if \<not> m then Some (False, s)
     else let (str, s) = new_string env instr s in
       if \<not> str then Some (False, s)
       else let s = cemit (Java_call ''addRemediationInstruction'' [Jstr instr]) s
            in Some (\<not> ce_exception env (c_io s), s)
   }"

text \<open>\<open>bypass_single_socket\<close> and \<open>bypass_socket\<close>; the library's \<open>invoke_function\<close> calls it for every
  element of the list.\<close>

definition bypass_single_socket :: "cenv \<Rightarrow> int \<Rightarrow> charon \<Rightarrow> bool \<times> charon" where
  "bypass_single_socket env fd s =
     (let (m, s) = get_method env ''protectSocket'' s in
      if \<not> m then (False, s)
      else let s = cemit (Java_call ''protectSocket'' [Jint fd]) s in (ce_bool env (c_io s), s))"

fun bypass_all :: "cenv \<Rightarrow> int list \<Rightarrow> charon \<Rightarrow> charon" where
  "bypass_all env [] s = s"
| "bypass_all env (fd # fds) s = bypass_all env fds (snd (bypass_single_socket env fd s))"

definition bypass_socket :: "cenv \<Rightarrow> int \<Rightarrow> charon \<Rightarrow> (bool \<times> charon) option" where
  "bypass_socket env fd s = do {
     cs \<leftarrow> c_cs s;
     if fd \<ge> 0 then
       Some (bypass_single_socket env fd (set_cs (cs\<lparr>cs_sockets := cs_sockets cs @ [fd]\<rparr>) s))
     else Some (True, bypass_all env (cs_sockets cs) s)
   }"

text \<open>The length of a \<open>null\<close> array is not defined.\<close>

definition convert_array_of_byte_arrays :: "bytes option list \<Rightarrow> bytes list option" where
  "convert_array_of_byte_arrays jarray = those jarray"

definition call_for_array :: "cenv \<Rightarrow> string \<Rightarrow> jarg list \<Rightarrow> charon \<Rightarrow> (bytes list option \<times> charon) option" where
  "call_for_array env name args s = do {
     cs \<leftarrow> c_cs s;
     let (m, s) = get_method env name s;
     if \<not> m then Some (None, s)
     else let s = cemit (Java_call name args) s in
       case ce_array env (c_io s) of
         None \<Rightarrow> Some (None, s)
       | Some jarray \<Rightarrow>
           if ce_exception env (c_io s) then Some (None, s)
           else do { l \<leftarrow> convert_array_of_byte_arrays jarray; Some (Some l, s) }
   }"

definition get_trusted_certificates :: "cenv \<Rightarrow> charon \<Rightarrow> (bytes list option \<times> charon) option" where
  "get_trusted_certificates env = call_for_array env ''getTrustedCertificates'' [Jnull]"

definition get_user_certificate :: "cenv \<Rightarrow> charon \<Rightarrow> (bytes list option \<times> charon) option" where
  "get_user_certificate env = call_for_array env ''getUserCertificate'' []"

text \<open>\<open>android_private_key_create\<close>, and \<open>destroy\<close> of a private key.\<close>

definition android_private_key_create :: "cenv \<Rightarrow> bytes option \<Rightarrow> charon \<Rightarrow> private_key option \<times> charon" where
  "android_private_key_create env pubkey s =
     (case pubkey of
        None \<Rightarrow> (None, s)
      | Some p \<Rightarrow>
          let (k, s) = new_ref env s; (c, s) = new_ref env s
          in (Some \<lparr>pk_key = k, pk_class = c, pk_pubkey = p, pk_ref = 1\<rparr>, s))"

definition private_key_destroy :: "cenv \<Rightarrow> private_key \<Rightarrow> charon \<Rightarrow> charon" where
  "private_key_destroy env k s =
     (if pk_ref k = 1
      then cemit (Java_unref (pk_class k)) (if ce_jelly_bean env then s else cemit (Java_unref (pk_key k)) s)
      else s)"

text \<open>\<open>sign\<close> of a private key: Java's \<open>Signature\<close> for the algorithm of the scheme is made, initialised
  with the key, given the data and asked for the signature.\<close>

datatype signature_scheme = RSA_MD5 | RSA_SHA1 | RSA_SHA224 | RSA_SHA256 | RSA_SHA384 | RSA_SHA512
  | RSA_NULL | OTHER_SCHEME

definition signature_method :: "signature_scheme \<Rightarrow> string option" where
  "signature_method scheme = (case scheme of
       RSA_MD5 \<Rightarrow> Some ''MD5withRSA''
     | RSA_SHA1 \<Rightarrow> Some ''SHA1withRSA''
     | RSA_SHA224 \<Rightarrow> Some ''SHA224withRSA''
     | RSA_SHA256 \<Rightarrow> Some ''SHA256withRSA''
     | RSA_SHA384 \<Rightarrow> Some ''SHA384withRSA''
     | RSA_SHA512 \<Rightarrow> Some ''SHA512withRSA''
     | RSA_NULL \<Rightarrow> Some ''NONEwithRSA''
     | OTHER_SCHEME \<Rightarrow> None)"

text \<open>A method that is looked up and called, and whether no exception is left.\<close>

definition call_checked :: "cenv \<Rightarrow> string \<Rightarrow> jarg list \<Rightarrow> charon \<Rightarrow> bool \<times> charon" where
  "call_checked env name args s =
     (let (m, s) = get_method env name s in
      if \<not> m then (False, s)
      else let s = cemit (Java_call name args) s in (\<not> ce_exception env (c_io s), s))"

definition private_key_sign ::
  "cenv \<Rightarrow> private_key \<Rightarrow> signature_scheme \<Rightarrow> bytes \<Rightarrow> charon \<Rightarrow> bytes option \<times> charon" where
  "private_key_sign env k scheme data s =
     (case signature_method scheme of
        None \<Rightarrow> (None, s)
      | Some algorithm \<Rightarrow>
          let (m, s) = get_method env ''getInstance'' s in
          if \<not> m then (None, s)
          else let (str, s) = new_string env algorithm s in
            if \<not> str then (None, s)
            else let s = cemit (Java_call ''getInstance'' [Jstr algorithm]) s in
              case ce_object env (c_io s) of
                None \<Rightarrow> (None, s)
              | Some jsignature \<Rightarrow>
                  let (ok, s) = call_checked env ''initSign'' [Jref jsignature, Jref (pk_key k)] s in
                  if \<not> ok then (None, s)
                  else let (ok, s) = call_checked env ''update'' [Jref jsignature, Jbytes data] s in
                    if \<not> ok then (None, s)
                    else let (m, s) = get_method env ''sign'' s in
                      if \<not> m then (None, s)
                      else let s = cemit (Java_call ''sign'' [Jref jsignature]) s
                           in (ce_bytes env (c_io s), s))"

definition get_user_key :: "cenv \<Rightarrow> bytes option \<Rightarrow> charon \<Rightarrow> (private_key option \<times> charon) option" where
  "get_user_key env pubkey s = do {
     cs \<leftarrow> c_cs s;
     let (m, s) = get_method env ''getUserKey'' s;
     if \<not> m then Some (None, s)
     else let s = cemit (Java_call ''getUserKey'' []) s in
       if ce_object env (c_io s) = None \<or> ce_exception env (c_io s) then Some (None, s)
       else Some (android_private_key_create env pubkey s)
   }"

definition get_fd :: "charon \<Rightarrow> int option" where
  "get_fd s = do { cs \<leftarrow> c_cs s; get_remote_fd (c_world s) (cs_tunnel_ctx cs) }"

text \<open>What \<open>add_address\<close>, \<open>add_route\<close> and \<open>add_dns\<close> share: the text of the address must fit the
  buffer, and Java must find the method, make the string and accept the call.\<close>

definition call_with_host :: "cenv \<Rightarrow> string \<Rightarrow> string \<Rightarrow> jarg list \<Rightarrow> charon \<Rightarrow> bool \<times> charon" where
  "call_with_host env name buf args s =
     (if length buf \<ge> INET6_ADDRSTRLEN then (False, s)
      else let (m, s) = get_method env name s in
        if \<not> m then (False, s)
        else let (str, s) = new_string env buf s in
          if \<not> str then (False, s)
          else let s = cemit (Java_call name (Jstr buf # args)) s in (ce_bool env (c_io s), s))"

definition add_address :: "cenv \<Rightarrow> host \<Rightarrow> charon \<Rightarrow> (bool \<times> charon) option" where
  "add_address env addr s = do {
     cs \<leftarrow> c_cs s;
     let prefix = (if host_is_inet addr then 32 else 128);
     Some (call_with_host env ''addAddress'' (host_text env False addr) [Jint prefix] s)
   }"

definition cs_add_route :: "cenv \<Rightarrow> host \<Rightarrow> nat \<Rightarrow> charon \<Rightarrow> (bool \<times> charon) option" where
  "cs_add_route env net prefix s = do {
     cs \<leftarrow> c_cs s;
     Some (call_with_host env ''addRoute'' (host_text env True net) [Jint (int prefix)] s)
   }"

definition add_dns :: "cenv \<Rightarrow> host \<Rightarrow> charon \<Rightarrow> (bool \<times> charon) option" where
  "add_dns env dns s = do {
     cs \<leftarrow> c_cs s;
     Some (call_with_host env ''addDns'' (host_text env False dns) [] s)
   }"

definition call_for_string :: "cenv \<Rightarrow> string \<Rightarrow> charon \<Rightarrow> (string option \<times> charon) option" where
  "call_for_string env name s = do {
     cs \<leftarrow> c_cs s;
     let (m, s) = get_method env name s;
     if \<not> m then Some (None, s)
     else let s = cemit (Java_call name []) s in
       if ce_exception env (c_io s) then Some (None, s) else Some (ce_string env (c_io s), s)
   }"

definition get_xauth_identity where "get_xauth_identity env = call_for_string env ''getXAuthName''"
definition get_xauth_key where "get_xauth_key env = call_for_string env ''getXAuthPassword''"

end
