(* ===== verification/AndroidNet.thy ===== *)
theory AndroidNet
  imports CharonBase
begin

text \<open>
  Network changes (\<open>kernel/network_manager.c\<close>, \<open>kernel/android_net.c\<close>). Java reports a change
  of the network to the network manager, whose callback schedules a roaming job unless one
  was scheduled less than \<open>ROAM_DELAY\<close> before. \<open>debounce\<close> is the specification of that filter;
  \<open>notify_all_debounce\<close> shows that the callback implements it.
\<close>

section \<open>Time\<close>

function timeval_carry :: "int \<times> int \<Rightarrow> int \<times> int" where
  "timeval_carry (sec, usec) =
     (if usec \<ge> 1000000 then timeval_carry (sec + 1, usec - 1000000) else (sec, usec))"
  by pat_completeness auto
termination by (relation "measure (\<lambda>(s, u). nat u)") auto

declare timeval_carry.simps [simp del]

definition timeval_add_ms :: "int \<times> int \<Rightarrow> int \<Rightarrow> int \<times> int" where
  "timeval_add_ms tv ms = timeval_carry (fst tv, snd tv + ms * 1000)"

text \<open>The macro \<open>timercmp\<close> with \<open>>\<close>.\<close>

definition timercmp_gt :: "int \<times> int \<Rightarrow> int \<times> int \<Rightarrow> bool" where
  "timercmp_gt a b = (if fst a = fst b then snd a > snd b else fst a > fst b)"

definition time_monotonic :: "cenv \<Rightarrow> charon \<Rightarrow> (int \<times> int) \<times> charon" where
  "time_monotonic env s = (let s = cemit Monotonic s in (ce_time env (c_io s), s))"

section \<open>The network manager\<close>

definition add_connectivity_cb :: "charonservice \<Rightarrow> charonservice" where
  "add_connectivity_cb cs = (if \<not> cs_connectivity cs then cs\<lparr>cs_connectivity := True\<rparr> else cs)"

definition remove_connectivity_cb :: "charonservice \<Rightarrow> charonservice" where
  "remove_connectivity_cb cs = (if cs_connectivity cs then cs\<lparr>cs_connectivity := False\<rparr> else cs)"

section \<open>Scheduling a roaming job\<close>

definition ROAM_DELAY :: int where "ROAM_DELAY = 100"

text \<open>The scheduler adds the delay to the time it reads itself.\<close>

definition schedule_job_ms :: "cenv \<Rightarrow> int \<Rightarrow> charon \<Rightarrow> charon" where
  "schedule_job_ms env ms s =
     (let (now, s) = time_monotonic env (cemit Schedule_roam s)
      in s\<lparr>c_timers := c_timers s @ [timeval_add_ms now ms]\<rparr>)"

definition connectivity_cb :: "cenv \<Rightarrow> bool \<Rightarrow> charon \<Rightarrow> charon option" where
  "connectivity_cb env disconnected s = do {
     cs \<leftarrow> c_cs s;
     next_roam \<leftarrow> cs_net cs;
     let (now, s) = time_monotonic env s;
     if \<not> timercmp_gt now next_roam then Some s
     else
       let s = set_cs (cs\<lparr>cs_net := Some (timeval_add_ms now ROAM_DELAY)\<rparr>) s
       in Some (schedule_job_ms env ROAM_DELAY s)
   }"

definition network_changed :: "cenv \<Rightarrow> bool \<Rightarrow> charon \<Rightarrow> charon option" where
  "network_changed env disconnected s = do {
     cs \<leftarrow> c_cs s;
     if cs_connectivity cs then connectivity_cb env disconnected s else Some s
   }"

text \<open>The job: bypass the sockets again, then let the kernel interface roam.\<close>

definition roam_event :: "cenv \<Rightarrow> charon \<Rightarrow> charon option" where
  "roam_event env s = do { (_, s) \<leftarrow> bypass_socket env (- 1) s; Some (cemit Roam s) }"

definition android_net_create :: "charon \<Rightarrow> charon option" where
  "android_net_create s = do {
     cs \<leftarrow> c_cs s;
     Some (set_cs (add_connectivity_cb (cs\<lparr>cs_net := Some (0, 0)\<rparr>)) s)
   }"

definition android_net_destroy :: "charon \<Rightarrow> charon option" where
  "android_net_destroy s = do {
     cs \<leftarrow> c_cs s;
     net \<leftarrow> cs_net cs;
     Some (set_cs ((remove_connectivity_cb cs)\<lparr>cs_net := None\<rparr>) s)
   }"

section \<open>The filter\<close>

definition usecs :: "int \<times> int \<Rightarrow> int" where
  "usecs tv = fst tv * 1000000 + snd tv"

definition proper_time :: "int \<times> int \<Rightarrow> bool" where
  "proper_time tv \<longleftrightarrow> 0 \<le> snd tv \<and> snd tv < 1000000"

lemma timeval_carry_usecs:
  "0 \<le> snd tv \<Longrightarrow> usecs (timeval_carry tv) = usecs tv \<and> proper_time (timeval_carry tv)"
proof (induction tv rule: timeval_carry.induct)
  case (1 sec usec)
  then show ?case
    by (subst (1 2) timeval_carry.simps) (simp add: usecs_def proper_time_def)
qed

lemma timeval_add_ms_usecs:
  "proper_time tv \<Longrightarrow> 0 \<le> ms \<Longrightarrow>
   usecs (timeval_add_ms tv ms) = usecs tv + ms * 1000 \<and> proper_time (timeval_add_ms tv ms)"
  using timeval_carry_usecs [of "(fst tv, snd tv + ms * 1000)"]
  by (simp add: timeval_add_ms_def proper_time_def usecs_def)

lemma timercmp_gt_usecs:
  "proper_time a \<Longrightarrow> proper_time b \<Longrightarrow> timercmp_gt a b \<longleftrightarrow> usecs b < usecs a"
  by (auto simp: timercmp_gt_def proper_time_def usecs_def)

text \<open>The notifications that pass: those later than the last one that passed by more than the
  delay.\<close>

fun debounce :: "int \<Rightarrow> int \<Rightarrow> int list \<Rightarrow> int list" where
  "debounce delay nxt [] = []"
| "debounce delay nxt (t # ts) =
     (if nxt < t then t # debounce delay (t + delay) ts else debounce delay nxt ts)"

lemma debounce_above: "f \<in> set (debounce delay nxt ts) \<Longrightarrow> 0 \<le> delay \<Longrightarrow> nxt < f"
  by (induction ts arbitrary: nxt) (auto split: if_splits, fastforce)

lemma debounce_spaced:
  "0 \<le> delay \<Longrightarrow> sorted_wrt (\<lambda>a b. a + delay < b) (debounce delay nxt ts)"
  by (induction ts arbitrary: nxt) (auto dest: debounce_above)

lemma debounce_covers:
  "sorted ts \<Longrightarrow> t \<in> set ts \<Longrightarrow> nxt < t \<Longrightarrow> 0 \<le> delay \<Longrightarrow>
   \<exists>f\<in>set (debounce delay nxt ts). f \<le> t \<and> t \<le> f + delay"
proof (induction ts arbitrary: nxt)
  case (Cons u us)
  show ?case
  proof (cases "nxt < u")
    case True
    show ?thesis
    proof (cases "t \<le> u + delay")
      case True
      then show ?thesis using Cons.prems \<open>nxt < u\<close> by auto
    next
      case False
      then show ?thesis using Cons.IH [of "u + delay"] Cons.prems \<open>nxt < u\<close> by auto
    qed
  next
    case False
    then show ?thesis using Cons.IH [of nxt] Cons.prems by auto
  qed
qed simp

section \<open>The callback implements the filter\<close>

text \<open>A series of notifications and the times at which they arrive.\<close>

fun notify_all :: "cenv \<Rightarrow> bool list \<Rightarrow> charon \<Rightarrow> charon option" where
  "notify_all env [] s = Some s"
| "notify_all env (d # ds) s = do { s \<leftarrow> network_changed env d s; notify_all env ds s }"

fun arrivals :: "cenv \<Rightarrow> bool list \<Rightarrow> charon \<Rightarrow> int list" where
  "arrivals env [] s = []"
| "arrivals env (d # ds) s =
     usecs (ce_time env (c_io s @ [Monotonic])) #
     (case network_changed env d s of Some s \<Rightarrow> arrivals env ds s | None \<Rightarrow> [])"

definition steady_clock :: "cenv \<Rightarrow> bool" where
  "steady_clock env \<longleftrightarrow> (\<forall>h. proper_time (ce_time env h)) \<and>
     (\<forall>h es. usecs (ce_time env h) \<le> usecs (ce_time env (h @ es)))"

definition listening :: "charon \<Rightarrow> int \<times> int \<Rightarrow> bool" where
  "listening s tv \<longleftrightarrow> (\<exists>cs. c_cs s = Some cs \<and> cs_connectivity cs \<and> cs_net cs = Some tv)"

lemma network_changed_cases:
  assumes "steady_clock env" "listening s tv" "proper_time tv"
  defines "now \<equiv> ce_time env (c_io s @ [Monotonic])"
  shows "\<exists>s' es. network_changed env d s = Some s' \<and> c_io s' = c_io s @ Monotonic # es \<and>
    (if usecs tv < usecs now
     then (\<exists>tv' due. listening s' tv' \<and> proper_time tv' \<and> usecs tv' = usecs now + 100000 \<and>
       c_timers s' = c_timers s @ [due] \<and> usecs now + 100000 \<le> usecs due)
     else listening s' tv \<and> c_timers s' = c_timers s)"
proof -
  obtain cs where cs: "c_cs s = Some cs" "cs_connectivity cs" "cs_net cs = Some tv"
    using assms(2) by (auto simp: listening_def)
  let ?later = "ce_time env (c_io s @ [Monotonic, Schedule_roam, Monotonic])"
  have p: "proper_time now" "proper_time ?later" using assms(1) by (auto simp: steady_clock_def now_def)
  have le: "usecs now \<le> usecs ?later"
    using assms(1) unfolding steady_clock_def now_def
    by (metis append_Cons append_Nil append_assoc)
  show ?thesis
  proof (cases "usecs tv < usecs now")
    case True
    then have "timercmp_gt now tv" using timercmp_gt_usecs p assms(3) by blast
    then show ?thesis
      using True cs p le timeval_add_ms_usecs [OF p(1), of 100] timeval_add_ms_usecs [OF p(2), of 100]
      by (auto simp: network_changed_def connectivity_cb_def time_monotonic_def schedule_job_ms_def
          set_cs_def listening_def ROAM_DELAY_def now_def [symmetric] Let_def simp del: split_paired_Ex)
  next
    case False
    then have "\<not> timercmp_gt now tv" using timercmp_gt_usecs p assms(3) by blast
    then show ?thesis using False cs
      by (auto simp: network_changed_def connectivity_cb_def time_monotonic_def
          listening_def now_def [symmetric])
  qed
qed

lemma notify_all_debounce:
  assumes "steady_clock env" "listening s tv" "proper_time tv"
  shows "\<exists>s' dues. notify_all env ds s = Some s' \<and> c_timers s' = c_timers s @ dues \<and>
    list_all2 (\<lambda>f due. f + 100000 \<le> usecs due) (debounce 100000 (usecs tv) (arrivals env ds s)) dues \<and>
    sorted (arrivals env ds s) \<and> (\<forall>t\<in>set (arrivals env ds s). usecs (ce_time env (c_io s)) \<le> t)"
  using assms(2,3)
proof (induction ds arbitrary: s tv)
  case (Cons d ds)
  let ?now = "usecs (ce_time env (c_io s @ [Monotonic]))"
  obtain s1 es where s1: "network_changed env d s = Some s1" "c_io s1 = c_io s @ Monotonic # es"
    and br: "if usecs tv < ?now
     then (\<exists>tv' due. listening s1 tv' \<and> proper_time tv' \<and> usecs tv' = ?now + 100000 \<and>
       c_timers s1 = c_timers s @ [due] \<and> ?now + 100000 \<le> usecs due)
     else listening s1 tv \<and> c_timers s1 = c_timers s"
    using network_changed_cases [OF assms(1) Cons.prems] by blast
  have mono: "usecs (ce_time env h) \<le> usecs (ce_time env (h @ e))" for h e
    using assms(1) by (simp add: steady_clock_def)
  have le: "usecs (ce_time env (c_io s)) \<le> ?now" "?now \<le> usecs (ce_time env (c_io s1))"
    using mono [of "c_io s" "[Monotonic]"] mono [of "c_io s @ [Monotonic]" es] s1(2) by auto
  show ?case
  proof (cases "usecs tv < ?now")
    case True
    then obtain tv' due where n: "listening s1 tv'" "proper_time tv'" "usecs tv' = ?now + 100000"
      "c_timers s1 = c_timers s @ [due]" "?now + 100000 \<le> usecs due" using br by auto
    from Cons.IH [OF n(1,2)] obtain s' dues where "notify_all env ds s1 = Some s'"
      "c_timers s' = c_timers s1 @ dues"
      "list_all2 (\<lambda>f due. f + 100000 \<le> usecs due) (debounce 100000 (usecs tv') (arrivals env ds s1)) dues"
      "sorted (arrivals env ds s1)" "\<forall>t\<in>set (arrivals env ds s1). usecs (ce_time env (c_io s1)) \<le> t"
      by blast
    then show ?thesis using True n s1 le by (auto intro: order_trans)
  next
    case False
    then have n: "listening s1 tv" "c_timers s1 = c_timers s" using br by auto
    from Cons.IH [OF n(1) Cons.prems(2)] obtain s' dues where "notify_all env ds s1 = Some s'"
      "c_timers s' = c_timers s1 @ dues"
      "list_all2 (\<lambda>f due. f + 100000 \<le> usecs due) (debounce 100000 (usecs tv) (arrivals env ds s1)) dues"
      "sorted (arrivals env ds s1)" "\<forall>t\<in>set (arrivals env ds s1). usecs (ce_time env (c_io s1)) \<le> t"
      by blast
    then show ?thesis using False n s1 le by (auto intro: order_trans)
  qed
qed simp

end
