(* ===== verification/AndroidCreds.thy ===== *)
theory AndroidCreds
  imports CharonBase
begin

text \<open>
  The credential set (\<open>backend/android_creds.c\<close>) on strongSwan's in-memory set, and the
  handler for DNS attributes (\<open>backend/android_attr.c\<close>). Certificates and the private key come
  from Java. A linked list that is emptied from the front is a recursion over the list. Freed
  encodings and identities are not followed.
\<close>

section \<open>The in-memory set\<close>

definition empty_mem_cred :: mem_cred where
  "empty_mem_cred = \<lparr>mc_trusted = [], mc_untrusted = [], mc_keys = [], mc_shared = []\<rparr>"

text \<open>The certificate is dropped when the list of all certificates has an equal one.\<close>

definition add_cert :: "bool \<Rightarrow> bytes \<Rightarrow> mem_cred \<Rightarrow> mem_cred" where
  "add_cert trusted cert m =
     (if cert \<in> set (mc_untrusted m) then m
      else let m = (if trusted then m\<lparr>mc_trusted := cert # mc_trusted m\<rparr> else m)
           in m\<lparr>mc_untrusted := cert # mc_untrusted m\<rparr>)"

definition add_key :: "private_key \<Rightarrow> mem_cred \<Rightarrow> mem_cred" where
  "add_key k m = m\<lparr>mc_keys := k # mc_keys m\<rparr>"

definition add_shared :: "string \<Rightarrow> string \<Rightarrow> mem_cred \<Rightarrow> mem_cred" where
  "add_shared secret owner m = m\<lparr>mc_shared := (secret, owner) # mc_shared m\<rparr>"

fun destroy_keys :: "cenv \<Rightarrow> private_key list \<Rightarrow> charon \<Rightarrow> charon" where
  "destroy_keys env [] s = s"
| "destroy_keys env (k # ks) s = destroy_keys env ks (private_key_destroy env k s)"

definition get_creds :: "charon \<Rightarrow> android_creds option" where
  "get_creds s = map_option cs_creds (c_cs s)"

definition set_creds :: "android_creds \<Rightarrow> charon \<Rightarrow> charon option" where
  "set_creds c s = do { cs \<leftarrow> c_cs s; Some (set_cs (cs\<lparr>cs_creds := c\<rparr>) s) }"

text \<open>An assignment to the in-memory set.\<close>

definition upd_mem :: "(mem_cred \<Rightarrow> mem_cred) \<Rightarrow> charon \<Rightarrow> charon option" where
  "upd_mem f s = do { c \<leftarrow> get_creds s; set_creds (c\<lparr>ac_creds := f (ac_creds c)\<rparr>) s }"

definition upd_creds_lock :: "(rwlock \<Rightarrow> rwlock option) \<Rightarrow> charon \<Rightarrow> charon option" where
  "upd_creds_lock f s = do {
     c \<leftarrow> get_creds s;
     l \<leftarrow> f (ac_lock c);
     set_creds (c\<lparr>ac_lock := l\<rparr>) s
   }"

section \<open>Trusted certificates\<close>

fun add_trusted :: "cenv \<Rightarrow> bytes list \<Rightarrow> charon \<Rightarrow> charon option" where
  "add_trusted env [] s = Some s"
| "add_trusted env (d # certs) s = do {
     s \<leftarrow> (if ce_x509 env d then upd_mem (add_cert True d) s else Some s);
     add_trusted env certs s
   }"

definition load_trusted_certificates :: "cenv \<Rightarrow> charon \<Rightarrow> charon option" where
  "load_trusted_certificates env s = do {
     (certs, s) \<leftarrow> get_trusted_certificates env s;
     case certs of None \<Rightarrow> Some s | Some certs \<Rightarrow> add_trusted env certs s
   }"

datatype cert_type = CERT_ANY | CERT_X509 | CERT_OTHER

text \<open>The enumerator is the list it runs over; the library filters it by the type of the
  certificate, the key and the identity (\<open>keep\<close>). The read lock stays held until the enumerator is
  destroyed.\<close>

definition create_cert_enumerator ::
  "cenv \<Rightarrow> cert_type \<Rightarrow> (bytes \<Rightarrow> bool) \<Rightarrow> bool \<Rightarrow> charon \<Rightarrow> (bytes list option \<times> charon) option" where
  "create_cert_enumerator env cert keep trusted s =
     (if \<not> trusted \<or> (cert \<noteq> CERT_ANY \<and> cert \<noteq> CERT_X509) then Some (None, s)
      else do {
        s \<leftarrow> upd_creds_lock read_lock s;
        c \<leftarrow> get_creds s;
        s \<leftarrow> (if \<not> ac_loaded c then do {
               s \<leftarrow> upd_creds_lock rw_unlock s;
               s \<leftarrow> upd_creds_lock write_lock s;
               c \<leftarrow> get_creds s;
               s \<leftarrow> (if \<not> ac_loaded c then do {
                      s \<leftarrow> load_trusted_certificates env s;
                      c \<leftarrow> get_creds s;
                      set_creds (c\<lparr>ac_loaded := True\<rparr>) s
                    } else Some s);
               s \<leftarrow> upd_creds_lock rw_unlock s;
               upd_creds_lock read_lock s
             } else Some s);
        c \<leftarrow> get_creds s;
        Some (Some (filter keep (mc_trusted (ac_creds c))), s)
      })"

definition cert_enumerator_destroy :: "charon \<Rightarrow> charon option" where
  "cert_enumerator_destroy = upd_creds_lock rw_unlock"

section \<open>User credentials\<close>

text \<open>\<open>strlen\<close> stops at the first zero byte.\<close>

definition c_string :: "string \<Rightarrow> string" where
  "c_string t = takeWhile (\<lambda>c. c \<noteq> CHR 0x00) t"

text \<open>The text that \<open>identification_create_from_string\<close> parses.\<close>

definition id_text :: "string option \<Rightarrow> string" where
  "id_text t = (case t of None \<Rightarrow> ''%any'' | Some t \<Rightarrow> c_string t)"

definition add_username_password :: "string option \<Rightarrow> string option \<Rightarrow> charon \<Rightarrow> charon option" where
  "add_username_password username password s = do {
     p \<leftarrow> password;
     upd_mem (add_shared (c_string p) (id_text username)) s
   }"

text \<open>The rest of the chain is CA certificates, and failures are ignored.\<close>

definition load_user_certificate :: "cenv \<Rightarrow> charon \<Rightarrow> (bytes option \<times> charon) option" where
  "load_user_certificate env s = do {
     (encodings, s) \<leftarrow> get_user_certificate env s;
     case encodings of
       None \<Rightarrow> Some (None, s)
     | Some [] \<Rightarrow> Some (None, s)
     | Some (d # ds) \<Rightarrow>
         if \<not> ce_x509 env d then Some (None, s)
         else do {
           s \<leftarrow> upd_mem (add_cert True d) s;
           s \<leftarrow> add_trusted env ds s;
           (key, s) \<leftarrow> get_user_key env (ce_pubkey env d) s;
           case key of
             Some k \<Rightarrow> do { s \<leftarrow> upd_mem (add_key k) s; Some (Some d, s) }
           | None \<Rightarrow> Some (None, s)
         }
   }"

text \<open>Both strings come from \<open>malloc\<close> and are not freed on any path.\<close>

definition load_xauth :: "cenv \<Rightarrow> charon \<Rightarrow> (string option \<times> charon) option" where
  "load_xauth env s = do {
     (xauth_id, s) \<leftarrow> get_xauth_identity env s;
     (xauth_key, s) \<leftarrow> get_xauth_key env s;
     case (xauth_id, xauth_key) of
       (Some i, Some k) \<Rightarrow>
         if ce_id_any env (id_text (Some i)) then Some (None, s)
         else do {
           s \<leftarrow> upd_mem (add_shared (c_string k) (id_text (Some i))) s;
           Some (Some (id_text (Some i)), s)
         }
     | _ \<Rightarrow> Some (None, s)
   }"

text \<open>\<open>clear\<close> of the in-memory set destroys the keys.\<close>

definition creds_clear :: "cenv \<Rightarrow> charon \<Rightarrow> charon option" where
  "creds_clear env s = do {
     s \<leftarrow> upd_creds_lock write_lock s;
     c \<leftarrow> get_creds s;
     let s = destroy_keys env (mc_keys (ac_creds c)) s;
     s \<leftarrow> set_creds (c\<lparr>ac_creds := empty_mem_cred, ac_loaded := False\<rparr>) s;
     upd_creds_lock rw_unlock s
   }"

text \<open>\<open>android_creds_create\<close> puts the in-memory set itself into the credential manager; \<open>destroy\<close>
  does not take it out again.\<close>

definition android_creds_create :: "charon \<Rightarrow> android_creds \<times> charon" where
  "android_creds_create s =
     (\<lparr>ac_creds = empty_mem_cred, ac_lock = rwlock_free, ac_loaded = False\<rparr>,
      s\<lparr>c_sets := c_sets s @ [Mem_set]\<rparr>)"

definition android_creds_destroy :: "cenv \<Rightarrow> charon \<Rightarrow> charon option" where
  "android_creds_destroy env s = creds_clear env s"

section \<open>DNS attributes\<close>

datatype attr_type = INTERNAL_IP4_DNS | INTERNAL_IP6_DNS | OTHER_ATTRIBUTE

text \<open>\<open>host_create_from_chunk\<close> of the library takes the first bytes of the data.\<close>

definition host_create_from_chunk :: "bool \<Rightarrow> bytes \<Rightarrow> host option" where
  "host_create_from_chunk inet d =
     (if inet then if length d < 4 then None else map_option Host4 (rd32 d 0)
      else if length d < 16 then None else Some (Host6 (take 16 d)))"

definition attr_handle :: "cenv \<Rightarrow> attr_type \<Rightarrow> bytes \<Rightarrow> charon \<Rightarrow> (bool \<times> charon) option" where
  "attr_handle env type d s =
     (if type = OTHER_ATTRIBUTE then Some (False, s)
      else case host_create_from_chunk (type = INTERNAL_IP4_DNS) d of
        None \<Rightarrow> Some (False, s)
      | Some dns \<Rightarrow>
          if is_anyaddr dns then Some (False, s)
          else do { (_, s) \<leftarrow> add_dns env dns s; Some (True, s) })"

text \<open>The attributes that are requested from the peer: the enumerator replaces its own function
  at every step, until it is \<open>return_false\<close>.\<close>

datatype dns_enum = Enumerate_dns4 | Enumerate_dns6 | Return_false

definition enumerate_dns :: "dns_enum \<Rightarrow> ((attr_type \<times> bytes) \<times> dns_enum) option" where
  "enumerate_dns e = (case e of
       Enumerate_dns4 \<Rightarrow> Some ((INTERNAL_IP4_DNS, []), Enumerate_dns6)
     | Enumerate_dns6 \<Rightarrow> Some ((INTERNAL_IP6_DNS, []), Return_false)
     | Return_false \<Rightarrow> None)"

end
