(* ===== verification/AndroidService.thy ===== *)
theory AndroidService
  imports AndroidNet AndroidCreds
begin

text \<open>
  The VPN connection (\<open>backend/android_service.c\<close>): a service keeps the IKE SA it follows and the
  descriptor of the TUN device, registers itself for the ESP packets while the device is
  open, and reports to Java. It is a listener of strongSwan's bus; \<open>bus_dispatch\<close> has what
  \<open>bus.c\<close> does with the listeners. Every pointer to a service is looked up in the heap, so a
  job or a message for a freed one is a fault.
\<close>

section \<open>The fields of a service\<close>

definition upd_service :: "nat \<Rightarrow> (android_service \<Rightarrow> android_service) \<Rightarrow> charon \<Rightarrow> charon option" where
  "upd_service a f s = do { v \<leftarrow> get_service s a; Some (set_service a (f v) s) }"

definition service_lock :: "nat \<Rightarrow> (rwlock \<Rightarrow> rwlock option) \<Rightarrow> charon \<Rightarrow> charon option" where
  "service_lock a f s = do {
     v \<leftarrow> get_service s a;
     l \<leftarrow> f (sv_lock v);
     Some (set_service a (v\<lparr>sv_lock := l\<rparr>) s)
   }"

section \<open>Packets\<close>

definition send_esp :: "bytes \<Rightarrow> charon \<Rightarrow> charon" where
  "send_esp packet = cemit (Send_no_marker packet)"

definition deliver_plain :: "nat \<Rightarrow> bytes \<Rightarrow> charon \<Rightarrow> charon option" where
  "deliver_plain a packet s = do {
     s \<leftarrow> service_lock a read_lock s;
     v \<leftarrow> get_service s a;
     if sv_tunfd v < 0 then do {
       s \<leftarrow> service_lock a rw_unlock s;
       Some (cemit Destroy_packet s)
     }
     else do {
       let s = cemit (Write_tun (sv_tunfd v) packet) s;
       s \<leftarrow> service_lock a rw_unlock s;
       Some (cemit Destroy_packet s)
     }
   }"

definition receiver_esp_cb :: "bytes \<Rightarrow> charon \<Rightarrow> charon" where
  "receiver_esp_cb packet = cemit (Queue_inbound packet)"

definition TUN_DEFAULT_MTU :: nat where "TUN_DEFAULT_MTU = 1400"

datatype requeue = JOB_REQUEUE_NONE | JOB_REQUEUE_FAIR | JOB_REQUEUE_DIRECT

text \<open>The part of \<open>handle_plain\<close> before \<open>select\<close>; \<open>None\<close> as the descriptor ends the job.\<close>

definition handle_plain_fd :: "nat \<Rightarrow> charon \<Rightarrow> (int option \<times> charon) option" where
  "handle_plain_fd a s = do {
     s \<leftarrow> service_lock a read_lock s;
     v \<leftarrow> get_service s a;
     if sv_tunfd v < 0 then do {
       s \<leftarrow> service_lock a rw_unlock s;
       Some (None, s)
     }
     else do {
       let tunfd = sv_tunfd v;
       s \<leftarrow> service_lock a rw_unlock s;
       Some (Some tunfd, s)
     }
   }"

text \<open>The rest, which does not use the service.\<close>

definition handle_plain_read :: "cenv \<Rightarrow> int \<Rightarrow> charon \<Rightarrow> requeue \<times> charon" where
  "handle_plain_read env tunfd s =
     (let s = cemit (Select tunfd) s in
      case ce_select env (c_io s) of
        Select_bad_fd \<Rightarrow> (JOB_REQUEUE_FAIR, s)
      | Select_failed \<Rightarrow> (JOB_REQUEUE_NONE, s)
      | Select_timeout \<Rightarrow> (JOB_REQUEUE_DIRECT, s)
      | Select_ready \<Rightarrow>
          let s = cemit (Read_tun tunfd TUN_DEFAULT_MTU) s in
          (case ce_read env (c_io s) of
             None \<Rightarrow> (JOB_REQUEUE_FAIR, s)
           | Some raw \<Rightarrow>
               let raw = take TUN_DEFAULT_MTU raw in
               (JOB_REQUEUE_DIRECT, if ce_ip_packet env raw then cemit (Queue_outbound raw) s else s)))"

section \<open>The TUN device\<close>

text \<open>\<open>128.0.0.0\<close> and \<open>8000::\<close>; the first recursive call has prefix 1, so it ends there.\<close>

definition upper_half :: "host \<Rightarrow> host" where
  "upper_half net = (if host_is_inet net then Host4 0x80000000 else Host6 (0x80 # replicate 15 0))"

definition add_route :: "cenv \<Rightarrow> host \<Rightarrow> nat \<Rightarrow> charon \<Rightarrow> (bool \<times> charon) option" where
  "add_route env net prefix s =
     (if is_anyaddr net \<and> prefix = 0 then do {
        (success, s) \<leftarrow> cs_add_route env net 1 s;
        if success then cs_add_route env (upper_half net) 1 s else Some (False, s)
      }
      else cs_add_route env net prefix s)"

fun add_routes :: "cenv \<Rightarrow> (host \<times> nat) list \<Rightarrow> charon \<Rightarrow> (bool \<times> charon) option" where
  "add_routes env [] s = Some (True, s)"
| "add_routes env ((net, prefix) # policies) s = do {
     (success, s) \<leftarrow> add_route env net prefix s;
     if success then add_routes env policies s else Some (False, s)
   }"

text \<open>The loop over the virtual addresses stops at the first one that Java refuses.\<close>

fun add_vips :: "cenv \<Rightarrow> host list \<Rightarrow> bool \<Rightarrow> charon \<Rightarrow> (bool \<times> charon) option" where
  "add_vips env [] found s = Some (found, s)"
| "add_vips env (vip # vips) found s =
     (if is_anyaddr vip then add_vips env vips found s
      else do {
        (ok, s) \<leftarrow> add_address env vip s;
        if \<not> ok then Some (found, s) else add_vips env vips True s
      })"

definition setup_tun_device :: "cenv \<Rightarrow> nat \<Rightarrow> nat \<Rightarrow> nat \<Rightarrow> charon \<Rightarrow> (bool \<times> charon) option" where
  "setup_tun_device env a ike_sa child_sa s = do {
     let s = cemit (Virtual_ips ike_sa) s;
     (vip_found, s) \<leftarrow> add_vips env (ce_vips env (c_io s)) False s;
     if \<not> vip_found then Some (False, s)
     else do {
       let s = cemit (Policies child_sa) s;
       (ok, s) \<leftarrow> add_routes env (ce_policies env (c_io s)) s;
       if \<not> ok then Some (False, s)
       else do {
         tunfd \<leftarrow> get_fd s;
         if tunfd = - 1 then Some (False, s)
         else do {
           s \<leftarrow> service_lock a write_lock s;
           s \<leftarrow> upd_service a (\<lambda>v. v\<lparr>sv_tunfd := tunfd\<rparr>) s;
           s \<leftarrow> service_lock a rw_unlock s;
           Some (True, s\<lparr>c_esp_cb := True, c_inbound := Some a, c_outbound := True,
             c_jobs := c_jobs s @ [Handle_plain a]\<rparr>)
         }
       }
     }
   }"

text \<open>The callbacks are removed by function, whoever registered them.\<close>

definition close_tun_device :: "nat \<Rightarrow> charon \<Rightarrow> charon option" where
  "close_tun_device a s = do {
     s \<leftarrow> service_lock a write_lock s;
     v \<leftarrow> get_service s a;
     if sv_tunfd v < 0 then service_lock a rw_unlock s
     else do {
       let tunfd = sv_tunfd v;
       s \<leftarrow> upd_service a (\<lambda>v. v\<lparr>sv_tunfd := - 1\<rparr>) s;
       s \<leftarrow> service_lock a rw_unlock s;
       Some (cemit (Close_tun tunfd) (s\<lparr>c_outbound := False, c_inbound := None, c_esp_cb := False\<rparr>))
     }
   }"

section \<open>The listener\<close>

definition report :: "cenv \<Rightarrow> vpn_state \<Rightarrow> charon \<Rightarrow> charon option" where
  "report env code s = map_option snd (update_status env code s)"

text \<open>Every method returns whether the listener stays registered.\<close>

definition child_updown :: "cenv \<Rightarrow> nat \<Rightarrow> nat \<Rightarrow> nat \<Rightarrow> bool \<Rightarrow> charon \<Rightarrow> (bool \<times> charon) option" where
  "child_updown env a ike_sa child_sa up s = do {
     v \<leftarrow> get_service s a;
     if sv_ike_sa v = ike_sa then
       if up then do {
         s \<leftarrow> upd_service a (\<lambda>v. v\<lparr>sv_hook := False\<rparr>) s;
         (ok, s) \<leftarrow> setup_tun_device env a ike_sa child_sa s;
         if \<not> ok then do { s \<leftarrow> report env GENERIC_ERROR s; Some (False, s) }
         else do { s \<leftarrow> report env CHILD_STATE_UP s; Some (True, s) }
       }
       else do {
         let s = cemit (Reauthenticating ike_sa) s;
         if ce_reauth env (c_io s) then Some (True, s)
         else do {
           s \<leftarrow> close_tun_device a s;
           s \<leftarrow> report env CHILD_STATE_DOWN s;
           Some (False, s)
         }
       }
     else Some (True, s)
   }"

definition ike_updown :: "cenv \<Rightarrow> nat \<Rightarrow> nat \<Rightarrow> bool \<Rightarrow> charon \<Rightarrow> (bool \<times> charon) option" where
  "ike_updown env a ike_sa up s = do {
     v \<leftarrow> get_service s a;
     if sv_ike_sa v = ike_sa \<and> \<not> up then do { s \<leftarrow> report env AUTH_ERROR s; Some (False, s) }
     else Some (True, s)
   }"

definition alert_cb :: "cenv \<Rightarrow> nat \<Rightarrow> nat \<Rightarrow> alert \<Rightarrow> charon \<Rightarrow> (bool \<times> charon) option" where
  "alert_cb env a ike_sa al s = do {
     v \<leftarrow> get_service s a;
     s \<leftarrow> (if sv_ike_sa v = ike_sa then
            case al of
              PEER_ADDR_FAILED \<Rightarrow> report env LOOKUP_ERROR s
            | PEER_AUTH_FAILED \<Rightarrow> report env PEER_AUTH_ERROR s
            | PEER_INIT_UNREACHABLE \<Rightarrow> do {
                s \<leftarrow> service_lock a read_lock s;
                s \<leftarrow> (if sv_tunfd v < 0 then report env UNREACHABLE_ERROR s else Some s);
                service_lock a rw_unlock s
              }
            | OTHER_ALERT \<Rightarrow> Some s
          else Some s);
     Some (True, s)
   }"

definition ike_rekey :: "nat \<Rightarrow> nat \<Rightarrow> nat \<Rightarrow> charon \<Rightarrow> (bool \<times> charon) option" where
  "ike_rekey a old new s = do {
     v \<leftarrow> get_service s a;
     s \<leftarrow> (if sv_ike_sa v = old then upd_service a (\<lambda>v. v\<lparr>sv_ike_sa := new\<rparr>) s else Some s);
     Some (True, s)
   }"

definition ike_reestablish :: "nat \<Rightarrow> nat \<Rightarrow> nat \<Rightarrow> charon \<Rightarrow> (bool \<times> charon) option" where
  "ike_reestablish a old new s = do {
     v \<leftarrow> get_service s a;
     s \<leftarrow> (if sv_ike_sa v = old then upd_service a (\<lambda>v. v\<lparr>sv_ike_sa := new, sv_hook := True\<rparr>) s
           else Some s);
     Some (True, s)
   }"

section \<open>The bus\<close>

text \<open>One message for all listeners: those that return false are removed. The services are the
  only listeners followed here, and none of them raises a message itself.\<close>

fun tell :: "(nat \<Rightarrow> charon \<Rightarrow> (bool \<times> charon) option) \<Rightarrow> nat list \<Rightarrow> charon \<Rightarrow> charon option" where
  "tell f [] s = Some s"
| "tell f (a # as) s = do {
     (keep, s) \<leftarrow> f a s;
     tell f as (if keep then s else s\<lparr>c_listeners := remove1 a (c_listeners s)\<rparr>)
   }"

definition bus_child_updown :: "cenv \<Rightarrow> nat \<Rightarrow> nat \<Rightarrow> bool \<Rightarrow> charon \<Rightarrow> charon option" where
  "bus_child_updown env ike child up s = tell (\<lambda>a. child_updown env a ike child up) (c_listeners s) s"

fun children_down :: "cenv \<Rightarrow> nat \<Rightarrow> nat list \<Rightarrow> charon \<Rightarrow> charon option" where
  "children_down env ike [] s = Some s"
| "children_down env ike (c # cs) s = do {
     s \<leftarrow> bus_child_updown env ike c False s;
     children_down env ike cs s
   }"

text \<open>A listener whose hook is not set is skipped.\<close>

definition hooked :: "(nat \<Rightarrow> charon \<Rightarrow> (bool \<times> charon) option) \<Rightarrow> nat \<Rightarrow> charon \<Rightarrow> (bool \<times> charon) option" where
  "hooked f a s = do { v \<leftarrow> get_service s a; if sv_hook v then f a s else Some (True, s) }"

definition bus_dispatch :: "cenv \<Rightarrow> bus_event \<Rightarrow> charon \<Rightarrow> charon option" where
  "bus_dispatch env e s =
     (case e of
        Child_updown ike child up \<Rightarrow> bus_child_updown env ike child up s
      | Ike_updown ike up children \<Rightarrow> do {
          s \<leftarrow> tell (hooked (\<lambda>a. ike_updown env a ike up)) (c_listeners s) s;
          if \<not> up then children_down env ike children s else Some s
        }
      | Alert ike al \<Rightarrow> tell (\<lambda>a. alert_cb env a ike al) (c_listeners s) s
      | Ike_rekey old new \<Rightarrow> tell (\<lambda>a. ike_rekey a old new) (c_listeners s) s
      | Ike_reestablish old new \<Rightarrow> tell (\<lambda>a. ike_reestablish a old new) (c_listeners s) s)"

fun bus_all :: "cenv \<Rightarrow> bus_event list \<Rightarrow> charon \<Rightarrow> charon option" where
  "bus_all env [] s = Some s"
| "bus_all env (e # es) s = do { s \<leftarrow> bus_dispatch env e s; bus_all env es s }"

section \<open>Starting a connection\<close>

definition add_auth_cfg :: "auth_rule list \<Rightarrow> bool \<Rightarrow> peer_cfg \<Rightarrow> peer_cfg" where
  "add_auth_cfg rules local p = p\<lparr>pc_auth := pc_auth p @ [(rules, local)]\<rparr>"

text \<open>\<open>memwipe\<close> writes zeros over the characters that \<open>strlen\<close> counts.\<close>

definition memwipe :: "string \<Rightarrow> string" where
  "memwipe t = replicate (length (c_string t)) CHR 0x00 @ drop (length (c_string t)) t"

definition add_auth_cfg_eap :: "nat \<Rightarrow> peer_cfg \<Rightarrow> bool \<Rightarrow> charon \<Rightarrow> (peer_cfg \<times> charon) option" where
  "add_auth_cfg_eap a p byod s = do {
     v \<leftarrow> get_service s a;
     let auth = [Auth_class ''EAP''] @ (if byod then [Eap_ttls] else []) @ [Identity (id_text (sv_username v))];
     s \<leftarrow> add_username_password (sv_username v) (sv_password v) s;
     s \<leftarrow> upd_service a (\<lambda>v. v\<lparr>sv_password := map_option memwipe (sv_password v)\<rparr>) s;
     Some (add_auth_cfg auth True p, s)
   }"

definition add_auth_cfg_xauth :: "cenv \<Rightarrow> peer_cfg \<Rightarrow> charon \<Rightarrow> (bool \<times> peer_cfg \<times> charon) option" where
  "add_auth_cfg_xauth env p s = do {
     (i, s) \<leftarrow> load_xauth env s;
     case i of
       None \<Rightarrow> Some (False, p, s)
     | Some i \<Rightarrow> Some (True, add_auth_cfg [Auth_class ''XAUTH'', Xauth_identity i] True p, s)
   }"

definition add_auth_cfg_cert :: "cenv \<Rightarrow> peer_cfg \<Rightarrow> charon \<Rightarrow> (bool \<times> peer_cfg \<times> charon) option" where
  "add_auth_cfg_cert env p s = do {
     (cert, s) \<leftarrow> load_user_certificate env s;
     case cert of
       None \<Rightarrow> Some (False, p, s)
     | Some d \<Rightarrow> Some (True, add_auth_cfg [Auth_class ''PUBKEY'', Subject_cert d, Identity (ce_subject env d)] True p, s)
   }"

definition IKEV2_UDP_PORT :: int where "IKEV2_UDP_PORT = 500"
definition IKEV2_NATT_PORT :: int where "IKEV2_NATT_PORT = 4500"

text \<open>The configuration before the authentication rounds. The virtual addresses that are
  requested are unspecified, and \<open>strdup\<close> of a gateway that is \<open>NULL\<close> is a fault.\<close>

definition new_peer_cfg :: "int \<Rightarrow> string option \<Rightarrow> peer_cfg option" where
  "new_peer_cfg local_port gateway = do {
     g \<leftarrow> gateway;
     let remote_port = (if local_port \<noteq> IKEV2_UDP_PORT then IKEV2_NATT_PORT else IKEV2_UDP_PORT);
     Some \<lparr>pc_ports = (local_port, remote_port), pc_gateway = c_string g,
       pc_vips = [Host4 0, Host6 (replicate 16 0)], pc_auth = [], pc_selectors = []\<rparr>
   }"

text \<open>The first local round: it is the only one whose failure is looked at.\<close>

definition local_auth :: "cenv \<Rightarrow> nat \<Rightarrow> string \<Rightarrow> peer_cfg \<Rightarrow> charon \<Rightarrow> (peer_cfg option \<times> charon) option" where
  "local_auth env a type p s = do {
     (ok, p, s) \<leftarrow> (if type \<in> {''ikev2-cert'', ''ikev2-cert-eap'', ''ikev1-cert-xauth''}
                   then add_auth_cfg_cert env p s else Some (True, p, s));
     if \<not> ok then Some (None, s)
     else do {
       (p, s) \<leftarrow> (if type \<in> {''ikev2-eap'', ''ikev2-cert-eap'', ''ikev2-byod-eap''}
                 then add_auth_cfg_eap a p (take 10 type = ''ikev2-byod'') s else Some (p, s));
       (_, p, s) \<leftarrow> (if type \<in> {''ikev1-cert-xauth'', ''ikev1-xauth''}
                    then add_auth_cfg_xauth env p s else Some (True, p, s));
       Some (Some p, s)
     }
   }"

definition finish_peer_cfg :: "string \<Rightarrow> peer_cfg \<Rightarrow> peer_cfg" where
  "finish_peer_cfg gateway p =
     (add_auth_cfg [Auth_class ''PUBKEY'', Identity gateway, Identity_loose] False p)
       \<lparr>pc_selectors := [(''0.0.0.0/0'', True), (''0.0.0.0/0'', False), (''::/0'', True), (''::/0'', False)]\<rparr>"

text \<open>The rest of the job once there is an IKE SA. The messages of the bus that the library sends
  while it initiates or drops the SA come before the call returns.\<close>

definition initiate_sa :: "cenv \<Rightarrow> nat \<Rightarrow> nat \<Rightarrow> charon \<Rightarrow> charon option" where
  "initiate_sa env a ike_sa s = do {
     let s = cemit (Get_peer_cfg ike_sa) s;
     let s = (if ce_has_cfg env (c_io s) then s else cemit (Set_peer_cfg ike_sa) s);
     let s = cemit Peer_cfg_destroy s;
     s \<leftarrow> upd_service a (\<lambda>v. v\<lparr>sv_ike_sa := ike_sa\<rparr>) s;
     let s = cemit (Sa_initiate ike_sa) s;
     let (es, success) = ce_initiate env (c_io s);
     s \<leftarrow> bus_all env es s;
     if \<not> success then
       let s = cemit (Checkin_and_destroy ike_sa) s in bus_all env (ce_dropped env (c_io s)) s
     else Some (cemit (Checkin ike_sa) s)
   }"

text \<open>The job that \<open>android_service_create\<close> queues.\<close>

definition initiate :: "cenv \<Rightarrow> nat \<Rightarrow> charon \<Rightarrow> charon option" where
  "initiate env a s = do {
     v \<leftarrow> get_service s a;
     let s = cemit Get_port s;
     p \<leftarrow> new_peer_cfg (ce_port env (c_io s)) (sv_gateway v);
     type \<leftarrow> sv_type v;
     (cfg, s) \<leftarrow> local_auth env a (c_string type) p s;
     case cfg of
       None \<Rightarrow> report env GENERIC_ERROR (cemit Peer_cfg_destroy s)
     | Some p \<Rightarrow> do {
         let p = finish_peer_cfg (id_text (sv_gateway v)) p;
         let s = cemit (Checkout p) s;
         let ike_sa = ce_checkout env (c_io s);
         if ike_sa = 0 then report env GENERIC_ERROR (cemit Peer_cfg_destroy s)
         else initiate_sa env a ike_sa s
       }
   }"

section \<open>Creation and destruction\<close>

definition free_string :: "string option \<Rightarrow> charon \<Rightarrow> charon" where
  "free_string t s = (case t of None \<Rightarrow> s | Some t \<Rightarrow> cemit (Free_string t) s)"

definition service_destroy :: "nat \<Rightarrow> charon \<Rightarrow> charon option" where
  "service_destroy a s = do {
     v \<leftarrow> get_service s a;
     s \<leftarrow> close_tun_device a (s\<lparr>c_listeners := remove1 a (c_listeners s)\<rparr>);
     let s = free_string (sv_username v) (free_string (sv_gateway v) (free_string (sv_type v) s));
     let s = free_string (map_option memwipe (sv_password v)) s;
     Some (s\<lparr>c_services := (c_services s)(a := None)\<rparr>)
   }"

definition android_service_create ::
  "string option \<Rightarrow> string option \<Rightarrow> string option \<Rightarrow> string option \<Rightarrow> charon \<Rightarrow> nat \<times> charon" where
  "android_service_create type gateway username password s =
     (let a = Suc (c_next s);
          v = \<lparr>sv_hook = True, sv_ike_sa = 0, sv_type = type, sv_gateway = gateway,
               sv_username = username, sv_password = password, sv_lock = rwlock_free, sv_tunfd = - 1\<rparr>;
          s = set_service a v (s\<lparr>c_next := a\<rparr>)
      in (a, s\<lparr>c_listeners := c_listeners s @ [a], c_jobs := c_jobs s @ [Initiate a]\<rparr>))"

end
