(* ===== verification/Charon.thy ===== *)
theory Charon
  imports AndroidService
begin

text \<open>
  The life of the daemon (\<open>strongswan.c\<close>): the libraries are initialised one after the other,
  \<open>charonservice\<close> is created with a reference to the tunnel, the plugins register the backend,
  and \<open>deinitialize_library\<close> takes everything down. The libraries count their users. What their \<open>deinit\<close>
  functions do to the slots this model has is written out; Cisco Unity and the other
  settings are events. The byod plugin is not part of the build.
\<close>

section \<open>The backend as a plugin\<close>

definition charonservice_register :: "bool \<Rightarrow> charon \<Rightarrow> charon option" where
  "charonservice_register reg s =
     (if reg then do {
        s \<leftarrow> android_net_create s;
        Some (cemit Add_handler (s\<lparr>c_sets := c_sets s @ [Creds_set]\<rparr>))
      }
      else do {
        s \<leftarrow> android_net_destroy s;
        let s = cemit Remove_handler (s\<lparr>c_sets := remove1 Creds_set (c_sets s)\<rparr>);
        cs \<leftarrow> c_cs s;
        if cs_service cs \<noteq> 0 then do {
          s \<leftarrow> service_destroy (cs_service cs) s;
          cs \<leftarrow> c_cs s;
          Some (set_cs (cs\<lparr>cs_service := 0\<rparr>) s)
        }
        else Some s
      })"

section \<open>The libraries\<close>

text \<open>The first user of a library makes it, the last one destroys it. With libstrongswan go the
  credential sets, the jobs and the scheduler.\<close>

definition library_init :: "cenv \<Rightarrow> charon \<Rightarrow> bool \<times> charon" where
  "library_init env s =
     (let s = cemit (Init_library ''strongswan'') s in (ce_init env (c_io s), s\<lparr>c_lib := c_lib s + 1\<rparr>))"

definition library_deinit :: "charon \<Rightarrow> charon" where
  "library_deinit s =
     (if c_lib s = 0 then s
      else if c_lib s > 1 then s\<lparr>c_lib := c_lib s - 1\<rparr>
      else cemit (Deinit_library ''strongswan'') (s\<lparr>c_lib := 0, c_sets := [], c_jobs := [], c_timers := []\<rparr>))"

definition libhydra_init :: "cenv \<Rightarrow> charon \<Rightarrow> bool \<times> charon" where
  "libhydra_init env s =
     (let s = cemit (Init_library ''hydra'') s in (ce_init env (c_io s), s\<lparr>c_hydra := c_hydra s + 1\<rparr>))"

definition libhydra_deinit :: "charon \<Rightarrow> charon" where
  "libhydra_deinit s =
     (if c_hydra s = 0 then s
      else if c_hydra s > 1 then s\<lparr>c_hydra := c_hydra s - 1\<rparr>
      else cemit (Deinit_library ''hydra'') (s\<lparr>c_hydra := 0\<rparr>))"

text \<open>libipsec has no counter: \<open>init\<close> always makes a new instance, and \<open>deinit\<close> without one is a
  fault.\<close>

definition libipsec_init :: "cenv \<Rightarrow> charon \<Rightarrow> bool \<times> charon" where
  "libipsec_init env s =
     (let s = cemit (Init_library ''ipsec'') s
      in (ce_init env (c_io s), s\<lparr>c_ipsec := True, c_inbound := None, c_outbound := False\<rparr>))"

definition libipsec_deinit :: "charon \<Rightarrow> charon option" where
  "libipsec_deinit s =
     (if \<not> c_ipsec s then None
      else Some (cemit (Deinit_library ''ipsec'') (s\<lparr>c_ipsec := False, c_inbound := None, c_outbound := False\<rparr>)))"

definition libcharon_init :: "cenv \<Rightarrow> charon \<Rightarrow> bool \<times> charon" where
  "libcharon_init env s =
     (let s = cemit (Init_library ''charon'') s in
      (ce_init env (c_io s),
       if c_daemon s = 0 then s\<lparr>c_daemon := 1, c_listeners := [], c_esp_cb := False\<rparr>
       else s\<lparr>c_daemon := c_daemon s + 1\<rparr>))"

text \<open>The daemon is destroyed: the IKE SAs are flushed while the bus still works, the threads are
  cancelled, which drops all jobs, and the plugins are unloaded.\<close>

definition libcharon_deinit :: "cenv \<Rightarrow> charon \<Rightarrow> charon option" where
  "libcharon_deinit env s =
     (if c_daemon s = 0 then Some s
      else if c_daemon s > 1 then Some (s\<lparr>c_daemon := c_daemon s - 1\<rparr>)
      else do {
        let s = cemit Flush_sas s;
        s \<leftarrow> bus_all env (ce_flushed env (c_io s)) s;
        let s = s\<lparr>c_jobs := [], c_timers := []\<rparr>;
        s \<leftarrow> (if c_registered s then do {
               s \<leftarrow> charonservice_register False s;
               Some (s\<lparr>c_registered := False\<rparr>)
             } else Some s);
        Some (cemit (Deinit_library ''charon'') (s\<lparr>c_listeners := [], c_esp_cb := False, c_daemon := 0\<rparr>))
      })"

text \<open>Loading the plugins may register the backend even if it fails as a whole.\<close>

definition charon_initialize :: "cenv \<Rightarrow> charon \<Rightarrow> (bool \<times> charon) option" where
  "charon_initialize env s = do {
     let s = cemit Load_plugins s;
     let (registered, ok) = ce_load env (c_io s);
     s \<leftarrow> (if registered then do {
            s \<leftarrow> charonservice_register True s;
            Some (s\<lparr>c_registered := True\<rparr>)
          } else Some s);
     Some (ok, s)
   }"

section \<open>Settings\<close>

definition options :: "string \<Rightarrow> (string \<times> string) list" where
  "options logfile =
     [(''charon.plugins.android_log.loglevel'', ''2''),
      (''charon.filelog.'' @ logfile @ ''.time_format'', ''%b %e %T''),
      (''charon.filelog.'' @ logfile @ ''.append'', ''no''),
      (''charon.filelog.'' @ logfile @ ''.flush_line'', ''yes''),
      (''charon.filelog.'' @ logfile @ ''.default'', ''2''),
      (''charon.retransmit_tries'', ''3''),
      (''charon.retransmit_timeout'', ''2.0''),
      (''charon.retransmit_base'', ''1.4''),
      (''charon.close_ike_on_child_failure'', ''yes''),
      (''charon.plugins.socket-default.set_source'', ''no''),
      (''charon.plugins.socket-default.use_ipv6'', ''no''),
      (''charon.install_virtual_ip'', ''no''),
      (''charon.plugins.kernel-netlink.roam_events'', ''no''),
      (''charon.interfaces_ignore'', ''lo, tun0, tun1, tun2, tun3, tun4''),
      (''charon.cisco_unity'', ''yes'')]"

definition set_options :: "string \<Rightarrow> charon \<Rightarrow> charon" where
  "set_options logfile s = foldl (\<lambda>s (k, v). cemit (Set_option k v) s) s (options logfile)"

section \<open>charonservice\<close>

definition charonservice_init :: "cenv \<Rightarrow> nat \<Rightarrow> charon \<Rightarrow> charon option" where
  "charonservice_init env tun_ctx s = do {
     let (creds, s) = android_creds_create s;
     let (jtunnel, s) = new_ref env s;
     (t, w) \<leftarrow> ref_get (c_world s) tun_ctx;
     Some (set_cs \<lparr>cs_creds = creds, cs_service = 0, cs_connectivity = False, cs_net = None,
         cs_jtunnel = jtunnel, cs_sockets = [], cs_tunnel_ctx = t\<rparr> (s\<lparr>c_world := w\<rparr>))
   }"

definition charonservice_deinit :: "cenv \<Rightarrow> charon \<Rightarrow> charon option" where
  "charonservice_deinit env s = do {
     s \<leftarrow> android_creds_destroy env s;
     cs \<leftarrow> c_cs s;
     let s = cemit (Java_unref (cs_jtunnel cs)) s;
     s \<leftarrow> (if cs_tunnel_ctx cs \<noteq> 0 then do {
            (_, w) \<leftarrow> ref_put (c_world s) (cs_tunnel_ctx cs);
            Some (s\<lparr>c_world := w\<rparr>)
          } else Some s);
     Some (s\<lparr>c_cs := None\<rparr>)
   }"

section \<open>The native methods\<close>

text \<open>The result -1 after a failure of libipsec becomes \<open>true\<close>, as the function returns \<open>bool\<close>.\<close>

definition initialize_library :: "cenv \<Rightarrow> string option \<Rightarrow> nat \<Rightarrow> charon \<Rightarrow> (bool \<times> charon) option" where
  "initialize_library env logfile tun_ctx s =
     (let (ok, s) = library_init env s in
      if \<not> ok then Some (False, library_deinit s)
      else
        let s = set_options (case logfile of None \<Rightarrow> ''(null)'' | Some l \<Rightarrow> l) s;
            s = free_string logfile s;
            (ok, s) = libhydra_init env s in
        if \<not> ok then Some (False, library_deinit (libhydra_deinit s))
        else
          let (ok, s) = libipsec_init env s in
          if \<not> ok then do {
            s \<leftarrow> libipsec_deinit s;
            Some (True, library_deinit (libhydra_deinit s))
          }
          else
            let (ok, s) = libcharon_init env s in
            if \<not> ok then do {
              s \<leftarrow> libcharon_deinit env s;
              s \<leftarrow> libipsec_deinit s;
              Some (False, library_deinit (libhydra_deinit s))
            }
            else do {
              s \<leftarrow> charonservice_init env tun_ctx (cemit Load_loggers s);
              (ok, s) \<leftarrow> charon_initialize env s;
              if \<not> ok then do {
                s \<leftarrow> libcharon_deinit env s;
                s \<leftarrow> charonservice_deinit env s;
                s \<leftarrow> libipsec_deinit s;
                Some (False, library_deinit (libhydra_deinit s))
              }
              else Some (True, cemit Start s)
            })"

definition deinitialize_library :: "cenv \<Rightarrow> charon \<Rightarrow> charon option" where
  "deinitialize_library env s = do {
     s \<leftarrow> libcharon_deinit env s;
     s \<leftarrow> charonservice_deinit env s;
     s \<leftarrow> libipsec_deinit s;
     Some (library_deinit (libhydra_deinit s))
   }"

definition initialize_tunnel ::
  "cenv \<Rightarrow> string option \<Rightarrow> string option \<Rightarrow> string option \<Rightarrow> string option \<Rightarrow> charon \<Rightarrow> charon option" where
  "initialize_tunnel env type gateway username password s = do {
     s \<leftarrow> creds_clear env s;
     cs \<leftarrow> c_cs s;
     s \<leftarrow> (if cs_service cs \<noteq> 0 then service_destroy (cs_service cs) s else Some s);
     let (a, s) = android_service_create type gateway username password s;
     cs \<leftarrow> c_cs s;
     Some (set_cs (cs\<lparr>cs_service := a\<rparr>) s)
   }"

definition notify_library :: "cenv \<Rightarrow> bool \<Rightarrow> charon \<Rightarrow> charon option" where
  "notify_library = network_changed"

section \<open>The running daemon\<close>

text \<open>What can happen while the daemon runs: a message on the bus, a job, a timer, packets of
  the ESP processor and the receiver, a look-up of trusted certificates, a DNS attribute, the
  native methods, and the release of the reference that Java holds to the tunnel.\<close>

datatype charon_op =
    Op_message bus_event
  | Op_job nat
  | Op_timer nat
  | Op_plain bytes
  | Op_esp_out bytes
  | Op_esp_in bytes
  | Op_certs cert_type bool
  | Op_attribute attr_type bytes
  | Op_initiate "string option" "string option" "string option" "string option"
  | Op_network bool
  | Op_release

text \<open>A worker takes a job from the queue and runs it; a job that is to be repeated is queued
  again.\<close>

definition run_job :: "cenv \<Rightarrow> job \<Rightarrow> charon \<Rightarrow> charon option" where
  "run_job env j s =
     (case j of
        Initiate a \<Rightarrow> initiate env a s
      | Handle_plain a \<Rightarrow> do {
          (fd, s) \<leftarrow> handle_plain_fd a s;
          Some (case fd of None \<Rightarrow> s | Some fd \<Rightarrow> s\<lparr>c_jobs := c_jobs s @ [Plain_wait a fd]\<rparr>)
        }
      | Plain_wait a fd \<Rightarrow>
          let (r, s) = handle_plain_read env fd s
          in Some (if r = JOB_REQUEUE_NONE then s else s\<lparr>c_jobs := c_jobs s @ [Handle_plain a]\<rparr>)
      | Roam_event \<Rightarrow> roam_event env s)"

definition remove_nth :: "nat \<Rightarrow> 'a list \<Rightarrow> 'a list" where
  "remove_nth i xs = take i xs @ drop (Suc i) xs"

definition charon_do :: "cenv \<Rightarrow> charon_op \<Rightarrow> charon \<Rightarrow> charon option" where
  "charon_do env opn s =
     (case opn of
        Op_message e \<Rightarrow> bus_dispatch env e s
      | Op_job i \<Rightarrow>
          if i < length (c_jobs s) then run_job env (c_jobs s ! i) (s\<lparr>c_jobs := remove_nth i (c_jobs s)\<rparr>)
          else Some s
      | Op_timer i \<Rightarrow>
          if i < length (c_timers s)
          then Some (s\<lparr>c_timers := remove_nth i (c_timers s), c_jobs := c_jobs s @ [Roam_event]\<rparr>)
          else Some s
      | Op_plain packet \<Rightarrow> (case c_inbound s of None \<Rightarrow> Some s | Some a \<Rightarrow> deliver_plain a packet s)
      | Op_esp_out packet \<Rightarrow> Some (if c_outbound s then send_esp packet s else cemit Destroy_packet s)
      | Op_esp_in packet \<Rightarrow> Some (if c_esp_cb s then receiver_esp_cb packet s else cemit Destroy_packet s)
      | Op_certs t trusted \<Rightarrow> do {
          (certs, s) \<leftarrow> create_cert_enumerator env t (\<lambda>_. True) trusted s;
          if certs = None then Some s else cert_enumerator_destroy s
        }
      | Op_attribute t d \<Rightarrow> map_option snd (attr_handle env t d s)
      | Op_initiate type gateway username password \<Rightarrow>
          initialize_tunnel env type gateway username password s
      | Op_network d \<Rightarrow> notify_library env d s
      | Op_release \<Rightarrow> do {
          cs \<leftarrow> c_cs s;
          w \<leftarrow> deinit_tun (c_world s) (cs_tunnel_ctx cs);
          Some (s\<lparr>c_world := w\<rparr>)
        })"

text \<open>What Java promises: it starts one connection and passes its strings, and releases only
  a reference that it holds.\<close>

definition charon_allowed :: "charon_op \<Rightarrow> charon \<Rightarrow> bool" where
  "charon_allowed opn s =
     (case opn of
        Op_initiate type gateway username password \<Rightarrow>
          type \<noteq> None \<and> gateway \<noteq> None \<and> password \<noteq> None \<and>
          (case c_cs s of None \<Rightarrow> False | Some cs \<Rightarrow> cs_service cs = 0)
      | Op_release \<Rightarrow>
          (case c_cs s of None \<Rightarrow> False | Some cs \<Rightarrow> 1 < refs (c_world s) (cs_tunnel_ctx cs))
      | _ \<Rightarrow> True)"

text \<open>A run; operations that are not allowed do not happen.\<close>

fun charon_run :: "cenv \<Rightarrow> charon_op list \<Rightarrow> charon \<Rightarrow> charon option" where
  "charon_run env [] s = Some s"
| "charon_run env (opn # ops) s =
     (if charon_allowed opn s then do { s \<leftarrow> charon_do env opn s; charon_run env ops s }
      else charon_run env ops s)"

end
