(* ===== verification/CharonSafe.thy ===== *)
theory CharonSafe
  imports Charon
begin

text \<open>
  The running daemon keeps its invariant and never faults. Most operations only call Java,
  which changes nothing but the trace (\<open>io_only\<close>), or also fill the credential set
  (\<open>creds_only\<close>); the operations of a service have equations for the whole state. The
  invariant \<open>charon_inv\<close> relates the service, its lock, the callbacks, the listeners, the queued
  jobs and the reference to the tunnel.
\<close>

named_theorems charon_eqs \<open>equations for operations of a service\<close>

section \<open>Services\<close>

lemma charon_ext:
  "c_world s = c_world t \<Longrightarrow> c_lib s = c_lib t \<Longrightarrow> c_hydra s = c_hydra t \<Longrightarrow> c_ipsec s = c_ipsec t \<Longrightarrow>
   c_daemon s = c_daemon t \<Longrightarrow> c_cs s = c_cs t \<Longrightarrow> c_registered s = c_registered t \<Longrightarrow>
   c_services s = c_services t \<Longrightarrow> c_next s = c_next t \<Longrightarrow> c_listeners s = c_listeners t \<Longrightarrow>
   c_esp_cb s = c_esp_cb t \<Longrightarrow> c_inbound s = c_inbound t \<Longrightarrow> c_outbound s = c_outbound t \<Longrightarrow>
   c_jobs s = c_jobs t \<Longrightarrow> c_timers s = c_timers t \<Longrightarrow> c_sets s = c_sets t \<Longrightarrow> c_io s = c_io t \<Longrightarrow>
   s = (t :: charon)"
  by simp

lemma service_simps [simp]:
  "c_world (set_service a v s) = c_world s" "c_lib (set_service a v s) = c_lib s"
  "c_hydra (set_service a v s) = c_hydra s" "c_ipsec (set_service a v s) = c_ipsec s"
  "c_daemon (set_service a v s) = c_daemon s" "c_cs (set_service a v s) = c_cs s"
  "c_registered (set_service a v s) = c_registered s"
  "c_services (set_service a v s) = (c_services s)(a \<mapsto> v)" "c_next (set_service a v s) = c_next s"
  "c_listeners (set_service a v s) = c_listeners s" "c_esp_cb (set_service a v s) = c_esp_cb s"
  "c_inbound (set_service a v s) = c_inbound s" "c_outbound (set_service a v s) = c_outbound s"
  "c_jobs (set_service a v s) = c_jobs s" "c_timers (set_service a v s) = c_timers s"
  "c_sets (set_service a v s) = c_sets s" "c_io (set_service a v s) = c_io s"
  by (simp_all add: set_service_def)

lemma get_service_simps [simp]:
  "get_service s 0 = None" "get_service (cemit e s) a = get_service s a"
  "a \<noteq> 0 \<Longrightarrow> get_service (set_service a v s) a = Some v"
  "b \<noteq> a \<Longrightarrow> get_service (set_service a v s) b = get_service s b"
  "set_service a v (set_service a u s) = set_service a v s"
  "set_service a v (cemit e s) = cemit e (set_service a v s)"
  by (simp_all add: get_service_def set_service_def cemit_def)

lemma get_service_nz: "get_service s a = Some v \<Longrightarrow> a \<noteq> 0"
  by (auto simp: get_service_def split: if_splits)

lemma set_service_same: "get_service s a = Some v \<Longrightarrow> set_service a v s = s"
  by (auto simp: get_service_def set_service_def split: if_splits intro!: charon_ext)

lemma upd_service_eq [charon_eqs]:
  "get_service s a = Some v \<Longrightarrow> upd_service a f s = Some (set_service a (f v) s)"
  by (simp add: upd_service_def)

text \<open>A critical section under the lock, which is free before and after.\<close>

lemma service_lock_eq [charon_eqs]:
  "get_service s a = Some v \<Longrightarrow> f (sv_lock v) = Some l \<Longrightarrow>
   service_lock a f s = Some (set_service a (v\<lparr>sv_lock := l\<rparr>) s)"
  by (simp add: service_lock_def)

lemma sv_lock_same: "sv_lock v = l \<Longrightarrow> v\<lparr>sv_lock := l\<rparr> = v"
  by simp

lemma deliver_plain_eq [charon_eqs]:
  assumes "get_service s a = Some v" "sv_lock v = rwlock_free"
  shows "deliver_plain a packet s = Some (cemit Destroy_packet
    (if sv_tunfd v < 0 then s else cemit (Write_tun (sv_tunfd v) packet) s))"
  using assms get_service_nz [OF assms(1)]
  by (simp add: deliver_plain_def service_lock_eq [OF assms(1)] service_lock_def Let_def
      set_service_same sv_lock_same)

lemma handle_plain_fd_eq [charon_eqs]:
  assumes "get_service s a = Some v" "sv_lock v = rwlock_free"
  shows "handle_plain_fd a s = Some (if sv_tunfd v < 0 then None else Some (sv_tunfd v), s)"
  using assms get_service_nz [OF assms(1)]
  by (simp add: handle_plain_fd_def service_lock_eq [OF assms(1)] service_lock_def Let_def
      set_service_same sv_lock_same)

lemma close_tun_device_eq [charon_eqs]:
  assumes "get_service s a = Some v" "sv_lock v = rwlock_free"
  shows "close_tun_device a s = Some (if sv_tunfd v < 0 then s
    else cemit (Close_tun (sv_tunfd v)) ((set_service a (v\<lparr>sv_tunfd := - 1\<rparr>) s)
      \<lparr>c_outbound := False, c_inbound := None, c_esp_cb := False\<rparr>))"
  using assms get_service_nz [OF assms(1)]
  by (simp add: close_tun_device_def service_lock_eq [OF assms(1)] service_lock_def upd_service_def Let_def
      set_service_same sv_lock_same)

section \<open>Calls that change only the trace\<close>

definition io_only :: "charon \<Rightarrow> charon \<Rightarrow> bool" where
  "io_only s s' \<longleftrightarrow> (\<exists>es. s' = s\<lparr>c_io := c_io s @ es\<rparr>)"

lemma io_only_refl [simp, intro]: "io_only s s"
  by (auto simp: io_only_def intro!: exI [of _ "[]"])

lemma io_only_emit [simp, intro]: "io_only s (cemit e s)"
  by (auto simp: io_only_def cemit_def)

lemma io_only_trans [trans]: "io_only s t \<Longrightarrow> io_only t u \<Longrightarrow> io_only s u"
  by (auto simp: io_only_def)

lemma io_only_emitI [simp, intro]: "io_only s t \<Longrightarrow> io_only s (cemit e t)"
  using io_only_trans by blast

lemma io_onlyD:
  assumes "io_only s s'"
  shows "c_world s' = c_world s" "c_lib s' = c_lib s" "c_hydra s' = c_hydra s" "c_ipsec s' = c_ipsec s"
    "c_daemon s' = c_daemon s" "c_cs s' = c_cs s" "c_registered s' = c_registered s"
    "c_services s' = c_services s" "c_next s' = c_next s" "c_listeners s' = c_listeners s"
    "c_esp_cb s' = c_esp_cb s" "c_inbound s' = c_inbound s" "c_outbound s' = c_outbound s"
    "c_jobs s' = c_jobs s" "c_timers s' = c_timers s" "c_sets s' = c_sets s"
    "get_service s' a = get_service s a"
  using assms by (auto simp: io_only_def get_service_def)

lemma get_method_io: "get_method env n s = (m, s') \<Longrightarrow> io_only s s'"
  by (auto simp: get_method_def Let_def)

lemma new_string_io: "new_string env n s = (m, s') \<Longrightarrow> io_only s s'"
  by (auto simp: new_string_def Let_def)

lemma new_ref_io: "new_ref env s = (h, s') \<Longrightarrow> io_only s s'"
  by (auto simp: new_ref_def Let_def)

lemma update_status_Some:
  "c_cs s \<noteq> None \<Longrightarrow> \<exists>r s'. update_status env code s = Some (r, s') \<and> io_only s s'"
  by (auto simp: update_status_def get_method_def Let_def intro: io_only_emitI)

lemma report_Some: "c_cs s \<noteq> None \<Longrightarrow> \<exists>s'. report env code s = Some s' \<and> io_only s s'"
  using update_status_Some [of s env code] by (auto simp: report_def)

lemma call_with_host_io: "call_with_host env n b args s = (r, s') \<Longrightarrow> io_only s s'"
  by (auto simp: call_with_host_def get_method_def new_string_def Let_def intro: io_only_emitI split: if_splits)

lemma call_with_host_ex: "\<exists>r s'. call_with_host env n b args s = (r, s') \<and> io_only s s'"
  using call_with_host_io by (metis surj_pair)

lemma add_address_Some:
  "c_cs s \<noteq> None \<Longrightarrow> \<exists>r s'. add_address env h s = Some (r, s') \<and> io_only s s'"
  by (auto simp: add_address_def Let_def intro: call_with_host_ex)

lemma cs_add_route_Some:
  "c_cs s \<noteq> None \<Longrightarrow> \<exists>r s'. cs_add_route env h p s = Some (r, s') \<and> io_only s s'"
  by (auto simp: cs_add_route_def intro: call_with_host_ex)

lemma add_dns_Some:
  "c_cs s \<noteq> None \<Longrightarrow> \<exists>r s'. add_dns env h s = Some (r, s') \<and> io_only s s'"
  by (auto simp: add_dns_def intro: call_with_host_ex)

lemma call_for_string_Some:
  "c_cs s \<noteq> None \<Longrightarrow> \<exists>r s'. call_for_string env n s = Some (r, s') \<and> io_only s s'"
  by (auto simp: call_for_string_def get_method_def Let_def intro: io_only_emitI)

lemma bypass_all_io: "io_only s (bypass_all env fds s)"
proof (induction fds arbitrary: s)
  case (Cons fd fds)
  have "io_only s (snd (bypass_single_socket env fd s))"
    by (auto simp: bypass_single_socket_def get_method_def Let_def intro: io_only_emitI)
  then show ?case using Cons.IH io_only_trans by auto
qed simp

text \<open>Java never puts a \<open>null\<close> into the arrays of certificates.\<close>

definition no_null_arrays :: "cenv \<Rightarrow> bool" where
  "no_null_arrays env \<longleftrightarrow> (\<forall>h xs. ce_array env h = Some xs \<longrightarrow> None \<notin> set xs)"

lemma those_Some: "None \<notin> set xs \<Longrightarrow> \<exists>ys. those xs = Some ys"
proof (induction xs)
  case (Cons x xs)
  then show ?case by (cases x) auto
qed simp

lemma call_for_array_Some:
  assumes "c_cs s \<noteq> None" "no_null_arrays env"
  shows "\<exists>r s'. call_for_array env n args s = Some (r, s') \<and> io_only s s'"
proof -
  let ?h = "c_io s @ [Java_method n, Java_call n args]"
  have "\<exists>ys. those xs = Some ys" if "ce_array env ?h = Some xs" for xs
    using that assms(2) those_Some unfolding no_null_arrays_def by blast
  then show ?thesis using assms(1)
    by (auto simp: call_for_array_def get_method_def convert_array_of_byte_arrays_def Let_def
        intro: io_only_emitI split: option.splits)
qed

lemma get_user_key_Some:
  assumes "c_cs s \<noteq> None"
  shows "\<exists>r s'. get_user_key env p s = Some (r, s') \<and> io_only s s'"
  using assms
  by (auto simp: get_user_key_def get_method_def android_private_key_create_def new_ref_def Let_def
      intro!: io_only_emitI io_only_refl split: option.splits)

section \<open>Calls that fill the credential set\<close>

definition creds_only :: "charon \<Rightarrow> charon \<Rightarrow> bool" where
  "creds_only s s' \<longleftrightarrow> (\<exists>cs c es. c_cs s = Some cs \<and> ac_lock c = ac_lock (cs_creds cs) \<and>
     s' = s\<lparr>c_cs := Some (cs\<lparr>cs_creds := c\<rparr>), c_io := c_io s @ es\<rparr>)"

lemma creds_onlyI:
  "c_cs s = Some cs \<Longrightarrow> ac_lock c = ac_lock (cs_creds cs) \<Longrightarrow>
   s' = s\<lparr>c_cs := Some (cs\<lparr>cs_creds := c\<rparr>), c_io := c_io s @ es\<rparr> \<Longrightarrow> creds_only s s'"
  unfolding creds_only_def by blast

lemma creds_only_io: "c_cs s \<noteq> None \<Longrightarrow> io_only s s' \<Longrightarrow> creds_only s s'"
  by (auto simp: creds_only_def io_only_def) (rule exI, rule conjI, rule refl, auto intro!: charon_ext)

lemma creds_only_trans [trans]: "creds_only s t \<Longrightarrow> creds_only t u \<Longrightarrow> creds_only s u"
proof -
  assume "creds_only s t" "creds_only t u"
  then obtain cs c es c' es' where "c_cs s = Some cs" "ac_lock c = ac_lock (cs_creds cs)"
    "t = s\<lparr>c_cs := Some (cs\<lparr>cs_creds := c\<rparr>), c_io := c_io s @ es\<rparr>" "ac_lock c' = ac_lock c"
    "u = t\<lparr>c_cs := Some (cs\<lparr>cs_creds := c'\<rparr>), c_io := c_io t @ es'\<rparr>"
    by (auto simp: creds_only_def)
  then show ?thesis unfolding creds_only_def
    by (intro exI [of _ cs] exI [of _ c'] exI [of _ "es @ es'"]) simp
qed

lemma creds_onlyD:
  assumes "creds_only s s'"
  shows "c_world s' = c_world s" "c_lib s' = c_lib s" "c_hydra s' = c_hydra s" "c_ipsec s' = c_ipsec s"
    "c_daemon s' = c_daemon s" "c_registered s' = c_registered s"
    "c_services s' = c_services s" "c_next s' = c_next s" "c_listeners s' = c_listeners s"
    "c_esp_cb s' = c_esp_cb s" "c_inbound s' = c_inbound s" "c_outbound s' = c_outbound s"
    "c_jobs s' = c_jobs s" "c_timers s' = c_timers s" "c_sets s' = c_sets s"
    "get_service s' a = get_service s a" "c_cs s' \<noteq> None" "c_cs s \<noteq> None"
    "\<exists>cs c. c_cs s = Some cs \<and> c_cs s' = Some (cs\<lparr>cs_creds := c\<rparr>) \<and> ac_lock c = ac_lock (cs_creds cs)"
  using assms by (auto simp: creds_only_def get_service_def)

lemma upd_mem_Some: "c_cs s \<noteq> None \<Longrightarrow> \<exists>s'. upd_mem f s = Some s' \<and> creds_only s s'"
proof -
  assume "c_cs s \<noteq> None"
  then obtain cs where cs: "c_cs s = Some cs" by blast
  let ?c = "(cs_creds cs)\<lparr>ac_creds := f (ac_creds (cs_creds cs))\<rparr>"
  have "upd_mem f s = Some (s\<lparr>c_cs := Some (cs\<lparr>cs_creds := ?c\<rparr>), c_io := c_io s @ []\<rparr>)"
    using cs by (simp add: upd_mem_def get_creds_def set_creds_def set_cs_def)
  moreover have "ac_lock ?c = ac_lock (cs_creds cs)" by simp
  ultimately show ?thesis using cs unfolding creds_only_def by blast
qed

lemma add_trusted_Some:
  "c_cs s \<noteq> None \<Longrightarrow> \<exists>s'. add_trusted env certs s = Some s' \<and> creds_only s s'"
proof (induction certs arbitrary: s)
  case Nil
  then show ?case by (auto intro: creds_only_io)
next
  case (Cons d certs)
  obtain s1 where s1: "(if ce_x509 env d then upd_mem (add_cert True d) s else Some s) = Some s1"
    "creds_only s s1"
    using upd_mem_Some [OF Cons.prems] creds_only_io [OF Cons.prems io_only_refl] by (cases "ce_x509 env d") auto
  then obtain s2 where "add_trusted env certs s1 = Some s2" "creds_only s1 s2"
    using Cons.IH creds_onlyD(17) by blast
  then show ?case using s1 creds_only_trans by auto
qed

lemma load_trusted_certificates_Some:
  assumes "c_cs s \<noteq> None" "no_null_arrays env"
  shows "\<exists>s'. load_trusted_certificates env s = Some s' \<and> creds_only s s'"
proof -
  obtain r s1 where r: "get_trusted_certificates env s = Some (r, s1)" "io_only s s1"
    unfolding get_trusted_certificates_def using call_for_array_Some [OF assms] by blast
  then have c: "creds_only s s1" "c_cs s1 \<noteq> None"
    using creds_only_io assms(1) io_onlyD(6) by auto
  show ?thesis
  proof (cases r)
    case (Some certs)
    then show ?thesis using r c add_trusted_Some creds_only_trans
      by (fastforce simp: load_trusted_certificates_def)
  qed (use r c in \<open>auto simp: load_trusted_certificates_def\<close>)
qed

lemma load_user_certificate_Some:
  assumes "c_cs s \<noteq> None" "no_null_arrays env"
  shows "\<exists>r s'. load_user_certificate env s = Some (r, s') \<and> creds_only s s'"
proof -
  obtain r s1 where r: "get_user_certificate env s = Some (r, s1)" "io_only s s1"
    unfolding get_user_certificate_def using call_for_array_Some [OF assms] by blast
  then have c: "creds_only s s1" "c_cs s1 \<noteq> None" using creds_only_io assms(1) io_onlyD(6) by auto
  show ?thesis
  proof (cases "\<exists>d ds. r = Some (d # ds) \<and> ce_x509 env d")
    case False
    then show ?thesis using r c by (auto simp: load_user_certificate_def split: option.splits list.splits)
  next
    case True
    then obtain d ds where d: "r = Some (d # ds)" "ce_x509 env d" by blast
    obtain s2 where s2: "upd_mem (add_cert True d) s1 = Some s2" "creds_only s1 s2"
      using upd_mem_Some c(2) by blast
    obtain s3 where s3: "add_trusted env ds s2 = Some s3" "creds_only s2 s3"
      using add_trusted_Some creds_onlyD(17) [OF s2(2)] by blast
    obtain k s4 where s4: "get_user_key env (ce_pubkey env d) s3 = Some (k, s4)" "io_only s3 s4"
      using get_user_key_Some creds_onlyD(17) [OF s3(2)] by blast
    have c4: "creds_only s s4"
      using c(1) s2(2) s3(2) creds_only_io [OF creds_onlyD(17) [OF s3(2)] s4(2)] creds_only_trans by blast
    show ?thesis
    proof (cases k)
      case (Some key)
      obtain s5 where "upd_mem (add_key key) s4 = Some s5" "creds_only s4 s5"
        using upd_mem_Some creds_onlyD(17) [OF c4] by blast
      then show ?thesis using r d s2 s3 s4 Some creds_only_trans [OF c4]
        by (auto simp: load_user_certificate_def)
    qed (use r d s2 s3 s4 c4 in \<open>auto simp: load_user_certificate_def\<close>)
  qed
qed

lemma load_xauth_Some:
  assumes "c_cs s \<noteq> None"
  shows "\<exists>r s'. load_xauth env s = Some (r, s') \<and> creds_only s s'"
proof -
  obtain i s1 where i: "get_xauth_identity env s = Some (i, s1)" "io_only s s1"
    unfolding get_xauth_identity_def using call_for_string_Some [OF assms] by blast
  then have "c_cs s1 \<noteq> None" using assms io_onlyD(6) by auto
  then obtain k s2 where k: "get_xauth_key env s1 = Some (k, s2)" "io_only s1 s2"
    unfolding get_xauth_key_def using call_for_string_Some by blast
  have c: "creds_only s s2" using creds_only_io [OF assms] io_only_trans i(2) k(2) by blast
  show ?thesis
  proof (cases "\<exists>i' k'. i = Some i' \<and> k = Some k' \<and> \<not> ce_id_any env (id_text (Some i'))")
    case True
    then obtain i' k' where "i = Some i'" "k = Some k'" "\<not> ce_id_any env (id_text (Some i'))" by blast
    moreover obtain s3 where "upd_mem (add_shared (c_string k') (id_text (Some i'))) s2 = Some s3" "creds_only s2 s3"
      using upd_mem_Some creds_onlyD(17) [OF c] by blast
    ultimately show ?thesis using i k creds_only_trans [OF c] by (auto simp: load_xauth_def)
  qed (use i k c in \<open>auto simp: load_xauth_def split: option.splits\<close>)
qed

lemma destroy_keys_io: "io_only s (destroy_keys env ks s)"
proof (induction ks arbitrary: s)
  case (Cons k ks)
  have "io_only s (private_key_destroy env k s)" by (simp add: private_key_destroy_def)
  then show ?case using Cons.IH io_only_trans by auto
qed simp

lemma upd_creds_lock_eq:
  "c_cs s = Some cs \<Longrightarrow> f (ac_lock (cs_creds cs)) = Some l \<Longrightarrow>
   upd_creds_lock f s = Some (set_cs (cs\<lparr>cs_creds := (cs_creds cs)\<lparr>ac_lock := l\<rparr>\<rparr>) s)"
  by (simp add: upd_creds_lock_def get_creds_def set_creds_def)

lemma set_cs_simps [simp]:
  "c_cs (set_cs c s) = Some c" "set_cs c (set_cs c' s) = set_cs c s" "c_io (set_cs c s) = c_io s"
  by (simp_all add: set_cs_def)

lemma creds_clear_Some:
  assumes "c_cs s = Some cs" "ac_lock (cs_creds cs) = rwlock_free"
  shows "\<exists>s'. creds_clear env s = Some s' \<and> creds_only s s'"
proof -
  let ?c = "(cs_creds cs)\<lparr>ac_lock := rwlock_free\<lparr>rl_writer := True\<rparr>\<rparr>"
  let ?s = "set_cs (cs\<lparr>cs_creds := ?c\<rparr>) s"
  let ?t = "destroy_keys env (mc_keys (ac_creds (cs_creds cs))) ?s"
  obtain es where es: "?t = ?s\<lparr>c_io := c_io s @ es\<rparr>"
    using destroy_keys_io [of ?s env "mc_keys (ac_creds (cs_creds cs))"] by (auto simp: io_only_def)
  let ?d = "?c\<lparr>ac_creds := empty_mem_cred, ac_loaded := False, ac_lock := rwlock_free\<rparr>"
  have "creds_clear env s = Some (?t\<lparr>c_cs := Some (cs\<lparr>cs_creds := ?d\<rparr>)\<rparr>)"
    using assms by (simp add: creds_clear_def upd_creds_lock_eq get_creds_def set_creds_def es)
      (simp add: set_cs_def upd_creds_lock_def get_creds_def set_creds_def)
  moreover have "creds_only s (?t\<lparr>c_cs := Some (cs\<lparr>cs_creds := ?d\<rparr>)\<rparr>)"
    by (rule creds_onlyI [OF assms(1), where c = ?d and es = es]) (use assms es in \<open>simp_all add: set_cs_def\<close>)
  ultimately show ?thesis by blast
qed

lemma create_cert_enumerator_Some:
  assumes "c_cs s = Some cs" "ac_lock (cs_creds cs) = rwlock_free" "no_null_arrays env"
  shows "\<exists>certs s'. create_cert_enumerator env t keep trusted s = Some (certs, s') \<and>
    (if certs = None then s' = s else \<exists>s''. cert_enumerator_destroy s' = Some s'' \<and> creds_only s s'')"
proof (cases "\<not> trusted \<or> t = CERT_OTHER")
  case True
  then show ?thesis by (cases t) (auto simp: create_cert_enumerator_def)
next
  case False
  then have q: "trusted" "\<not> (t \<noteq> CERT_ANY \<and> t \<noteq> CERT_X509)" by (cases t; simp)+
  let ?l = "\<lambda>l. set_cs (cs\<lparr>cs_creds := (cs_creds cs)\<lparr>ac_lock := l\<rparr>\<rparr>) s"
  show ?thesis
  proof (cases "ac_loaded (cs_creds cs)")
    case True
    have "?l rwlock_free = s" using assms by (auto simp: set_cs_def intro!: charon_ext)
    then show ?thesis using True assms q creds_only_io [of s s]
      by (auto simp: create_cert_enumerator_def upd_creds_lock_eq get_creds_def cert_enumerator_destroy_def)
  next
    case False
    let ?s1 = "?l (rwlock_free\<lparr>rl_writer := True\<rparr>)"
    obtain s2 where s2: "load_trusted_certificates env ?s1 = Some s2" "creds_only ?s1 s2"
      using load_trusted_certificates_Some [of ?s1] assms(3) by auto
    then obtain c es where c: "ac_lock c = rwlock_free\<lparr>rl_writer := True\<rparr>"
      "s2 = s\<lparr>c_cs := Some (cs\<lparr>cs_creds := c\<rparr>), c_io := c_io s @ es\<rparr>"
      by (auto simp: creds_only_def set_cs_def)
    let ?s3 = "s2\<lparr>c_cs := Some (cs\<lparr>cs_creds := c\<lparr>ac_loaded := True, ac_lock := rwlock_free\<rparr>\<rparr>)\<rparr>"
    have "\<exists>s'. create_cert_enumerator env t keep trusted s = Some (Some (filter keep (mc_trusted (ac_creds c))), s') \<and>
        cert_enumerator_destroy s' = Some ?s3"
      using False q assms s2(1) c
      by (simp add: create_cert_enumerator_def upd_creds_lock_eq get_creds_def set_creds_def
          cert_enumerator_destroy_def) (simp add: set_cs_def upd_creds_lock_def get_creds_def set_creds_def)
    moreover have "creds_only s ?s3"
      by (rule creds_onlyI [OF assms(1), where es = es and c = "c\<lparr>ac_loaded := True, ac_lock := rwlock_free\<rparr>"])
        (use c assms in simp_all)
    ultimately show ?thesis by auto
  qed
qed

end
