(* ===== verification/CharonInv.thy ===== *)
theory CharonInv
  imports CharonSafe
begin

text \<open>
  The invariant of the running daemon and its preservation. \<open>keeps\<close> is what every handler
  establishes; \<open>safe_handler\<close> lifts it over the listeners of the bus.
\<close>

section \<open>The invariant\<close>

definition service_ok :: "int option \<Rightarrow> android_service \<Rightarrow> bool" where
  "service_ok fd v \<longleftrightarrow> sv_lock v = rwlock_free \<and> sv_type v \<noteq> None \<and> sv_gateway v \<noteq> None \<and>
     sv_password v \<noteq> None \<and> (sv_tunfd v = - 1 \<or> 0 \<le> sv_tunfd v \<and> fd = Some (sv_tunfd v))"

definition device_open :: "charon \<Rightarrow> nat \<Rightarrow> bool" where
  "device_open s a \<longleftrightarrow> (case get_service s a of None \<Rightarrow> False | Some v \<Rightarrow> 0 \<le> sv_tunfd v)"

definition job_of :: "job \<Rightarrow> nat option" where
  "job_of j = (case j of Initiate a \<Rightarrow> Some a | Handle_plain a \<Rightarrow> Some a | Plain_wait a fd \<Rightarrow> Some a
     | Roam_event \<Rightarrow> None)"

definition services_ok :: "int option \<Rightarrow> nat \<Rightarrow> charon \<Rightarrow> bool" where
  "services_ok fd a s \<longleftrightarrow>
     (\<forall>b v. get_service s b = Some v \<longrightarrow> b = a \<and> service_ok fd v) \<and>
     (a \<noteq> 0 \<longrightarrow> get_service s a \<noteq> None) \<and>
     (c_listeners s = [] \<or> a \<noteq> 0 \<and> c_listeners s = [a]) \<and>
     c_inbound s = (if device_open s a then Some a else None) \<and>
     c_esp_cb s = device_open s a \<and> c_outbound s = device_open s a \<and>
     (\<forall>j\<in>set (c_jobs s). job_of j \<noteq> None \<longrightarrow> a \<noteq> 0 \<and> job_of j = Some a)"

text \<open>The part that no handler of a service changes.\<close>

definition core_ok :: "charonservice \<Rightarrow> charon \<Rightarrow> bool" where
  "core_ok cs s \<longleftrightarrow> c_cs s = Some cs \<and> cs_net cs \<noteq> None \<and> cs_connectivity cs \<and>
     ac_lock (cs_creds cs) = rwlock_free \<and> c_registered s \<and>
     wf_tuns (c_world s) \<and> 0 < refs (c_world s) (cs_tunnel_ctx cs) \<and>
     (\<exists>fd. get_remote_fd (c_world s) (cs_tunnel_ctx cs) = Some fd \<and> - 1 \<le> fd)"

definition charon_inv :: "charon \<Rightarrow> bool" where
  "charon_inv s \<longleftrightarrow> (\<exists>cs. core_ok cs s \<and>
     services_ok (get_remote_fd (c_world s) (cs_tunnel_ctx cs)) (cs_service cs) s)"

text \<open>What a handler guarantees: the invariant, no service appears or goes away, and the
  libraries, sets and the state of the tunnels are left alone.\<close>

definition keeps :: "charon \<Rightarrow> charon \<Rightarrow> bool" where
  "keeps s s' \<longleftrightarrow> charon_inv s' \<and> (\<forall>b. get_service s' b = None \<longleftrightarrow> get_service s b = None) \<and>
     c_world s' = c_world s \<and> c_lib s' = c_lib s \<and> c_hydra s' = c_hydra s \<and> c_ipsec s' = c_ipsec s \<and>
     c_daemon s' = c_daemon s \<and> c_sets s' = c_sets s \<and> c_next s' = c_next s \<and>
     map_option (\<lambda>cs. (cs_tunnel_ctx cs, cs_service cs)) (c_cs s') =
     map_option (\<lambda>cs. (cs_tunnel_ctx cs, cs_service cs)) (c_cs s)"

lemma keeps_trans [trans]: "keeps s t \<Longrightarrow> keeps t u \<Longrightarrow> keeps s u"
  by (simp add: keeps_def)

lemma keeps_refl: "charon_inv s \<Longrightarrow> keeps s s"
  by (simp add: keeps_def)

lemma keeps_inv: "keeps s t \<Longrightarrow> charon_inv t"
  by (simp add: keeps_def)

lemma charon_inv_cs: "charon_inv s \<Longrightarrow> c_cs s \<noteq> None"
  by (auto simp: charon_inv_def core_ok_def)

lemma keeps_cs: "keeps s t \<Longrightarrow> c_cs t \<noteq> None"
  using keeps_inv charon_inv_cs by blast

lemma keeps_service: "keeps s t \<Longrightarrow> get_service s a = Some v \<Longrightarrow> \<exists>v'. get_service t a = Some v'"
  by (force simp: keeps_def)

lemma keepsI:
  assumes "core_ok cs s" "core_ok cs' s'" "cs_tunnel_ctx cs' = cs_tunnel_ctx cs" "cs_service cs' = cs_service cs"
    "services_ok (get_remote_fd (c_world s) (cs_tunnel_ctx cs)) (cs_service cs) s'"
    "\<And>b. get_service s' b = None \<longleftrightarrow> get_service s b = None"
    "c_world s' = c_world s" "c_lib s' = c_lib s" "c_hydra s' = c_hydra s" "c_ipsec s' = c_ipsec s"
    "c_daemon s' = c_daemon s" "c_sets s' = c_sets s" "c_next s' = c_next s"
  shows "keeps s s'"
proof -
  have "charon_inv s'" unfolding charon_inv_def using assms(2-5,7) by (intro exI [of _ cs']) simp
  moreover have "c_cs s = Some cs" "c_cs s' = Some cs'" using assms(1,2) by (simp_all add: core_ok_def)
  ultimately show ?thesis using assms by (simp add: keeps_def)
qed

lemma services_okD:
  assumes "services_ok fd a s" "get_service s b = Some v"
  shows "b = a" "service_ok fd v" "a \<noteq> 0"
  using assms get_service_nz [OF assms(2)] unfolding services_ok_def by blast+

lemma services_okE:
  assumes "services_ok fd a s"
  shows "c_listeners s = [] \<or> a \<noteq> 0 \<and> c_listeners s = [a]"
    "\<forall>j\<in>set (c_jobs s). job_of j \<noteq> None \<longrightarrow> a \<noteq> 0 \<and> job_of j = Some a"
    "a \<noteq> 0 \<longrightarrow> get_service s a \<noteq> None"
    "c_inbound s = (if device_open s a then Some a else None)"
    "c_esp_cb s = device_open s a" "c_outbound s = device_open s a"
  using assms unfolding services_ok_def by blast+

lemma services_ok_cong:
  assumes "services_ok fd a s" "\<And>b. get_service s' b = get_service s b"
    "c_listeners s' = c_listeners s \<or> c_listeners s' = []"
    "c_inbound s' = c_inbound s" "c_esp_cb s' = c_esp_cb s" "c_outbound s' = c_outbound s"
    "\<And>j. j \<in> set (c_jobs s') \<Longrightarrow> j \<in> set (c_jobs s) \<or> job_of j = Some a \<and> a \<noteq> 0 \<or> job_of j = None"
  shows "services_ok fd a s'"
proof -
  note e = services_okE [OF assms(1)]
  have d: "device_open s' a = device_open s a" by (simp add: device_open_def assms(2))
  have "\<forall>b v. get_service s' b = Some v \<longrightarrow> b = a \<and> service_ok fd v"
    using services_okD [OF assms(1)] unfolding assms(2) by blast
  moreover have "a \<noteq> 0 \<longrightarrow> get_service s' a \<noteq> None" using e(3) by (simp only: assms(2))
  moreover have "c_listeners s' = [] \<or> a \<noteq> 0 \<and> c_listeners s' = [a]" using e(1) assms(3) by auto
  moreover have "job_of j \<noteq> None \<longrightarrow> a \<noteq> 0 \<and> job_of j = Some a" if "j \<in> set (c_jobs s')" for j
    using assms(7) [OF that] e(2) by auto
  ultimately show ?thesis unfolding services_ok_def by (simp only: assms(4-6) d e(4-6)) blast
qed

lemma services_ok_upd:
  assumes "services_ok fd a s" "a \<noteq> 0" "\<And>b. get_service s' b = (if b = a then Some v' else get_service s b)"
    "service_ok fd v'" "c_listeners s' = c_listeners s"
    "\<And>j. j \<in> set (c_jobs s') \<Longrightarrow> j \<in> set (c_jobs s) \<or> job_of j = Some a \<or> job_of j = None"
    "c_inbound s' = (if 0 \<le> sv_tunfd v' then Some a else None)"
    "c_esp_cb s' = (0 \<le> sv_tunfd v')" "c_outbound s' = (0 \<le> sv_tunfd v')"
  shows "services_ok fd a s'"
proof -
  have d: "device_open s' a = (0 \<le> sv_tunfd v')" using assms(3) by (simp add: device_open_def)
  have g: "b = a \<and> service_ok fd v" if "get_service s' b = Some v" for b v
    using that assms(1,3,4) services_okD by (metis option.inject)
  have js: "\<forall>j\<in>set (c_jobs s). job_of j \<noteq> None \<longrightarrow> a \<noteq> 0 \<and> job_of j = Some a"
    using assms(1) unfolding services_ok_def by blast
  have j: "job_of j \<noteq> None \<longrightarrow> a \<noteq> 0 \<and> job_of j = Some a" if "j \<in> set (c_jobs s')" for j
    using assms(6) [OF that] js assms(2) by auto
  have l: "c_listeners s = [] \<or> a \<noteq> 0 \<and> c_listeners s = [a]" using assms(1) unfolding services_ok_def by blast
  have "\<forall>b v. get_service s' b = Some v \<longrightarrow> b = a \<and> service_ok fd v" using g by blast
  moreover have "a \<noteq> 0 \<longrightarrow> get_service s' a \<noteq> None" using assms(3) by simp
  moreover have "c_listeners s' = [] \<or> a \<noteq> 0 \<and> c_listeners s' = [a]" using l assms(5) by simp
  moreover have "\<forall>j\<in>set (c_jobs s'). job_of j \<noteq> None \<longrightarrow> a \<noteq> 0 \<and> job_of j = Some a" using j by blast
  ultimately show ?thesis unfolding services_ok_def by (simp only: assms(7-9) d)
qed

lemma creds_only_keeps:
  assumes "charon_inv s" "creds_only s s'"
  shows "keeps s s'"
proof -
  obtain cs where cs: "core_ok cs s"
    "services_ok (get_remote_fd (c_world s) (cs_tunnel_ctx cs)) (cs_service cs) s"
    using assms(1) by (auto simp: charon_inv_def)
  then obtain c where c: "c_cs s' = Some (cs\<lparr>cs_creds := c\<rparr>)" "ac_lock c = rwlock_free"
    using creds_onlyD(19) [OF assms(2)] by (auto simp: core_ok_def)
  note f = creds_onlyD(1-16) [OF assms(2)]
  have "core_ok (cs\<lparr>cs_creds := c\<rparr>) s'" using cs(1) c by (auto simp: core_ok_def f)
  moreover have "services_ok (get_remote_fd (c_world s) (cs_tunnel_ctx cs)) (cs_service cs) s'"
    by (rule services_ok_cong [OF cs(2)]) (simp_all add: f)
  ultimately show ?thesis by (intro keepsI [OF cs(1), of "cs\<lparr>cs_creds := c\<rparr>"]) (simp_all add: f)
qed

lemma io_only_keeps: "charon_inv s \<Longrightarrow> io_only s s' \<Longrightarrow> keeps s s'"
  using creds_only_keeps creds_only_io charon_inv_cs by blast

lemma inv_service:
  assumes "charon_inv s" "get_service s a = Some v"
  shows "\<exists>cs. core_ok cs s \<and> cs_service cs = a \<and>
    services_ok (get_remote_fd (c_world s) (cs_tunnel_ctx cs)) a s \<and> sv_lock v = rwlock_free \<and>
    service_ok (get_remote_fd (c_world s) (cs_tunnel_ctx cs)) v"
proof -
  obtain cs where cs: "core_ok cs s"
    "services_ok (get_remote_fd (c_world s) (cs_tunnel_ctx cs)) (cs_service cs) s"
    using assms(1) by (auto simp: charon_inv_def)
  note d = services_okD [OF cs(2) assms(2)]
  then have "sv_lock v = rwlock_free" by (simp add: service_ok_def)
  then show ?thesis using cs d by auto
qed

lemma inv_unlisten:
  assumes "charon_inv s"
  shows "keeps s (s\<lparr>c_listeners := remove1 a (c_listeners s)\<rparr>)"
proof -
  let ?s = "s\<lparr>c_listeners := remove1 a (c_listeners s)\<rparr>"
  obtain cs where cs: "core_ok cs s"
    "services_ok (get_remote_fd (c_world s) (cs_tunnel_ctx cs)) (cs_service cs) s"
    using assms by (auto simp: charon_inv_def)
  have g: "get_service ?s b = get_service s b" for b by (simp add: get_service_def)
  have "c_listeners ?s = c_listeners s \<or> c_listeners ?s = []"
    using services_okE(1) [OF cs(2)] by auto
  then have "services_ok (get_remote_fd (c_world s) (cs_tunnel_ctx cs)) (cs_service cs) ?s"
    by (intro services_ok_cong [OF cs(2)]) (simp_all add: get_service_def)
  moreover have "core_ok cs ?s" using cs(1) by (simp add: core_ok_def)
  ultimately show ?thesis by (intro keepsI [OF cs(1)]) (simp_all add: g)
qed

text \<open>A change of the hook, the SA or the password of the service.\<close>

lemma inv_upd_service:
  assumes "charon_inv s" "get_service s a = Some v"
    "\<And>v. sv_lock (f v) = sv_lock v" "\<And>v. sv_type (f v) = sv_type v" "\<And>v. sv_gateway (f v) = sv_gateway v"
    "\<And>v. sv_password (f v) = None \<longleftrightarrow> sv_password v = None" "\<And>v. sv_tunfd (f v) = sv_tunfd v"
  shows "keeps s (set_service a (f v) s)"
proof -
  obtain cs where cs: "core_ok cs s" "cs_service cs = a"
    "services_ok (get_remote_fd (c_world s) (cs_tunnel_ctx cs)) a s"
    "service_ok (get_remote_fd (c_world s) (cs_tunnel_ctx cs)) v"
    using inv_service [OF assms(1,2)] by blast
  have nz: "a \<noteq> 0" using get_service_nz assms(2) by blast
  let ?s = "set_service a (f v) s"
  have g: "get_service ?s b = (if b = a then Some (f v) else get_service s b)" for b using nz by simp
  have ok: "service_ok fd (f v) = service_ok fd v" for fd by (simp add: service_ok_def assms(3-7))
  have "device_open s a = (0 \<le> sv_tunfd v)" using assms(2) by (simp add: device_open_def)
  then have "services_ok (get_remote_fd (c_world s) (cs_tunnel_ctx cs)) a ?s"
    using cs(3) by (intro services_ok_upd [OF cs(3) nz g]) (simp_all add: ok cs(4) assms(7) services_ok_def)
  moreover have "core_ok cs ?s" using cs(1) by (simp add: core_ok_def)
  ultimately show ?thesis using cs assms(2) by (intro keepsI [OF cs(1)]) (simp_all add: g)
qed

section \<open>Handlers\<close>

lemma close_tun_device_safe:
  assumes "charon_inv s" "get_service s a = Some v"
  shows "\<exists>s'. close_tun_device a s = Some s' \<and> keeps s s' \<and> \<not> device_open s' a"
proof -
  obtain cs where cs: "core_ok cs s" "cs_service cs = a"
    "services_ok (get_remote_fd (c_world s) (cs_tunnel_ctx cs)) a s" "sv_lock v = rwlock_free"
    "service_ok (get_remote_fd (c_world s) (cs_tunnel_ctx cs)) v"
    using inv_service [OF assms] by blast
  have nz: "a \<noteq> 0" using get_service_nz assms(2) by blast
  show ?thesis
  proof (cases "sv_tunfd v < 0")
    case True
    then show ?thesis using close_tun_device_eq [OF assms(2) cs(4)] assms
      by (simp add: keeps_refl device_open_def)
  next
    case False
    let ?s = "cemit (Close_tun (sv_tunfd v)) ((set_service a (v\<lparr>sv_tunfd := - 1\<rparr>) s)
      \<lparr>c_outbound := False, c_inbound := None, c_esp_cb := False\<rparr>)"
    have g: "get_service ?s b = (if b = a then Some (v\<lparr>sv_tunfd := - 1\<rparr>) else get_service s b)" for b
      using nz by (simp add: get_service_def)
    then have d: "\<not> device_open ?s a" by (simp add: device_open_def)
    have "core_ok cs ?s" using cs(1) by (simp add: core_ok_def)
    moreover have "services_ok (get_remote_fd (c_world s) (cs_tunnel_ctx cs)) a ?s"
      using cs(5) by (intro services_ok_upd [OF cs(3) nz g]) (simp_all add: service_ok_def)
    ultimately have "keeps s ?s" using cs(2) assms(2)
      by (intro keepsI [OF cs(1)]) (simp_all add: g del: get_service_simps)
    then show ?thesis using close_tun_device_eq [OF assms(2) cs(4)] False d by simp
  qed
qed

lemma add_vips_Some:
  "c_cs s \<noteq> None \<Longrightarrow> \<exists>r s'. add_vips env vips found s = Some (r, s') \<and> io_only s s'"
proof (induction vips arbitrary: found s)
  case (Cons vip vips)
  obtain r s1 where "add_address env vip s = Some (r, s1)" "io_only s s1"
    using add_address_Some Cons.prems by blast
  moreover have "c_cs s1 \<noteq> None" using calculation(2) Cons.prems io_onlyD(6) by auto
  ultimately show ?case
    using Cons.IH [of s1 True] Cons.IH [of s found] Cons.prems io_only_trans by (cases r) auto
qed simp

lemma add_route_Some:
  assumes "c_cs s \<noteq> None"
  shows "\<exists>r s'. add_route env h p s = Some (r, s') \<and> io_only s s'"
proof (cases "is_anyaddr h \<and> p = 0")
  case True
  obtain r s1 where s1: "cs_add_route env h 1 s = Some (r, s1)" "io_only s s1"
    using cs_add_route_Some assms by blast
  then have "c_cs s1 \<noteq> None" using assms io_onlyD(6) by auto
  then obtain r2 s2 where "cs_add_route env (upper_half h) 1 s1 = Some (r2, s2)" "io_only s1 s2"
    using cs_add_route_Some by blast
  then show ?thesis using s1 True io_only_trans by (cases r) (auto simp: add_route_def)
qed (use cs_add_route_Some [OF assms] in \<open>auto simp: add_route_def\<close>)

lemma add_routes_Some:
  "c_cs s \<noteq> None \<Longrightarrow> \<exists>r s'. add_routes env ps s = Some (r, s') \<and> io_only s s'"
proof (induction ps arbitrary: s)
  case (Cons p ps)
  obtain r s1 where "add_route env (fst p) (snd p) s = Some (r, s1)" "io_only s s1"
    using add_route_Some Cons.prems by blast
  moreover have "c_cs s1 \<noteq> None" using calculation(2) Cons.prems io_onlyD(6) by auto
  ultimately show ?case using Cons.IH [of s1] io_only_trans by (cases p; cases r) auto
qed (auto intro: exI [of _ True])

text \<open>The device is set up completely or not at all.\<close>

lemma setup_tun_device_cases:
  assumes "charon_inv s" "get_service s a = Some v"
  shows "\<exists>r s'. setup_tun_device env a ike child s = Some (r, s') \<and> keeps s s' \<and>
    (if r then device_open s' a \<and> c_jobs s' = c_jobs s @ [Handle_plain a] \<and>
       (\<exists>cs fd. c_cs s = Some cs \<and> get_remote_fd (c_world s) (cs_tunnel_ctx cs) = Some fd \<and>
          get_service s' a = Some (v\<lparr>sv_tunfd := fd\<rparr>))
     else io_only s s')"
proof -
  obtain cs where cs: "core_ok cs s" "cs_service cs = a"
    "services_ok (get_remote_fd (c_world s) (cs_tunnel_ctx cs)) a s" "sv_lock v = rwlock_free"
    "service_ok (get_remote_fd (c_world s) (cs_tunnel_ctx cs)) v"
    using inv_service [OF assms] by blast
  have nz: "a \<noteq> 0" using get_service_nz assms(2) by blast
  have ccs: "c_cs s = Some cs" using cs(1) by (simp add: core_ok_def)
  let ?s0 = "cemit (Virtual_ips ike) s"
  have c0: "c_cs ?s0 \<noteq> None" using ccs by simp
  obtain r1 s1 where s1: "add_vips env (ce_vips env (c_io ?s0)) False ?s0 = Some (r1, s1)" "io_only ?s0 s1"
    using add_vips_Some c0 by blast
  have i1: "io_only s s1" using s1(2) io_only_trans io_only_emit by blast
  let ?s2 = "cemit (Policies child) s1"
  have c1: "c_cs ?s2 = Some cs" using i1 ccs io_onlyD(6) by auto
  obtain r3 s3 where s3: "add_routes env (ce_policies env (c_io ?s2)) ?s2 = Some (r3, s3)" "io_only ?s2 s3"
    using add_routes_Some [of ?s2] c1 by blast
  have i3: "io_only s s3" using s3(2) i1 io_only_trans io_only_emit by blast
  obtain fd where fd: "get_remote_fd (c_world s) (cs_tunnel_ctx cs) = Some fd" "- 1 \<le> fd"
    using cs(1) by (auto simp: core_ok_def)
  have gfd: "get_fd s3 = Some fd" using i3 ccs fd by (simp add: get_fd_def io_onlyD)
  have fail: ?thesis if "setup_tun_device env a ike child s = Some (False, t)" "io_only s t" for t
    using that io_only_keeps [OF assms(1)] by auto
  consider "\<not> r1" | "r1" "\<not> r3" | "r1" "r3" "fd = - 1" | "r1" "r3" "fd \<noteq> - 1" by blast
  then show ?thesis
  proof cases
    case 1
    then show ?thesis using s1 i1 by (intro fail) (auto simp: setup_tun_device_def Let_def)
  next
    case 2
    then show ?thesis using s1 s3 i3 by (intro fail) (auto simp: setup_tun_device_def Let_def)
  next
    case 3
    then show ?thesis using s1 s3 i3 gfd by (intro fail) (auto simp: setup_tun_device_def Let_def)
  next
    case 4
    let ?v = "v\<lparr>sv_tunfd := fd\<rparr>"
    let ?s = "(set_service a ?v s3)\<lparr>c_esp_cb := True, c_inbound := Some a, c_outbound := True,
      c_jobs := c_jobs s @ [Handle_plain a]\<rparr>"
    have g3: "get_service s3 a = Some v" using i3 assms(2) by (simp add: io_onlyD)
    have v: "?v\<lparr>sv_lock := rwlock_free\<rparr> = ?v" using cs(4) by simp
    have e: "setup_tun_device env a ike child s = Some (True, ?s)"
      using 4 s1 s3 gfd g3 cs(4) nz
      by (simp add: v io_onlyD(14) [OF i3] setup_tun_device_def Let_def service_lock_eq [OF g3] upd_service_def service_lock_def)
    have g: "get_service ?s b = (if b = a then Some ?v else get_service s b)" for b
      using nz i3 by (simp add: get_service_def io_onlyD)
    have d: "device_open ?s a" using g fd 4 by (simp add: device_open_def)
    note f = io_onlyD [OF i3]
    have "core_ok cs ?s" using cs(1) by (simp add: core_ok_def f)
    moreover have "services_ok (get_remote_fd (c_world s) (cs_tunnel_ctx cs)) a ?s"
      using cs(5) fd 4 by (intro services_ok_upd [OF cs(3) nz g]) (auto simp: service_ok_def job_of_def f)
    ultimately have "keeps s ?s" using cs(2) assms(2)
      by (intro keepsI [OF cs(1)]) (simp_all add: g f del: get_service_simps)
    then show ?thesis using e d g ccs fd f by auto
  qed
qed

definition safe_handler :: "(nat \<Rightarrow> charon \<Rightarrow> (bool \<times> charon) option) \<Rightarrow> bool" where
  "safe_handler f \<longleftrightarrow> (\<forall>a s v. charon_inv s \<longrightarrow> get_service s a = Some v \<longrightarrow>
     (\<exists>r s'. f a s = Some (r, s') \<and> keeps s s'))"

lemma report_safe: "charon_inv s \<Longrightarrow> \<exists>s'. report env code s = Some s' \<and> keeps s s' \<and> io_only s s'"
  using report_Some [of s] charon_inv_cs io_only_keeps by blast

lemma child_updown_safe: "safe_handler (\<lambda>a. child_updown env a ike child up)"
  unfolding safe_handler_def
proof (intro allI impI)
  fix a s v assume inv: "charon_inv s" and v: "get_service s a = Some v"
  show "\<exists>r s'. child_updown env a ike child up s = Some (r, s') \<and> keeps s s'"
  proof (cases "sv_ike_sa v = ike")
    case False
    then show ?thesis using inv v by (intro exI [of _ True]) (simp add: child_updown_def keeps_refl)
  next
    case sa: True
    show ?thesis
    proof (cases up)
      case True
      let ?s1 = "set_service a (v\<lparr>sv_hook := False\<rparr>) s"
      have k1: "keeps s ?s1" by (rule inv_upd_service [OF inv v]) simp_all
      have g1: "get_service ?s1 a = Some (v\<lparr>sv_hook := False\<rparr>)" using get_service_nz [OF v] by simp
      obtain r s2 where s2: "setup_tun_device env a ike child ?s1 = Some (r, s2)" "keeps ?s1 s2"
        using setup_tun_device_cases [OF keeps_inv [OF k1] g1] by blast
      obtain s3 where "report env (if r then CHILD_STATE_UP else GENERIC_ERROR) s2 = Some s3" "keeps s2 s3"
        using report_safe keeps_inv [OF s2(2)] by blast
      moreover from this have "child_updown env a ike child up s = Some (r, s3)"
        using s2(1) sa v True by (cases r) (simp_all add: child_updown_def upd_service_def)
      ultimately show ?thesis using k1 s2(2) keeps_trans by blast
    next
      case False
      let ?s1 = "cemit (Reauthenticating ike) s"
      have k1: "keeps s ?s1" by (rule io_only_keeps [OF inv]) simp
      have g1: "get_service ?s1 a = Some v" using v by simp
      show ?thesis
      proof (cases "ce_reauth env (c_io ?s1)")
        case True
        then show ?thesis using k1 sa v False
          by (intro exI [of _ True]) (simp add: child_updown_def)
      next
        case re: False
        obtain s2 where s2: "close_tun_device a ?s1 = Some s2" "keeps ?s1 s2"
          using close_tun_device_safe [OF keeps_inv [OF k1] g1] by blast
        obtain s3 where "report env CHILD_STATE_DOWN s2 = Some s3" "keeps s2 s3"
          using report_safe keeps_inv [OF s2(2)] by blast
        moreover from this have "child_updown env a ike child up s = Some (False, s3)"
          using re s2(1) sa v False by (simp add: child_updown_def)
        ultimately show ?thesis using k1 s2(2) keeps_trans by blast
      qed
    qed
  qed
qed

lemma ike_updown_safe: "safe_handler (\<lambda>a. ike_updown env a ike up)"
  unfolding safe_handler_def
proof (intro allI impI)
  fix a s v assume "charon_inv s" "get_service s a = Some v"
  moreover obtain s' where "report env AUTH_ERROR s = Some s'" "keeps s s'"
    using report_safe calculation(1) by blast
  ultimately show "\<exists>r s'. ike_updown env a ike up s = Some (r, s') \<and> keeps s s'"
    by (auto simp: ike_updown_def keeps_refl)
qed

lemma alert_cb_safe: "safe_handler (\<lambda>a. alert_cb env a ike al)"
  unfolding safe_handler_def
proof (intro allI impI)
  fix a s v assume inv: "charon_inv s" and v: "get_service s a = Some v"
  have l: "sv_lock v = rwlock_free" using inv_service [OF inv v] by blast
  have nz: "a \<noteq> 0" using get_service_nz v by blast
  have rep: "\<exists>s'. report env c s = Some s' \<and> keeps s s'" for c using report_safe inv by blast
  have unreach: "\<exists>s1 s2 s'. service_lock a read_lock s = Some s1 \<and>
      (if sv_tunfd v < 0 then report env UNREACHABLE_ERROR s1 else Some s1) = Some s2 \<and>
      service_lock a rw_unlock s2 = Some s' \<and> keeps s s'"
  proof -
    let ?w = "v\<lparr>sv_lock := rwlock_free\<lparr>rl_readers := Suc 0\<rparr>\<rparr>"
    let ?s1 = "set_service a ?w s"
    have e1: "service_lock a read_lock s = Some ?s1" using v l by (simp add: service_lock_def)
    have "c_cs ?s1 \<noteq> None" using charon_inv_cs inv by simp
    then obtain t where "report env UNREACHABLE_ERROR ?s1 = Some t" "io_only ?s1 t"
      using report_Some by blast
    then obtain s2 where s2: "(if sv_tunfd v < 0 then report env UNREACHABLE_ERROR ?s1 else Some ?s1) = Some s2"
      "io_only ?s1 s2" by (cases "sv_tunfd v < 0") auto
    then obtain es where es: "s2 = ?s1\<lparr>c_io := c_io s @ es\<rparr>" by (auto simp: io_only_def)
    have g2: "get_service s2 a = Some ?w" using es nz by (simp add: get_service_def)
    have "service_lock a rw_unlock s2 = Some (set_service a v s2)"
      using g2 l by (simp add: service_lock_def sv_lock_same)
    moreover have "set_service a v s2 = s\<lparr>c_io := c_io s @ es\<rparr>"
      using es v nz by (intro charon_ext) (auto simp: get_service_def)
    moreover have "keeps s (s\<lparr>c_io := c_io s @ es\<rparr>)"
      by (rule io_only_keeps [OF inv]) (auto simp: io_only_def)
    ultimately show ?thesis using e1 s2(1) by auto
  qed
  show "\<exists>r s'. alert_cb env a ike al s = Some (r, s') \<and> keeps s s'"
  proof (cases "sv_ike_sa v = ike \<and> al = PEER_INIT_UNREACHABLE")
    case True
    then show ?thesis using unreach v by (auto simp: alert_cb_def)
  next
    case False
    then show ?thesis
      using v rep [of LOOKUP_ERROR] rep [of PEER_AUTH_ERROR] keeps_refl [OF inv]
      by (cases al; cases "sv_ike_sa v = ike") (auto simp: alert_cb_def)
  qed
qed

lemma ike_rekey_safe: "safe_handler (\<lambda>a. ike_rekey a old new)"
  unfolding safe_handler_def
proof (intro allI impI)
  fix a s v assume inv: "charon_inv s" and v: "get_service s a = Some v"
  have "keeps s (set_service a (v\<lparr>sv_ike_sa := new\<rparr>) s)" by (rule inv_upd_service [OF inv v]) simp_all
  then show "\<exists>r s'. ike_rekey a old new s = Some (r, s') \<and> keeps s s'"
    using v keeps_refl [OF inv] by (intro exI [of _ True]) (simp add: ike_rekey_def upd_service_def)
qed

lemma ike_reestablish_safe: "safe_handler (\<lambda>a. ike_reestablish a old new)"
  unfolding safe_handler_def
proof (intro allI impI)
  fix a s v assume inv: "charon_inv s" and v: "get_service s a = Some v"
  have "keeps s (set_service a (v\<lparr>sv_ike_sa := new, sv_hook := True\<rparr>) s)"
    by (rule inv_upd_service [OF inv v]) simp_all
  then show "\<exists>r s'. ike_reestablish a old new s = Some (r, s') \<and> keeps s s'"
    using v keeps_refl [OF inv] by (intro exI [of _ True]) (simp add: ike_reestablish_def upd_service_def)
qed

lemma hooked_safe: "safe_handler f \<Longrightarrow> safe_handler (hooked f)"
  by (auto simp: safe_handler_def hooked_def keeps_refl)

section \<open>The bus\<close>

lemma inv_listeners: "charon_inv s \<Longrightarrow> a \<in> set (c_listeners s) \<Longrightarrow> get_service s a \<noteq> None"
proof -
  assume "charon_inv s" "a \<in> set (c_listeners s)"
  then obtain cs :: charonservice
    where "services_ok (get_remote_fd (c_world s) (cs_tunnel_ctx cs)) (cs_service cs) s"
    unfolding charon_inv_def by blast
  then have "c_listeners s = [] \<or> c_listeners s = [cs_service cs] \<and> get_service s (cs_service cs) \<noteq> None"
    unfolding services_ok_def by blast
  then show ?thesis using \<open>a \<in> set (c_listeners s)\<close> by auto
qed

text \<open>What the bus asks of a listener: its method does not fault on a live service and keeps the
  invariant. Then a message for all listeners does so too.\<close>

locale bus_listener =
  fixes hook :: "nat \<Rightarrow> charon \<Rightarrow> (bool \<times> charon) option"
  assumes safe: "charon_inv s \<Longrightarrow> get_service s a = Some v \<Longrightarrow> \<exists>r s'. hook a s = Some (r, s') \<and> keeps s s'"
begin

lemma tell_list:
  "charon_inv s \<Longrightarrow> (\<forall>a\<in>set as. get_service s a \<noteq> None) \<Longrightarrow> \<exists>s'. tell hook as s = Some s' \<and> keeps s s'"
proof (induction as arbitrary: s)
  case Nil
  then show ?case by (simp add: keeps_refl)
next
  case (Cons a as)
  then obtain v where "get_service s a = Some v" by auto
  then obtain r s1 where s1: "hook a s = Some (r, s1)" "keeps s s1" using safe Cons.prems(1) by blast
  let ?s2 = "if r then s1 else s1\<lparr>c_listeners := remove1 a (c_listeners s1)\<rparr>"
  have k2: "keeps s ?s2" using s1(2) inv_unlisten [OF keeps_inv [OF s1(2)]] keeps_trans by auto
  then have "\<forall>b\<in>set as. get_service ?s2 b \<noteq> None" using Cons.prems(2) by (auto simp: keeps_def)
  then obtain s3 where "tell hook as ?s2 = Some s3" "keeps ?s2 s3"
    using Cons.IH [OF keeps_inv [OF k2]] by blast
  then show ?case using s1(1) k2 keeps_trans by auto
qed

lemma tell_safe: "charon_inv s \<Longrightarrow> \<exists>s'. tell hook (c_listeners s) s = Some s' \<and> keeps s s'"
  using tell_list inv_listeners by blast

end

text \<open>The five methods of the service are such listeners.\<close>

interpretation child_hook: bus_listener "\<lambda>a. child_updown env a ike child up"
  using child_updown_safe by unfold_locales (simp add: safe_handler_def)

interpretation ike_hook: bus_listener "hooked (\<lambda>a. ike_updown env a ike up)"
  using hooked_safe [OF ike_updown_safe] by unfold_locales (simp add: safe_handler_def)

interpretation alert_hook: bus_listener "\<lambda>a. alert_cb env a ike al"
  using alert_cb_safe by unfold_locales (simp add: safe_handler_def)

interpretation rekey_hook: bus_listener "\<lambda>a. ike_rekey a old new"
  using ike_rekey_safe by unfold_locales (simp add: safe_handler_def)

interpretation reestablish_hook: bus_listener "\<lambda>a. ike_reestablish a old new"
  using ike_reestablish_safe by unfold_locales (simp add: safe_handler_def)

lemma bus_child_updown_safe:
  "charon_inv s \<Longrightarrow> \<exists>s'. bus_child_updown env ike child up s = Some s' \<and> keeps s s'"
  unfolding bus_child_updown_def by (rule child_hook.tell_safe)

lemma children_down_safe:
  "charon_inv s \<Longrightarrow> \<exists>s'. children_down env ike cs s = Some s' \<and> keeps s s'"
proof (induction cs arbitrary: s)
  case (Cons c cs)
  then obtain s1 where s1: "bus_child_updown env ike c False s = Some s1" "keeps s s1"
    using bus_child_updown_safe by blast
  then show ?case using Cons.IH [OF keeps_inv [OF s1(2)]] keeps_trans by auto
qed (simp add: keeps_refl)

lemma bus_dispatch_safe:
  assumes "charon_inv s"
  shows "\<exists>s'. bus_dispatch env e s = Some s' \<and> keeps s s'"
proof (cases e)
  case (Ike_updown ike up children)
  obtain s1 where s1: "tell (hooked (\<lambda>a. ike_updown env a ike up)) (c_listeners s) s = Some s1" "keeps s s1"
    using ike_hook.tell_safe [OF assms] by blast
  then show ?thesis using children_down_safe [OF keeps_inv [OF s1(2)], of env ike children]
      keeps_trans [OF s1(2)] Ike_updown by (cases up) (auto simp: bus_dispatch_def)
next
  case Child_updown
  then show ?thesis using bus_child_updown_safe [OF assms] by (simp add: bus_dispatch_def)
next
  case Alert
  then show ?thesis using alert_hook.tell_safe [OF assms] by (simp add: bus_dispatch_def)
next
  case Ike_rekey
  then show ?thesis using rekey_hook.tell_safe [OF assms] by (simp add: bus_dispatch_def)
next
  case Ike_reestablish
  then show ?thesis using reestablish_hook.tell_safe [OF assms]
    by (simp add: bus_dispatch_def)
qed

lemma bus_all_safe: "charon_inv s \<Longrightarrow> \<exists>s'. bus_all env es s = Some s' \<and> keeps s s'"
proof (induction es arbitrary: s)
  case (Cons e es)
  then obtain s1 where s1: "bus_dispatch env e s = Some s1" "keeps s s1" using bus_dispatch_safe by blast
  then show ?case using Cons.IH [OF keeps_inv [OF s1(2)]] keeps_trans by auto
qed (simp add: keeps_refl)

end
