(* ===== verification/CharonRun.thy ===== *)
theory CharonRun
  imports CharonInv
begin

text \<open>
  Every operation of the running daemon succeeds and keeps the invariant, and the libraries
  are taken up and down in balance.
\<close>

section \<open>Starting a connection\<close>

lemma inv_password:
  "charon_inv s \<Longrightarrow> get_service s a = Some v \<Longrightarrow> \<exists>p. sv_password v = Some p"
  using inv_service unfolding service_ok_def by blast

lemma add_auth_cfg_eap_safe:
  assumes "charon_inv s" "get_service s a = Some v"
  shows "\<exists>p' s'. add_auth_cfg_eap a p byod s = Some (p', s') \<and> keeps s s'"
proof -
  obtain pw where pw: "sv_password v = Some pw" using inv_password assms by blast
  obtain s1 where s1: "upd_mem (add_shared (c_string pw) (id_text (sv_username v))) s = Some s1" "creds_only s s1"
    using upd_mem_Some charon_inv_cs assms(1) by blast
  have k1: "keeps s s1" using creds_only_keeps [OF assms(1) s1(2)] .
  have g1: "get_service s1 a = Some v" using assms(2) creds_onlyD(16) [OF s1(2)] by simp
  let ?f = "\<lambda>v. v\<lparr>sv_password := map_option memwipe (sv_password v)\<rparr>"
  have "keeps s1 (set_service a (?f v) s1)"
    by (rule inv_upd_service [OF keeps_inv [OF k1] g1, of ?f]) simp_all
  then have "keeps s (set_service a (?f v) s1)" using k1 keeps_trans by blast
  then show ?thesis using assms(2) pw s1(1) g1
    by (simp add: add_auth_cfg_eap_def add_username_password_def upd_service_def)
qed

lemma add_auth_cfg_cert_safe:
  assumes "charon_inv s" "no_null_arrays env"
  shows "\<exists>r p' s'. add_auth_cfg_cert env p s = Some (r, p', s') \<and> keeps s s'"
proof -
  obtain c s1 where "load_user_certificate env s = Some (c, s1)" "creds_only s s1"
    using load_user_certificate_Some charon_inv_cs assms by blast
  then show ?thesis using creds_only_keeps [OF assms(1)]
    by (cases c) (auto simp: add_auth_cfg_cert_def)
qed

lemma add_auth_cfg_xauth_safe:
  assumes "charon_inv s"
  shows "\<exists>r p' s'. add_auth_cfg_xauth env p s = Some (r, p', s') \<and> keeps s s'"
proof -
  obtain c s1 where "load_xauth env s = Some (c, s1)" "creds_only s s1"
    using load_xauth_Some charon_inv_cs assms by blast
  then show ?thesis using creds_only_keeps [OF assms(1)]
    by (cases c) (auto simp: add_auth_cfg_xauth_def)
qed

lemma local_auth_safe:
  assumes "charon_inv s" "get_service s a = Some v" "no_null_arrays env"
  shows "\<exists>cfg s'. local_auth env a t p s = Some (cfg, s') \<and> keeps s s'"
proof -
  let ?cert = "t \<in> {''ikev2-cert'', ''ikev2-cert-eap'', ''ikev1-cert-xauth''}"
  let ?eap = "t \<in> {''ikev2-eap'', ''ikev2-cert-eap'', ''ikev2-byod-eap''}"
  let ?xauth = "t \<in> {''ikev1-cert-xauth'', ''ikev1-xauth''}"
  obtain r1 p1 s1 where s1: "(if ?cert then add_auth_cfg_cert env p s else Some (True, p, s)) = Some (r1, p1, s1)"
    "keeps s s1"
    using add_auth_cfg_cert_safe [OF assms(1,3), of p] keeps_refl [OF assms(1)] by (cases ?cert) auto
  obtain v1 where v1: "get_service s1 a = Some v1" using keeps_service [OF s1(2) assms(2)] by blast
  obtain p2 s2 where s2: "(if ?eap then add_auth_cfg_eap a p1 (take 10 t = ''ikev2-byod'') s1 else Some (p1, s1)) = Some (p2, s2)"
    "keeps s1 s2"
    using add_auth_cfg_eap_safe [OF keeps_inv [OF s1(2)] v1, of p1 "take 10 t = ''ikev2-byod''"] keeps_refl [OF keeps_inv [OF s1(2)]]
    by (cases ?eap) (auto simp del: insert_iff)
  obtain r3 p3 s3 where s3: "(if ?xauth then add_auth_cfg_xauth env p2 s2 else Some (True, p2, s2)) = Some (r3, p3, s3)"
    "keeps s2 s3"
    using add_auth_cfg_xauth_safe [OF keeps_inv [OF s2(2)], of env p2] keeps_refl [OF keeps_inv [OF s2(2)]]
    by (cases ?xauth) (auto simp del: insert_iff)
  have k: "keeps s s3" using s1(2) s2(2) s3(2) keeps_trans by blast
  show ?thesis
  proof (cases r1)
    case True
    then have "local_auth env a t p s = Some (Some p3, s3)"
      unfolding local_auth_def s1(1) by (simp add: s2(1) s3(1) del: insert_iff)
    then show ?thesis using k by blast
  next
    case False
    then have "local_auth env a t p s = Some (None, s1)" unfolding local_auth_def s1(1) by simp
    then show ?thesis using s1(2) by blast
  qed
qed

lemma emit_keeps: "charon_inv s \<Longrightarrow> keeps s (cemit e s)"
  by (rule io_only_keeps) simp_all

lemma keeps_emit: "keeps s t \<Longrightarrow> keeps s (cemit e t)"
  using emit_keeps keeps_inv keeps_trans by blast

lemma initiate_sa_safe:
  assumes "charon_inv s" "get_service s a = Some v"
  shows "\<exists>s'. initiate_sa env a ike s = Some s' \<and> keeps s s'"
proof -
  let ?s1 = "cemit (Get_peer_cfg ike) s"
  define s2 where "s2 = cemit Peer_cfg_destroy
    (if ce_has_cfg env (c_io ?s1) then ?s1 else cemit (Set_peer_cfg ike) ?s1)"
  have k2: "keeps s s2" unfolding s2_def using keeps_emit keeps_refl assms(1) by simp
  obtain v2 where v2: "get_service s2 a = Some v2" using keeps_service [OF k2 assms(2)] by blast
  define s3 where "s3 = cemit (Sa_initiate ike) (set_service a (v2\<lparr>sv_ike_sa := ike\<rparr>) s2)"
  have "keeps s2 (set_service a (v2\<lparr>sv_ike_sa := ike\<rparr>) s2)"
    by (rule inv_upd_service [OF keeps_inv [OF k2] v2]) simp_all
  then have k3: "keeps s s3" unfolding s3_def using k2 keeps_trans keeps_emit by blast
  obtain es ok where es: "ce_initiate env (c_io s3) = (es, ok)" by fastforce
  obtain s4 where s4: "bus_all env es s3 = Some s4" "keeps s3 s4"
    using bus_all_safe [OF keeps_inv [OF k3]] by blast
  have k4: "keeps s s4" using k3 s4(2) keeps_trans by blast
  define s5 where "s5 = cemit (Checkin_and_destroy ike) s4"
  have k5: "keeps s s5" unfolding s5_def using keeps_emit [OF k4] .
  obtain s6 where s6: "bus_all env (ce_dropped env (c_io s5)) s5 = Some s6" "keeps s5 s6"
    using bus_all_safe [OF keeps_inv [OF k5]] by blast
  have "initiate_sa env a ike s = Some (if ok then cemit (Checkin ike) s4 else s6)"
    unfolding initiate_sa_def Let_def s2_def [symmetric]
    using v2 s4(1) s6(1) es by (simp add: upd_service_def s3_def [symmetric] s5_def [symmetric] del: cemit_simps)
  then show ?thesis using k5 s6(2) keeps_trans keeps_emit [OF k4] by (cases ok) auto
qed

lemma initiate_safe:
  assumes "charon_inv s" "get_service s a = Some v" "no_null_arrays env"
  shows "\<exists>s'. initiate env a s = Some s' \<and> keeps s s'"
proof -
  obtain t g where tg: "sv_type v = Some t" "sv_gateway v = Some g"
    using inv_service [OF assms(1,2)] unfolding service_ok_def by blast
  define s0 where "s0 = cemit Get_port s"
  obtain p where p: "new_peer_cfg (ce_port env (c_io s0)) (Some g) = Some p" by (simp add: new_peer_cfg_def)
  have k0: "keeps s s0" unfolding s0_def using emit_keeps assms(1) by blast
  have g0: "get_service s0 a = Some v" using assms(2) by (simp add: s0_def)
  obtain cfg s1 where s1: "local_auth env a (c_string t) p s0 = Some (cfg, s1)" "keeps s0 s1"
    using local_auth_safe [OF keeps_inv [OF k0] g0 assms(3)] by blast
  have k1: "keeps s s1" using k0 s1(2) keeps_trans by blast
  have rep: "\<exists>s'. report env c (cemit e u) = Some s' \<and> keeps s s'" if "keeps s u" for c e u
    using report_safe [OF keeps_inv [OF keeps_emit [OF that]]] keeps_trans keeps_emit that by blast
  note d = initiate_def assms(2) tg s0_def [symmetric] p s1(1)
  show ?thesis
  proof (cases cfg)
    case None
    then show ?thesis using rep [OF k1] by (simp add: d del: cemit_simps)
  next
    case (Some q)
    define s2 where "s2 = cemit (Checkout (finish_peer_cfg (id_text (Some g)) q)) s1"
    have k2: "keeps s s2" unfolding s2_def using keeps_emit k1 by blast
    obtain v2 where v2: "get_service s2 a = Some v2" using keeps_service [OF k2 assms(2)] by blast
    obtain s3 where s3: "initiate_sa env a (ce_checkout env (c_io s2)) s2 = Some s3" "keeps s2 s3"
      using initiate_sa_safe [OF keeps_inv [OF k2] v2] by blast
    obtain s4 where s4: "report env GENERIC_ERROR (cemit Peer_cfg_destroy s2) = Some s4" "keeps s s4"
      using rep [OF k2] by blast
    have "initiate env a s = Some (if ce_checkout env (c_io s2) = 0 then s4 else s3)"
      using s3(1) s4(1) Some by (simp add: d s2_def [symmetric] del: cemit_simps)
    then show ?thesis using k2 s3(2) s4(2) keeps_trans by (auto split: if_splits)
  qed
qed

section \<open>The operations\<close>

text \<open>Jobs and timers may go, and jobs for the live service may come.\<close>

lemma inv_jobs:
  assumes "charon_inv s"
    "\<And>j. j \<in> set js \<Longrightarrow> j \<in> set (c_jobs s) \<or> (\<exists>a. job_of j = Some a \<and> get_service s a \<noteq> None) \<or> job_of j = None"
  shows "keeps s (s\<lparr>c_jobs := js, c_timers := ts\<rparr>)"
proof -
  obtain cs where cs: "core_ok cs s"
    "services_ok (get_remote_fd (c_world s) (cs_tunnel_ctx cs)) (cs_service cs) s"
    using assms(1) unfolding charon_inv_def by blast
  let ?s = "s\<lparr>c_jobs := js, c_timers := ts\<rparr>"
  have j: "j \<in> set (c_jobs s) \<or> job_of j = Some (cs_service cs) \<and> cs_service cs \<noteq> 0 \<or> job_of j = None"
    if "j \<in> set js" for j
    using assms(2) [OF that] services_okD [OF cs(2)] by auto
  have "services_ok (get_remote_fd (c_world s) (cs_tunnel_ctx cs)) (cs_service cs) ?s"
    using j by (intro services_ok_cong [OF cs(2)]) (simp_all add: get_service_def)
  moreover have "core_ok cs ?s" using cs(1) by (simp add: core_ok_def)
  ultimately show ?thesis by (intro keepsI [OF cs(1)]) (simp_all add: get_service_def)
qed

lemma inv_add_job:
  "charon_inv s \<Longrightarrow> get_service s a \<noteq> None \<Longrightarrow> job_of j = Some a \<Longrightarrow>
   keeps s (s\<lparr>c_jobs := c_jobs s @ [j]\<rparr>)"
  using inv_jobs [of s "c_jobs s @ [j]" "c_timers s"] by auto

lemma inv_job_service:
  assumes "charon_inv s" "j \<in> set (c_jobs s)" "job_of j = Some a"
  shows "\<exists>v. get_service s a = Some v"
proof -
  obtain cs :: charonservice
    where "services_ok (get_remote_fd (c_world s) (cs_tunnel_ctx cs)) (cs_service cs) s"
    using assms(1) unfolding charon_inv_def by blast
  from services_okE(2,3) [OF this] show ?thesis using assms(2,3) by fastforce
qed

lemma inv_inbound:
  assumes "charon_inv s" "c_inbound s = Some a"
  shows "\<exists>v. get_service s a = Some v \<and> sv_lock v = rwlock_free \<and> 0 \<le> sv_tunfd v"
proof -
  obtain cs :: charonservice
    where cs: "services_ok (get_remote_fd (c_world s) (cs_tunnel_ctx cs)) (cs_service cs) s"
    using assms(1) unfolding charon_inv_def by blast
  then have "device_open s a" using services_okE(4) [OF cs] assms(2) by (auto split: if_splits)
  then obtain v where "get_service s a = Some v" "0 \<le> sv_tunfd v"
    by (auto simp: device_open_def split: option.splits)
  then show ?thesis using services_okD(2) [OF cs] by (auto simp: service_ok_def)
qed

lemma handle_plain_read_io: "handle_plain_read env fd s = (r, s') \<Longrightarrow> io_only s s'"
  by (auto simp: handle_plain_read_def Let_def split: select_result.splits option.splits if_splits)

lemma set_remove_nth: "x \<in> set (remove_nth i xs) \<Longrightarrow> x \<in> set xs"
  by (auto simp: remove_nth_def dest: in_set_takeD in_set_dropD)

lemma run_job_safe:
  assumes "charon_inv s" "no_null_arrays env" "\<And>a. job_of j = Some a \<Longrightarrow> get_service s a \<noteq> None"
  shows "\<exists>s'. run_job env j s = Some s' \<and> keeps s s'"
proof (cases j)
  case (Initiate a)
  then obtain v where "get_service s a = Some v" using assms(3) [of a] by (auto simp: job_of_def)
  then show ?thesis using initiate_safe [OF assms(1) _ assms(2)] Initiate by (simp add: run_job_def)
next
  case (Handle_plain a)
  then obtain v where v: "get_service s a = Some v" using assms(3) [of a] by (auto simp: job_of_def)
  have "handle_plain_fd a s = Some (if sv_tunfd v < 0 then None else Some (sv_tunfd v), s)"
    using handle_plain_fd_eq v inv_service [OF assms(1) v] by blast
  moreover have "keeps s (s\<lparr>c_jobs := c_jobs s @ [Plain_wait a (sv_tunfd v)]\<rparr>)"
    by (rule inv_add_job [OF assms(1), of a]) (simp_all add: v job_of_def)
  ultimately show ?thesis using Handle_plain keeps_refl [OF assms(1)] by (simp add: run_job_def)
next
  case (Plain_wait a fd)
  obtain r s1 where s1: "handle_plain_read env fd s = (r, s1)" by fastforce
  then have k1: "keeps s s1" using handle_plain_read_io io_only_keeps assms(1) by blast
  have "get_service s a \<noteq> None" using assms(3) [of a] Plain_wait by (simp add: job_of_def)
  then have "get_service s1 a \<noteq> None" using k1 by (simp add: keeps_def)
  then have "keeps s1 (s1\<lparr>c_jobs := c_jobs s1 @ [Handle_plain a]\<rparr>)"
    by (rule inv_add_job [OF keeps_inv [OF k1]]) (simp add: job_of_def)
  then have "keeps s (s1\<lparr>c_jobs := c_jobs s1 @ [Handle_plain a]\<rparr>)" using k1 keeps_trans by blast
  then show ?thesis using Plain_wait s1 k1 by (simp add: run_job_def)
next
  case Roam_event
  obtain cs where cs: "c_cs s = Some cs" using charon_inv_cs [OF assms(1)] by blast
  have "keeps s (cemit Roam (bypass_all env (cs_sockets cs) s))"
    using keeps_emit io_only_keeps [OF assms(1) bypass_all_io] by blast
  then show ?thesis using Roam_event cs by (simp add: run_job_def roam_event_def bypass_socket_def)
qed

lemma network_changed_safe:
  assumes "charon_inv s"
  shows "\<exists>s'. network_changed env d s = Some s' \<and> keeps s s'"
proof -
  obtain cs tv where cs: "core_ok cs s" "cs_net cs = Some tv" "c_cs s = Some cs" "cs_connectivity cs"
    "services_ok (get_remote_fd (c_world s) (cs_tunnel_ctx cs)) (cs_service cs) s"
    using assms unfolding charon_inv_def core_ok_def by blast
  let ?now = "ce_time env (c_io s @ [Monotonic])"
  let ?cs = "cs\<lparr>cs_net := Some (timeval_add_ms ?now ROAM_DELAY)\<rparr>"
  let ?s = "schedule_job_ms env ROAM_DELAY (set_cs ?cs (cemit Monotonic s))"
  have f: "c_cs ?s = Some ?cs" "c_registered ?s = c_registered s" "c_world ?s = c_world s" "c_lib ?s = c_lib s"
    "c_hydra ?s = c_hydra s" "c_ipsec ?s = c_ipsec s" "c_daemon ?s = c_daemon s" "c_sets ?s = c_sets s"
    "c_next ?s = c_next s" "c_listeners ?s = c_listeners s" "c_inbound ?s = c_inbound s" "c_esp_cb ?s = c_esp_cb s"
    "c_outbound ?s = c_outbound s" "c_jobs ?s = c_jobs s" "get_service ?s b = get_service s b" for b
    by (simp_all add: schedule_job_ms_def time_monotonic_def set_cs_def get_service_def)
  have "services_ok (get_remote_fd (c_world s) (cs_tunnel_ctx cs)) (cs_service cs) ?s"
    by (rule services_ok_cong [OF cs(5)]) (simp_all add: f)
  moreover have "core_ok ?cs ?s" using cs(1) by (simp add: core_ok_def f)
  ultimately have k: "keeps s ?s" by (intro keepsI [OF cs(1), of ?cs]) (simp_all add: f)
  have "network_changed env d s = Some (if timercmp_gt ?now tv then ?s else cemit Monotonic s)"
    using cs(2-4) by (simp add: network_changed_def connectivity_cb_def time_monotonic_def Let_def)
  then show ?thesis using k emit_keeps [OF assms] by simp
qed

lemma attr_handle_safe:
  assumes "charon_inv s"
  shows "\<exists>s'. map_option snd (attr_handle env t d s) = Some s' \<and> keeps s s'"
proof -
  have "\<exists>r s'. add_dns env h s = Some (r, s') \<and> keeps s s'" for h
    using add_dns_Some charon_inv_cs io_only_keeps assms by blast
  note dns = this
  show ?thesis
  proof (cases "t = OTHER_ATTRIBUTE \<or> (case host_create_from_chunk (t = INTERNAL_IP4_DNS) d of
      None \<Rightarrow> True | Some h \<Rightarrow> is_anyaddr h)")
    case True
    then show ?thesis using keeps_refl [OF assms] by (auto simp: attr_handle_def split: option.splits)
  next
    case False
    then obtain h where h: "t \<noteq> OTHER_ATTRIBUTE" "host_create_from_chunk (t = INTERNAL_IP4_DNS) d = Some h"
      "\<not> is_anyaddr h" by (auto split: option.splits)
    obtain r s' where "add_dns env h s = Some (r, s')" "keeps s s'" using dns by blast
    then show ?thesis using h by (simp add: attr_handle_def)
  qed
qed

lemma certs_safe:
  assumes "charon_inv s" "no_null_arrays env"
  shows "\<exists>s'. charon_do env (Op_certs t trusted) s = Some s' \<and> keeps s s'"
proof -
  obtain cs where cs: "c_cs s = Some cs" "ac_lock (cs_creds cs) = rwlock_free"
    using assms(1) unfolding charon_inv_def core_ok_def by blast
  obtain certs s1 where s1: "create_cert_enumerator env t (\<lambda>_. True) trusted s = Some (certs, s1)"
    "if certs = None then s1 = s else \<exists>s2. cert_enumerator_destroy s1 = Some s2 \<and> creds_only s s2"
    using create_cert_enumerator_Some [OF cs assms(2)] by blast
  then show ?thesis using keeps_refl [OF assms(1)] creds_only_keeps [OF assms(1)]
    by (cases certs) (auto simp: charon_do_def)
qed

section \<open>Runs\<close>

text \<open>What a run preserves: the invariant, the libraries, the registered sets and the tunnel.\<close>

definition advances :: "charon \<Rightarrow> charon \<Rightarrow> bool" where
  "advances s s' \<longleftrightarrow> charon_inv s' \<and> c_lib s' = c_lib s \<and> c_hydra s' = c_hydra s \<and> c_ipsec s' = c_ipsec s \<and>
     c_daemon s' = c_daemon s \<and> c_sets s' = c_sets s \<and>
     map_option cs_tunnel_ctx (c_cs s') = map_option cs_tunnel_ctx (c_cs s)"

lemma advances_trans [trans]: "advances s t \<Longrightarrow> advances t u \<Longrightarrow> advances s u"
  by (simp add: advances_def)

lemma advances_refl: "charon_inv s \<Longrightarrow> advances s s"
  by (simp add: advances_def)

lemma keeps_advances:
  assumes "keeps s s'"
  shows "advances s s' \<and> c_world s' = c_world s"
proof -
  have "map_option fst (map_option (\<lambda>cs. (cs_tunnel_ctx cs, cs_service cs)) (c_cs s')) =
      map_option fst (map_option (\<lambda>cs. (cs_tunnel_ctx cs, cs_service cs)) (c_cs s))"
    using assms by (simp add: keeps_def)
  then have "map_option cs_tunnel_ctx (c_cs s') = map_option cs_tunnel_ctx (c_cs s)"
    by (simp add: option.map_comp comp_def)
  then show ?thesis using assms by (simp add: keeps_def advances_def)
qed

lemma initialize_tunnel_fresh:
  assumes "charon_inv s" "c_cs s = Some cs0" "cs_service cs0 = 0"
    "type \<noteq> None" "gateway \<noteq> None" "password \<noteq> None"
  shows "\<exists>s'. initialize_tunnel env type gateway username password s = Some s' \<and> advances s s' \<and>
    c_world s' = c_world s \<and> c_jobs s' = c_jobs s @ [Initiate (Suc (c_next s))]"
proof -
  have "ac_lock (cs_creds cs0) = rwlock_free"
    using assms(1,2) unfolding charon_inv_def core_ok_def by auto
  then obtain s1 where s1: "creds_clear env s = Some s1" "creds_only s s1"
    using creds_clear_Some [OF assms(2)] by blast
  then have k1: "keeps s s1" using creds_only_keeps assms(1) by blast
  obtain cs where cs: "core_ok cs s1"
    "services_ok (get_remote_fd (c_world s1) (cs_tunnel_ctx cs)) (cs_service cs) s1"
    using keeps_inv [OF k1] unfolding charon_inv_def by blast
  have c1: "c_cs s1 = Some cs" using cs(1) by (simp add: core_ok_def)
  have sv: "cs_service cs = 0" using k1 assms(2,3) c1 by (simp add: keeps_def)
  have g1: "get_service s1 b = None" for b
    using services_okD [OF cs(2)] sv by (cases "get_service s1 b") auto
  have d1: "\<not> device_open s1 0" by (simp add: device_open_def)
  note e = services_okE [OF cs(2), unfolded sv]
  let ?a = "Suc (c_next s1)"
  let ?v = "\<lparr>sv_hook = True, sv_ike_sa = 0, sv_type = type, sv_gateway = gateway,
    sv_username = username, sv_password = password, sv_lock = rwlock_free, sv_tunfd = - 1\<rparr>"
  let ?cs = "cs\<lparr>cs_service := ?a\<rparr>"
  let ?s = "set_cs ?cs ((set_service ?a ?v (s1\<lparr>c_next := ?a\<rparr>))
    \<lparr>c_listeners := c_listeners s1 @ [?a], c_jobs := c_jobs s1 @ [Initiate ?a]\<rparr>)"
  have r: "initialize_tunnel env type gateway username password s = Some ?s"
    using s1(1) c1 sv by (simp add: initialize_tunnel_def android_service_create_def Let_def)
  have g: "get_service ?s b = (if b = ?a then Some ?v else None)" for b
    using g1 [of b] by (auto simp: get_service_def set_cs_def)
  have d: "\<not> device_open ?s ?a" by (simp add: device_open_def g)
  have f: "c_listeners ?s = [?a]" "c_jobs ?s = c_jobs s1 @ [Initiate ?a]" "c_inbound ?s = None"
    "c_esp_cb ?s = False" "c_outbound ?s = False" "c_world ?s = c_world s1" "c_registered ?s = c_registered s1"
    "c_lib ?s = c_lib s1" "c_hydra ?s = c_hydra s1" "c_ipsec ?s = c_ipsec s1" "c_daemon ?s = c_daemon s1"
    "c_sets ?s = c_sets s1" "c_cs ?s = Some ?cs"
    using e d1 by (simp_all add: set_cs_def)
  have j: "\<forall>j\<in>set (c_jobs ?s). job_of j \<noteq> None \<longrightarrow> job_of j = Some ?a"
    using e(2) by (auto simp: f job_of_def)
  have "services_ok fd ?a ?s" for fd
    unfolding services_ok_def using j assms(4-6) d by (simp add: g f service_ok_def)
  moreover have "core_ok ?cs ?s" using cs(1) by (simp add: core_ok_def f)
  ultimately have "charon_inv ?s" unfolding charon_inv_def by (intro exI [of _ ?cs]) simp
  moreover have "map_option cs_tunnel_ctx (c_cs s1) = map_option cs_tunnel_ctx (c_cs s)"
    using keeps_advances [OF k1] by (simp add: advances_def)
  ultimately have "advances s ?s" using k1 c1 f by (simp add: advances_def keeps_def)
  moreover have "c_jobs s1 = c_jobs s" "c_next s1 = c_next s" using creds_onlyD [OF s1(2)] by simp_all
  ultimately show ?thesis using r k1 f by (simp add: keeps_def)
qed

lemma ref_put_remote_fd:
  assumes "wf_tuns w" "1 < refs w t"
  shows "\<exists>r w'. ref_put w t = Some (r, w') \<and> wf_tuns w' \<and> refs w' = (refs w)(t := refs w t - 1) \<and>
    get_remote_fd w' t = get_remote_fd w t"
proof -
  obtain c where c: "get_tun w t = Some c" "refs w t = unat (ref_count c)"
    using refs_pos [of w t] assms(2) by auto
  have nz: "t \<noteq> 0" using get_tun_nz c(1) by blast
  have "ref_count c \<noteq> 1" using assms(2) c(2) by auto
  then have "ref_put w t = Some (t, set_tun t (c\<lparr>ref_count := ref_count c - 1, ref_generation := ref_generation c + 1\<rparr>) w)"
    using ref_put_Some [OF c(1) wf_tunsD [OF assms(1) c(1)]] by simp
  moreover have "get_remote_fd (set_tun t (c\<lparr>ref_count := ref_count c - 1, ref_generation := ref_generation c + 1\<rparr>) w) t =
      get_remote_fd w t" using c(1) nz by (simp add: get_remote_fd_def)
  moreover obtain r w' where "ref_put w t = Some (r, w')" "wf_tuns w'" "refs w' = (refs w)(t := refs w t - 1)"
    using ref_put_refs [OF assms(1), of t] assms(2) by auto
  ultimately show ?thesis by auto
qed

lemma release_safe:
  assumes "charon_inv s" "c_cs s = Some cs" "1 < refs (c_world s) (cs_tunnel_ctx cs)"
  shows "\<exists>s'. charon_do env Op_release s = Some s' \<and> advances s s'"
proof -
  have co: "core_ok cs s" "services_ok (get_remote_fd (c_world s) (cs_tunnel_ctx cs)) (cs_service cs) s"
    using assms(1,2) unfolding charon_inv_def core_ok_def by auto
  have wf: "wf_tuns (c_world s)" using co(1) by (simp add: core_ok_def)
  obtain r w where w: "ref_put (c_world s) (cs_tunnel_ctx cs) = Some (r, w)" "wf_tuns w"
    "refs w = (refs (c_world s))(cs_tunnel_ctx cs := refs (c_world s) (cs_tunnel_ctx cs) - 1)"
    "get_remote_fd w (cs_tunnel_ctx cs) = get_remote_fd (c_world s) (cs_tunnel_ctx cs)"
    using ref_put_remote_fd [OF wf assms(3)] by blast
  have nz: "cs_tunnel_ctx cs \<noteq> 0" using assms(3) refs_pos [of "c_world s" "cs_tunnel_ctx cs"] get_tun_nz by fastforce
  let ?s = "s\<lparr>c_world := w\<rparr>"
  have g: "get_service ?s b = get_service s b" for b by (simp add: get_service_def)
  have "services_ok (get_remote_fd (c_world s) (cs_tunnel_ctx cs)) (cs_service cs) ?s"
    by (rule services_ok_cong [OF co(2)]) (simp_all add: g)
  moreover have "core_ok cs ?s" using co(1) w assms(3) by (simp add: core_ok_def)
  ultimately have "charon_inv ?s" unfolding charon_inv_def using w(4) by (intro exI [of _ cs]) simp
  then show ?thesis using w(1) nz assms(2)
    by (auto simp: charon_do_def deinit_tun_def advances_def)
qed

lemma charon_do_safe:
  assumes "charon_inv s" "no_null_arrays env" "charon_allowed opn s"
  shows "\<exists>s'. charon_do env opn s = Some s' \<and> advances s s' \<and> (opn = Op_release \<or> c_world s' = c_world s)"
proof -
  have k: ?thesis if "\<exists>s'. charon_do env opn s = Some s' \<and> keeps s s'"
    using that keeps_advances by blast
  show ?thesis
  proof (cases opn)
    case (Op_message e)
    then show ?thesis using bus_dispatch_safe [OF assms(1)] by (intro k) (simp add: charon_do_def)
  next
    case (Op_job i)
    show ?thesis
    proof (cases "i < length (c_jobs s)")
      case True
      let ?s = "s\<lparr>c_jobs := remove_nth i (c_jobs s)\<rparr>"
      have k1: "keeps s ?s" using inv_jobs [OF assms(1), of "remove_nth i (c_jobs s)" "c_timers s"]
        by (auto dest: set_remove_nth)
      have "get_service ?s a \<noteq> None" if "job_of (c_jobs s ! i) = Some a" for a
      proof -
        have "get_service ?s a = get_service s a" by (simp add: get_service_def)
        then show ?thesis using inv_job_service [OF assms(1) nth_mem [OF True] that] by simp
      qed
      then obtain s' where "run_job env (c_jobs s ! i) ?s = Some s'" "keeps ?s s'"
        using run_job_safe [OF keeps_inv [OF k1] assms(2)] by blast
      then show ?thesis using k1 keeps_trans Op_job True by (intro k) (auto simp: charon_do_def)
    qed (use Op_job keeps_refl [OF assms(1)] in \<open>intro k, simp add: charon_do_def\<close>)
  next
    case (Op_timer i)
    have "keeps s (s\<lparr>c_jobs := c_jobs s @ [Roam_event], c_timers := remove_nth i (c_timers s)\<rparr>)"
      by (rule inv_jobs [OF assms(1)]) (auto simp: job_of_def)
    moreover have "s\<lparr>c_jobs := c_jobs s @ [Roam_event], c_timers := remove_nth i (c_timers s)\<rparr> =
      s\<lparr>c_timers := remove_nth i (c_timers s), c_jobs := c_jobs s @ [Roam_event]\<rparr>" by simp
    ultimately have "keeps s (s\<lparr>c_timers := remove_nth i (c_timers s), c_jobs := c_jobs s @ [Roam_event]\<rparr>)"
      by simp
    then show ?thesis using Op_timer keeps_refl [OF assms(1)] by (intro k) (simp add: charon_do_def)
  next
    case (Op_plain packet)
    show ?thesis
    proof (cases "c_inbound s")
      case (Some a)
      then obtain v where "get_service s a = Some v" "sv_lock v = rwlock_free"
        using inv_inbound assms(1) by blast
      note deliver_plain_eq [OF this]
      then show ?thesis using Some Op_plain assms(1) keeps_emit keeps_refl
        by (intro k) (simp add: charon_do_def)
    qed (use Op_plain keeps_refl [OF assms(1)] in \<open>intro k, simp add: charon_do_def\<close>)
  next
    case (Op_esp_out packet)
    then show ?thesis using emit_keeps [OF assms(1)] by (intro k) (simp add: charon_do_def send_esp_def)
  next
    case (Op_esp_in packet)
    then show ?thesis using emit_keeps [OF assms(1)] by (intro k) (simp add: charon_do_def receiver_esp_cb_def)
  next
    case (Op_certs t trusted)
    then show ?thesis using certs_safe [OF assms(1,2)] by (intro k) simp
  next
    case (Op_attribute t d)
    then show ?thesis using attr_handle_safe [OF assms(1)] by (intro k) (simp add: charon_do_def)
  next
    case (Op_initiate ty gw user pw)
    obtain cs where cs: "c_cs s = Some cs" using charon_inv_cs [OF assms(1)] by blast
    then have "cs_service cs = 0" "ty \<noteq> None" "gw \<noteq> None" "pw \<noteq> None"
      using assms(3) Op_initiate by (simp_all add: charon_allowed_def)
    from initialize_tunnel_fresh [OF assms(1) cs this] show ?thesis
      using Op_initiate by (simp add: charon_do_def) blast
  next
    case (Op_network d)
    then show ?thesis using network_changed_safe [OF assms(1)]
      by (intro k) (simp add: charon_do_def notify_library_def)
  next
    case Op_release
    obtain cs where cs: "c_cs s = Some cs" using charon_inv_cs [OF assms(1)] by blast
    then have "1 < refs (c_world s) (cs_tunnel_ctx cs)" using assms(3) Op_release by (simp add: charon_allowed_def)
    then show ?thesis using release_safe [OF assms(1) cs] Op_release by simp
  qed
qed

lemma charon_run_safe:
  assumes "charon_inv s" "no_null_arrays env"
  shows "\<exists>s'. charon_run env ops s = Some s' \<and> advances s s' \<and> (Op_release \<notin> set ops \<longrightarrow> c_world s' = c_world s)"
  using assms(1)
proof (induction ops arbitrary: s)
  case (Cons opn ops)
  show ?case
  proof (cases "charon_allowed opn s")
    case True
    then obtain s1 where s1: "charon_do env opn s = Some s1" "advances s s1" "opn = Op_release \<or> c_world s1 = c_world s"
      using charon_do_safe [OF Cons.prems assms(2)] by blast
    then have "charon_inv s1" by (simp add: advances_def)
    from Cons.IH [OF this] obtain s2 where "charon_run env ops s1 = Some s2" "advances s1 s2"
      "Op_release \<notin> set ops \<longrightarrow> c_world s2 = c_world s1" by blast
    then show ?thesis using True s1 advances_trans by auto
  qed (use Cons.IH [OF Cons.prems] in auto)
qed (simp add: advances_refl)

end
