(* ===== verification/CharonLife.thy ===== *)
theory CharonLife
  imports CharonRun
begin

text \<open>
  The libraries come up and go down in balance: \<open>initialize_library\<close> ends either idle again or
  in the invariant with one more reference to the tunnel, and \<open>deinitialize_library\<close> returns
  from the invariant to idle.
\<close>

section \<open>States without charonservice\<close>

definition libs :: "charon \<Rightarrow> nat \<times> nat \<times> bool \<times> nat" where
  "libs s = (c_lib s, c_hydra s, c_ipsec s, c_daemon s)"

text \<open>No service, no listener, no callback and nothing queued.\<close>

definition quiet_bus :: "charon \<Rightarrow> bool" where
  "quiet_bus s \<longleftrightarrow> (\<forall>b>0. c_services s b = None) \<and> c_listeners s = [] \<and> \<not> c_esp_cb s \<and>
     c_inbound s = None \<and> \<not> c_outbound s \<and> \<not> c_registered s"

definition calm :: "world \<Rightarrow> charon \<Rightarrow> bool" where
  "calm w s \<longleftrightarrow> quiet_bus s \<and> c_jobs s = [] \<and> c_timers s = [] \<and> c_cs s = None \<and> c_sets s = [] \<and> c_world s = w"

definition charon_idle :: "charon \<Rightarrow> bool" where
  "charon_idle s \<longleftrightarrow> calm (c_world s) s \<and> libs s = (0, 0, False, 0)"

lemma no_services: "(\<forall>b>0. c_services s b = None) \<longleftrightarrow> (\<forall>b. get_service s b = None)"
  by (auto simp: get_service_def)

lemma calm_io: "io_only s s' \<Longrightarrow> calm w s \<Longrightarrow> calm w s' \<and> libs s' = libs s"
  by (simp add: calm_def quiet_bus_def libs_def io_onlyD)

lemma set_options_io: "io_only s (set_options logfile s)"
proof -
  have "io_only s (foldl (\<lambda>s (k, v). cemit (Set_option k v) s) s kvs)" for kvs
  proof (induction kvs arbitrary: s)
    case (Cons kv kvs)
    have "io_only s (cemit (Set_option (fst kv) (snd kv)) s)" by simp
    from io_only_trans [OF this Cons.IH] show ?case by (simp add: case_prod_beta)
  qed simp
  then show ?thesis by (simp add: set_options_def)
qed

lemma free_string_io: "io_only s (free_string t s)"
  by (simp add: free_string_def split: option.splits)

lemma bus_all_nobody: "c_listeners s = [] \<Longrightarrow> bus_all env es s = Some s"
proof (induction es)
  case (Cons e es)
  have "children_down env ike cs s = Some s" for ike cs
    using Cons.prems by (induction cs) (simp_all add: bus_child_updown_def)
  then have "bus_dispatch env e s = Some s"
    using Cons.prems by (cases e) (simp_all add: bus_dispatch_def bus_child_updown_def)
  then show ?case using Cons by simp
qed simp

section \<open>The libraries\<close>

lemmas lib_defs = library_init_def library_deinit_def libhydra_init_def libhydra_deinit_def
  libipsec_init_def libipsec_deinit_def libcharon_init_def libs_def calm_def quiet_bus_def Let_def

lemma get_service_cong: "c_services s = c_services t \<Longrightarrow> get_service s b = get_service t b"
  by (simp add: get_service_def)

lemma library_init_calm:
  "library_init env s = (ok, s') \<Longrightarrow> calm w s \<Longrightarrow> libs s = (0, 0, False, 0) \<Longrightarrow>
   calm w s' \<and> libs s' = (1, 0, False, 0)"
  by (auto simp: lib_defs)

lemma library_deinit_calm:
  "calm w (s\<lparr>c_sets := []\<rparr>) \<Longrightarrow> libs s = (1, 0, False, 0) \<Longrightarrow>
   calm w (library_deinit s) \<and> libs (library_deinit s) = (0, 0, False, 0)"
  by (auto simp: lib_defs)

lemma libhydra_init_calm:
  "libhydra_init env s = (ok, s') \<Longrightarrow> calm w s \<Longrightarrow> libs s = (1, 0, False, 0) \<Longrightarrow>
   calm w s' \<and> libs s' = (1, 1, False, 0)"
  by (auto simp: lib_defs)

lemma libhydra_deinit_calm:
  "calm w (s\<lparr>c_sets := []\<rparr>) \<Longrightarrow> libs s = (1, 1, False, 0) \<Longrightarrow>
   calm w ((libhydra_deinit s)\<lparr>c_sets := []\<rparr>) \<and> libs (libhydra_deinit s) = (1, 0, False, 0)"
  by (auto simp: lib_defs)

lemma libipsec_init_calm:
  "libipsec_init env s = (ok, s') \<Longrightarrow> calm w s \<Longrightarrow> libs s = (1, 1, False, 0) \<Longrightarrow>
   calm w s' \<and> libs s' = (1, 1, True, 0)"
  by (auto simp: lib_defs)

lemma libipsec_deinit_calm:
  "calm w (s\<lparr>c_sets := []\<rparr>) \<Longrightarrow> libs s = (1, 1, True, 0) \<Longrightarrow>
   \<exists>s'. libipsec_deinit s = Some s' \<and> calm w (s'\<lparr>c_sets := []\<rparr>) \<and> libs s' = (1, 1, False, 0)"
  by (auto simp: lib_defs)

lemma libcharon_init_calm:
  "libcharon_init env s = (ok, s') \<Longrightarrow> calm w s \<Longrightarrow> libs s = (1, 1, True, 0) \<Longrightarrow>
   calm w s' \<and> libs s' = (1, 1, True, 1)"
  by (auto simp: lib_defs)

text \<open>The common end: ESP, then hydra, then the base library.\<close>

lemma down_calm:
  assumes "calm w (s\<lparr>c_sets := []\<rparr>)" "libs s = (1, 1, True, 0)"
  shows "\<exists>s'. libipsec_deinit s = Some s' \<and> charon_idle (library_deinit (libhydra_deinit s')) \<and>
    c_world (library_deinit (libhydra_deinit s')) = w"
proof -
  obtain s1 where s1: "libipsec_deinit s = Some s1" "calm w (s1\<lparr>c_sets := []\<rparr>)" "libs s1 = (1, 1, False, 0)"
    using libipsec_deinit_calm [OF assms] by blast
  have "calm w ((libhydra_deinit s1)\<lparr>c_sets := []\<rparr>)" "libs (libhydra_deinit s1) = (1, 0, False, 0)"
    using libhydra_deinit_calm [OF s1(2,3)] by auto
  from library_deinit_calm [OF this] show ?thesis using s1(1) by (auto simp: charon_idle_def calm_def)
qed

section \<open>Unloading the plugins\<close>

text \<open>After the daemon has gone, \<open>charonservice\<close> is left with its credentials and the tunnel.\<close>

definition leftover :: "charonservice \<Rightarrow> world \<Rightarrow> charon \<Rightarrow> bool" where
  "leftover cs w s \<longleftrightarrow> quiet_bus s \<and> c_jobs s = [] \<and> c_timers s = [] \<and> c_cs s = Some cs \<and>
     ac_lock (cs_creds cs) = rwlock_free \<and> c_world s = w"

lemma service_destroy_Some:
  assumes "services_ok fd a s" "get_service s a = Some v"
  shows "\<exists>s'. service_destroy a s = Some s' \<and> (\<forall>b. get_service s' b = None) \<and> c_listeners s' = [] \<and>
    \<not> c_esp_cb s' \<and> c_inbound s' = None \<and> \<not> c_outbound s' \<and> c_cs s' = c_cs s \<and> c_world s' = c_world s \<and>
    c_registered s' = c_registered s \<and> libs s' = libs s \<and> c_jobs s' = c_jobs s \<and> c_timers s' = c_timers s \<and>
    c_next s' = c_next s"
proof -
  let ?s0 = "s\<lparr>c_listeners := remove1 a (c_listeners s)\<rparr>"
  have l: "sv_lock v = rwlock_free" using services_okD(2) [OF assms] by (simp add: service_ok_def)
  have "get_service ?s0 b = get_service s b" for b by (simp add: get_service_def)
  then have g0: "get_service ?s0 a = Some v" using assms(2) by simp
  note e = services_okE [OF assms(1)]
  have op: "device_open s a = (0 \<le> sv_tunfd v)" using assms(2) by (simp add: device_open_def)
  define s1 where "s1 = (if sv_tunfd v < 0 then ?s0
    else cemit (Close_tun (sv_tunfd v)) ((set_service a (v\<lparr>sv_tunfd := - 1\<rparr>) ?s0)
      \<lparr>c_outbound := False, c_inbound := None, c_esp_cb := False\<rparr>))"
  have s1: "close_tun_device a ?s0 = Some s1" unfolding s1_def by (rule close_tun_device_eq [OF g0 l])
  have f1: "c_listeners s1 = []" "\<not> c_esp_cb s1" "c_inbound s1 = None" "\<not> c_outbound s1"
    "c_cs s1 = c_cs s" "c_world s1 = c_world s" "c_registered s1 = c_registered s" "libs s1 = libs s"
    "c_jobs s1 = c_jobs s" "c_timers s1 = c_timers s" "c_next s1 = c_next s"
    "b \<noteq> a \<Longrightarrow> get_service s1 b = get_service s b" for b
    using e op by (auto simp: s1_def libs_def get_service_def)
  define s2 where "s2 = free_string (map_option memwipe (sv_password v))
    (free_string (sv_username v) (free_string (sv_gateway v) (free_string (sv_type v) s1)))"
  have i: "io_only s1 s2" unfolding s2_def using free_string_io io_only_trans by blast
  note f2 = io_onlyD [OF i]
  have "service_destroy a s = Some (s2\<lparr>c_services := (c_services s2)(a := None)\<rparr>)"
    using assms(2) s1 by (simp add: service_destroy_def Let_def s2_def)
  moreover have "get_service (s2\<lparr>c_services := (c_services s2)(a := None)\<rparr>) b = None" for b
  proof (cases "b = a")
    case False
    then have "get_service s1 b = None"
      using f1(12) [OF False] services_okD(1) [OF assms(1)] by (cases "get_service s b") auto
    then show ?thesis using False f2(8) by (simp add: get_service_def split: if_splits)
  qed (simp add: get_service_def)
  ultimately show ?thesis using f1 f2 by (simp add: libs_def)
qed

lemma unregister_leftover:
  assumes "c_cs s = Some cs" "cs_net cs \<noteq> None" "ac_lock (cs_creds cs) = rwlock_free"
    "services_ok fd (cs_service cs) s" "c_jobs s = []" "c_timers s = []"
  shows "\<exists>s' cs'. charonservice_register False s = Some s' \<and> leftover cs' (c_world s) (s'\<lparr>c_registered := False\<rparr>) \<and>
    libs s' = libs s \<and> cs_tunnel_ctx cs' = cs_tunnel_ctx cs"
proof -
  let ?cs = "(remove_connectivity_cb cs)\<lparr>cs_net := None\<rparr>"
  define s1 where "s1 = cemit Remove_handler ((set_cs ?cs s)\<lparr>c_sets := remove1 Creds_set (c_sets s)\<rparr>)"
  have d: "android_net_destroy s = Some (set_cs ?cs s)" using assms(1,2) by (auto simp: android_net_destroy_def)
  have q: "cs_service (remove_connectivity_cb cs) = cs_service cs"
    "cs_tunnel_ctx (remove_connectivity_cb cs) = cs_tunnel_ctx cs"
    "cs_creds (remove_connectivity_cb cs) = cs_creds cs"
    by (simp_all add: remove_connectivity_cb_def)
  have g: "get_service s1 b = get_service s b" for b by (simp add: s1_def get_service_def set_cs_def)
  have f1: "c_cs s1 = Some ?cs" "c_world s1 = c_world s" "libs s1 = libs s" "c_jobs s1 = []" "c_timers s1 = []"
    using assms(5,6) by (simp_all add: s1_def set_cs_def libs_def)
  have ok1: "services_ok fd (cs_service cs) s1"
    by (rule services_ok_cong [OF assms(4)]) (simp_all add: g, simp_all add: s1_def set_cs_def)
  show ?thesis
  proof (cases "cs_service cs = 0")
    case True
    have "get_service s1 b = None" for b using services_okD [OF ok1] True by (cases "get_service s1 b") auto
    moreover have "charonservice_register False s = Some s1"
      by (simp add: charonservice_register_def d True q s1_def set_cs_def)
    moreover have "\<not> device_open s1 0" by (simp add: device_open_def)
    moreover have "c_listeners s1 = []" "c_inbound s1 = None" "\<not> c_esp_cb s1" "\<not> c_outbound s1"
      using services_okE [OF ok1] True calculation(3) by simp_all
    ultimately have "leftover ?cs (c_world s) (s1\<lparr>c_registered := False\<rparr>)"
      using f1 assms(3) by (simp add: leftover_def quiet_bus_def no_services q)
    then show ?thesis using \<open>charonservice_register False s = Some s1\<close> f1(3) q(2)
      by (intro exI [of _ s1] exI [of _ ?cs]) simp
  next
    case False
    then obtain v where "get_service s1 (cs_service cs) = Some v" using services_okE(3) [OF ok1] by auto
    from service_destroy_Some [OF ok1 this] obtain s2 where s2: "service_destroy (cs_service cs) s1 = Some s2"
      "\<forall>b. get_service s2 b = None" "c_listeners s2 = []" "\<not> c_esp_cb s2" "c_inbound s2 = None" "\<not> c_outbound s2"
      "c_cs s2 = c_cs s1" "c_world s2 = c_world s1" "libs s2 = libs s1" "c_jobs s2 = c_jobs s1" "c_timers s2 = c_timers s1"
      by blast
    let ?cs2 = "?cs\<lparr>cs_service := 0\<rparr>"
    have "charonservice_register False s = Some (set_cs ?cs2 s2)"
    proof -
      have "cemit Remove_handler ((set_cs ?cs s)\<lparr>c_sets := remove1 Creds_set (c_sets (set_cs ?cs s))\<rparr>) = s1"
        by (simp add: s1_def set_cs_def)
      then show ?thesis using False f1(1) s2(1,7) by (simp add: charonservice_register_def d q)
    qed
    moreover have "leftover ?cs2 (c_world s) ((set_cs ?cs2 s2)\<lparr>c_registered := False\<rparr>)"
      using s2 f1 assms(3) by (simp add: leftover_def quiet_bus_def no_services q set_cs_def)
    moreover have "libs (set_cs ?cs2 s2) = libs s" using s2(9) f1(3) by (simp add: libs_def set_cs_def)
    ultimately show ?thesis using q(2) by (intro exI [of _ "set_cs ?cs2 s2"] exI [of _ ?cs2]) simp
  qed
qed

lemma libcharon_deinit_leftover:
  assumes "charon_inv s" "libs s = (1, 1, True, 1)" "c_cs s = Some cs"
  shows "\<exists>s' cs'. libcharon_deinit env s = Some s' \<and> leftover cs' (c_world s) s' \<and> libs s' = (1, 1, True, 0) \<and>
    cs_tunnel_ctx cs' = cs_tunnel_ctx cs"
proof -
  define s0 where "s0 = cemit Flush_sas s"
  have k0: "keeps s s0" unfolding s0_def using emit_keeps assms(1) by blast
  obtain s1 where s1: "bus_all env (ce_flushed env (c_io s0)) s0 = Some s1" "keeps s0 s1"
    using bus_all_safe [OF keeps_inv [OF k0]] by blast
  have k1: "keeps s s1" using k0 s1(2) keeps_trans by blast
  have k2: "keeps s1 (s1\<lparr>c_jobs := [], c_timers := []\<rparr>)" by (rule inv_jobs [OF keeps_inv [OF k1]]) simp
  define s2 where "s2 = s1\<lparr>c_jobs := [], c_timers := []\<rparr>"
  have k: "keeps s s2" unfolding s2_def using k1 k2 keeps_trans by blast
  obtain cs2 where cs2: "core_ok cs2 s2"
    "services_ok (get_remote_fd (c_world s2) (cs_tunnel_ctx cs2)) (cs_service cs2) s2"
    using keeps_inv [OF k] unfolding charon_inv_def by blast
  have t: "cs_tunnel_ctx cs2 = cs_tunnel_ctx cs" "c_world s2 = c_world s" "libs s2 = libs s"
    using k cs2(1) assms(3) by (auto simp: keeps_def core_ok_def libs_def)
  have "c_cs s2 = Some cs2" "cs_net cs2 \<noteq> None" "ac_lock (cs_creds cs2) = rwlock_free" "c_registered s2"
    "c_jobs s2 = []" "c_timers s2 = []" using cs2(1) by (auto simp: core_ok_def s2_def)
  note u = this
  have r1: "c_registered s1" using u(4) by (simp add: s2_def)
  from unregister_leftover [OF u(1-3) cs2(2) u(5,6)] obtain s3 cs3 where s3:
    "charonservice_register False s2 = Some s3" "leftover cs3 (c_world s) (s3\<lparr>c_registered := False\<rparr>)"
    "libs s3 = libs s" "cs_tunnel_ctx cs3 = cs_tunnel_ctx cs"
    using t by auto
  let ?s4 = "cemit (Deinit_library ''charon'') (s3\<lparr>c_registered := False, c_listeners := [], c_esp_cb := False, c_daemon := 0\<rparr>)"
  have "libcharon_deinit env s = Some ?s4"
    using assms(2) s1(1) s3(1) r1
    by (simp add: libcharon_deinit_def libs_def s0_def [symmetric] s2_def [symmetric] Let_def del: cemit_simps)
  moreover have "leftover cs3 (c_world s) ?s4" using s3(2) by (simp add: leftover_def quiet_bus_def)
  moreover have "libs ?s4 = (1, 1, True, 0)" using s3(3) assms(2) by (simp add: libs_def)
  ultimately show ?thesis using s3(4) by blast
qed

text \<open>Releasing the credentials, the Java object and the tunnel.\<close>

lemma charonservice_deinit_Some:
  assumes "leftover cs w s" "wf_tuns w" "0 < refs w (cs_tunnel_ctx cs)"
  shows "\<exists>s' w'. charonservice_deinit env s = Some s' \<and> calm w' (s'\<lparr>c_sets := []\<rparr>) \<and> libs s' = libs s \<and>
    wf_tuns w' \<and> refs w' = (refs w)(cs_tunnel_ctx cs := refs w (cs_tunnel_ctx cs) - 1)"
proof -
  have l: "c_cs s = Some cs" "ac_lock (cs_creds cs) = rwlock_free" "c_world s = w"
    using assms(1) by (simp_all add: leftover_def)
  obtain s1 where s1: "creds_clear env s = Some s1" "creds_only s s1" using creds_clear_Some [OF l(1,2)] by blast
  note f = creds_onlyD [OF s1(2)]
  obtain c where c: "c_cs s1 = Some (cs\<lparr>cs_creds := c\<rparr>)" using f(19) l(1) by auto
  obtain r w' where w': "ref_put w (cs_tunnel_ctx cs) = Some (r, w')" "wf_tuns w'"
    "refs w' = (refs w)(cs_tunnel_ctx cs := refs w (cs_tunnel_ctx cs) - 1)"
    using ref_put_refs [OF assms(2,3)] by blast
  have nz: "cs_tunnel_ctx cs \<noteq> 0" using assms(3) refs_pos [OF assms(3)] get_tun_nz by blast
  let ?s2 = "(cemit (Java_unref (cs_jtunnel cs)) s1)\<lparr>c_world := w', c_cs := None\<rparr>"
  have "charonservice_deinit env s = Some ?s2"
    using s1(1) c w'(1) nz f(1) l(3) by (simp add: charonservice_deinit_def android_creds_destroy_def)
  moreover have "calm w' (?s2\<lparr>c_sets := []\<rparr>)"
    using assms(1) f(7) unfolding calm_def leftover_def quiet_bus_def by (simp add: f)
  moreover have "libs ?s2 = libs s" by (simp add: libs_def f)
  ultimately show ?thesis using w'(2,3) by blast
qed

lemma deinitialize_leftover:
  assumes "libcharon_deinit env s = Some s1" "leftover cs w s1" "libs s1 = (1, 1, True, 0)"
    "wf_tuns w" "0 < refs w (cs_tunnel_ctx cs)"
  shows "\<exists>s'. deinitialize_library env s = Some s' \<and> charon_idle s' \<and>
    refs (c_world s') = (refs w)(cs_tunnel_ctx cs := refs w (cs_tunnel_ctx cs) - 1)"
proof -
  obtain s2 w' where s2: "charonservice_deinit env s1 = Some s2" "calm w' (s2\<lparr>c_sets := []\<rparr>)" "libs s2 = libs s1"
    "refs w' = (refs w)(cs_tunnel_ctx cs := refs w (cs_tunnel_ctx cs) - 1)"
    using charonservice_deinit_Some [OF assms(2,4,5)] by blast
  obtain s3 where "libipsec_deinit s2 = Some s3" "charon_idle (library_deinit (libhydra_deinit s3))"
    "c_world (library_deinit (libhydra_deinit s3)) = w'"
    using down_calm [OF s2(2)] s2(3) assms(3) by auto
  then show ?thesis using assms(1) s2 by (simp add: deinitialize_library_def)
qed

lemma deinitialize_inv:
  assumes "charon_inv s" "libs s = (1, 1, True, 1)" "c_cs s = Some cs"
  shows "\<exists>s'. deinitialize_library env s = Some s' \<and> charon_idle s' \<and>
    refs (c_world s') = (refs (c_world s))(cs_tunnel_ctx cs := refs (c_world s) (cs_tunnel_ctx cs) - 1)"
proof -
  obtain s1 cs1 where s1: "libcharon_deinit env s = Some s1" "leftover cs1 (c_world s) s1"
    "libs s1 = (1, 1, True, 0)" "cs_tunnel_ctx cs1 = cs_tunnel_ctx cs"
    using libcharon_deinit_leftover [OF assms] by blast
  have "wf_tuns (c_world s)" "0 < refs (c_world s) (cs_tunnel_ctx cs1)"
    using assms(1,3) s1(4) unfolding charon_inv_def core_ok_def by auto
  from deinitialize_leftover [OF s1(1-3) this] show ?thesis using s1(4) by simp
qed

section \<open>Coming up\<close>

text \<open>The plugins are loaded successfully only with the backend registered: its feature is
  critical.\<close>

definition load_honest :: "cenv \<Rightarrow> bool" where
  "load_honest env \<longleftrightarrow> (\<forall>h. snd (ce_load env h) \<longrightarrow> fst (ce_load env h))"

text \<open>A tunnel that can take another reference.\<close>

definition tun_usable :: "world \<Rightarrow> nat \<Rightarrow> bool" where
  "tun_usable w t \<longleftrightarrow> wf_tuns w \<and> 0 < refs w t \<and> refs w t < 2 ^ 32 - 1 \<and>
     (\<exists>fd. get_remote_fd w t = Some fd \<and> - 1 \<le> fd)"

lemma ref_get_usable:
  assumes "tun_usable w t"
  shows "\<exists>w'. ref_get w t = Some (t, w') \<and> wf_tuns w' \<and> refs w' = (refs w)(t := refs w t + 1) \<and>
    get_remote_fd w' t = get_remote_fd w t"
proof -
  have u: "wf_tuns w" "0 < refs w t" "refs w t < 2 ^ 32 - 1" using assms by (simp_all add: tun_usable_def)
  obtain c where c: "get_tun w t = Some c" "refs w t = unat (ref_count c)" using refs_pos u(2) by blast
  obtain w' where w': "ref_get w t = Some (t, w')" "wf_tuns w'" "refs w' = (refs w)(t := refs w t + 1)"
    using ref_get_refs [OF u] by blast
  have nz: "t \<noteq> 0" using get_tun_nz c(1) by blast
  have "w' = set_tun t (c\<lparr>ref_count := ref_count c + 1, ref_generation := ref_generation c + 1\<rparr>) w"
    using ref_get_Some [OF c(1)] u(3) c(2) w'(1) by simp
  then have "get_remote_fd w' t = get_remote_fd w t" using c(1) nz by (simp add: get_remote_fd_def)
  then show ?thesis using w' by blast
qed

text \<open>\<open>charonservice_init\<close> and the loading of the plugins.\<close>

lemma charonservice_init_Some:
  assumes "calm w s" "tun_usable w t"
  shows "\<exists>cs s' w'. charonservice_init env t s = Some s' \<and> leftover cs w' s' \<and> libs s' = libs s \<and>
    cs_tunnel_ctx cs = t \<and> cs_service cs = 0 \<and> wf_tuns w' \<and> refs w' = (refs w)(t := refs w t + 1) \<and>
    get_remote_fd w' t = get_remote_fd w t"
proof -
  obtain w' where w': "ref_get w t = Some (t, w')" "wf_tuns w'" "refs w' = (refs w)(t := refs w t + 1)"
    "get_remote_fd w' t = get_remote_fd w t" using ref_get_usable [OF assms(2)] by blast
  let ?creds = "\<lparr>ac_creds = empty_mem_cred, ac_lock = rwlock_free, ac_loaded = False\<rparr>"
  obtain j s1 where j: "new_ref env (s\<lparr>c_sets := c_sets s @ [Mem_set]\<rparr>) = (j, s1)" by fastforce
  note f = io_onlyD [OF new_ref_io [OF j]]
  let ?cs = "\<lparr>cs_creds = ?creds, cs_service = 0, cs_connectivity = False, cs_net = None,
    cs_jtunnel = j, cs_sockets = [], cs_tunnel_ctx = t\<rparr>"
  let ?s = "set_cs ?cs (s1\<lparr>c_world := w'\<rparr>)"
  have "charonservice_init env t s = Some ?s"
    using assms(1) j w'(1) by (simp add: charonservice_init_def android_creds_create_def calm_def f)
  moreover have "leftover ?cs w' ?s"
    using assms(1) by (simp add: leftover_def calm_def quiet_bus_def set_cs_def f)
  moreover have "libs ?s = libs s" by (simp add: libs_def set_cs_def f)
  ultimately show ?thesis using w' by (intro exI [of _ ?cs] exI [of _ ?s] exI [of _ w']) simp
qed

lemma charon_initialize_Some:
  assumes "leftover cs w s" "cs_service cs = 0" "wf_tuns w" "0 < refs w (cs_tunnel_ctx cs)"
    "get_remote_fd w (cs_tunnel_ctx cs) = Some fd" "- 1 \<le> fd" "load_honest env"
  shows "\<exists>ok s' cs'. charon_initialize env s = Some (ok, s') \<and> c_cs s' = Some cs' \<and> c_world s' = w \<and>
    cs_tunnel_ctx cs' = cs_tunnel_ctx cs \<and> cs_service cs' = 0 \<and> libs s' = libs s \<and>
    (charon_inv s' \<or> \<not> ok \<and> leftover cs' w s')"
proof -
  define s0 where "s0 = cemit Load_plugins s"
  have l0: "leftover cs w s0" using assms(1) by (simp add: s0_def leftover_def quiet_bus_def)
  then have c0: "c_cs s0 = Some cs" "c_world s0 = w" by (simp_all add: leftover_def)
  obtain r ok where r: "ce_load env (c_io s0) = (r, ok)" by fastforce
  show ?thesis
  proof (cases r)
    case False
    then have "\<not> ok" using r assms(7) unfolding load_honest_def by (metis fst_conv snd_conv)
    moreover have "charon_initialize env s = Some (ok, s0)"
      using r False by (simp add: charon_initialize_def s0_def [symmetric] Let_def del: cemit_simps)
    moreover have "libs s0 = libs s" by (simp add: s0_def libs_def)
    ultimately show ?thesis using l0 c0 assms(2) by (intro exI [of _ ok] exI [of _ s0] exI [of _ cs]) simp
  next
    case True
    let ?cs = "cs\<lparr>cs_net := Some (0, 0), cs_connectivity := True\<rparr>"
    let ?s = "(cemit Add_handler ((set_cs ?cs s0)\<lparr>c_sets := c_sets s0 @ [Creds_set]\<rparr>))\<lparr>c_registered := True\<rparr>"
    have "add_connectivity_cb (cs\<lparr>cs_net := Some (0, 0)\<rparr>) = ?cs" by (simp add: add_connectivity_cb_def)
    then have "charon_initialize env s = Some (ok, ?s)"
      using r True c0 by (simp add: charon_initialize_def s0_def [symmetric] charonservice_register_def
          android_net_create_def Let_def set_cs_def del: cemit_simps)
    moreover have g: "get_service ?s b = None" for b
      using l0 by (simp add: leftover_def quiet_bus_def get_service_def set_cs_def)
    moreover have "services_ok (Some fd) 0 ?s"
      using l0 unfolding services_ok_def device_open_def g
      by (simp add: leftover_def quiet_bus_def set_cs_def)
    moreover have "core_ok ?cs ?s"
      using l0 assms(3-6) by (simp add: core_ok_def leftover_def set_cs_def)
    moreover have "c_cs ?s = Some ?cs" "c_world ?s = w" "libs ?s = libs s"
      using c0 by (simp_all add: set_cs_def libs_def s0_def)
    ultimately show ?thesis using assms(2,5)
      by (intro exI [of _ ok] exI [of _ ?s] exI [of _ ?cs]) (simp add: charon_inv_def, fastforce)
  qed
qed

definition started :: "nat \<Rightarrow> world \<Rightarrow> charon \<Rightarrow> bool" where
  "started t w s \<longleftrightarrow> charon_inv s \<and> libs s = (1, 1, True, 1) \<and>
     (\<exists>cs. c_cs s = Some cs \<and> cs_tunnel_ctx cs = t \<and> cs_service cs = 0) \<and>
     refs (c_world s) = (refs w)(t := refs w t + 1)"

text \<open>Everything was taken back: the libraries, and the reference to the tunnel.\<close>

definition restored :: "world \<Rightarrow> charon \<Rightarrow> bool" where
  "restored w s \<longleftrightarrow> charon_idle s \<and> refs (c_world s) = refs w"

lemma up_after_libs:
  assumes "calm w s" "libs s = (1, 1, True, 1)" "tun_usable w t" "load_honest env"
  shows "\<exists>s1 ok s2. charonservice_init env t s = Some s1 \<and> charon_initialize env s1 = Some (ok, s2) \<and>
    (if ok then started t w (cemit Start s2)
     else \<exists>s3. deinitialize_library env s2 = Some s3 \<and> restored w s3)"
proof -
  obtain cs s1 w1 where s1: "charonservice_init env t s = Some s1" "leftover cs w1 s1" "libs s1 = libs s"
    "cs_tunnel_ctx cs = t" "cs_service cs = 0" "wf_tuns w1" "refs w1 = (refs w)(t := refs w t + 1)"
    "get_remote_fd w1 t = get_remote_fd w t" using charonservice_init_Some [OF assms(1,3)] by blast
  obtain fd where fd: "get_remote_fd w1 (cs_tunnel_ctx cs) = Some fd" "- 1 \<le> fd"
    using assms(3) s1(4,8) by (auto simp: tun_usable_def)
  have p: "0 < refs w1 (cs_tunnel_ctx cs)" using s1(4,7) by simp
  obtain ok s2 cs2 where s2: "charon_initialize env s1 = Some (ok, s2)" "c_cs s2 = Some cs2" "c_world s2 = w1"
    "cs_tunnel_ctx cs2 = t" "cs_service cs2 = 0" "libs s2 = libs s" "charon_inv s2 \<or> \<not> ok \<and> leftover cs2 w1 s2"
    using charon_initialize_Some [OF s1(2,5,6) p fd assms(4)] s1(3,4) by auto
  have bk: "(refs w1)(t := refs w1 t - 1) = refs w" using s1(7) by simp
  show ?thesis
  proof (cases ok)
    case True
    then have "charon_inv (cemit Start s2)" using s2(7) emit_keeps keeps_inv by blast
    then have "started t w (cemit Start s2)"
      using s2 s1(7) assms(2) by (simp add: started_def) (simp add: libs_def)
    then show ?thesis using s1(1) s2(1) True by auto
  next
    case False
    have "\<exists>s3. deinitialize_library env s2 = Some s3 \<and> charon_idle s3 \<and>
      refs (c_world s3) = (refs w1)(t := refs w1 t - 1)"
    proof (cases "charon_inv s2")
      case True
      then show ?thesis using deinitialize_inv [of s2 cs2 env] s2 assms(2) by auto
    next
      case False
      then have l: "leftover cs2 w1 s2" using s2(7) by blast
      let ?s3 = "(cemit Flush_sas s2)\<lparr>c_jobs := [], c_timers := []\<rparr>"
      let ?s4 = "cemit (Deinit_library ''charon'') (?s3\<lparr>c_listeners := [], c_esp_cb := False, c_daemon := 0\<rparr>)"
      have "libcharon_deinit env s2 = Some ?s4"
        using l s2(6) assms(2)
        by (simp add: libcharon_deinit_def libs_def leftover_def quiet_bus_def bus_all_nobody)
      moreover have "leftover cs2 w1 ?s4" using l by (simp add: leftover_def quiet_bus_def)
      moreover have "libs ?s4 = (1, 1, True, 0)" using s2(6) assms(2) by (simp add: libs_def)
      ultimately show ?thesis using deinitialize_leftover [of env s2 ?s4 cs2 w1] s2(4) s1(6,4) p by simp
    qed
    then show ?thesis using s1(1) s2(1) False bk by (auto simp: restored_def)
  qed
qed

lemma initialize_library_cases:
  assumes "charon_idle s" "tun_usable (c_world s) t" "load_honest env"
  shows "\<exists>ok s'. initialize_library env logfile t s = Some (ok, s') \<and>
    (ok \<and> started t (c_world s) s' \<or> restored (c_world s) s') \<and>
    ((\<forall>h. ce_init env h) \<longrightarrow> ok = started t (c_world s) s')"
proof -
  have c: "calm (c_world s) s" "libs s = (0, 0, False, 0)" using assms(1) by (simp_all add: charon_idle_def)
  let ?w = "c_world s"
  have res: "restored ?w u" if "charon_idle u" "c_world u = ?w" for u using that by (simp add: restored_def)
  have nst: "\<not> started t ?w u" if "charon_idle u" for u using that by (auto simp: charon_idle_def started_def)
  have ns: "calm w u \<Longrightarrow> calm w (u\<lparr>c_sets := []\<rparr>)" for w u by (simp add: calm_def quiet_bus_def)
  obtain k1 s1 where i1: "library_init env s = (k1, s1)" by fastforce
  note l1 = library_init_calm [OF i1 c]
  define s2 where "s2 = free_string logfile (set_options (case logfile of None \<Rightarrow> ''(null)'' | Some l \<Rightarrow> l) s1)"
  have "io_only s1 s2" unfolding s2_def using set_options_io free_string_io io_only_trans by blast
  then have l2: "calm ?w s2" "libs s2 = (1, 0, False, 0)" using calm_io l1 by auto
  obtain k3 s3 where i3: "libhydra_init env s2 = (k3, s3)" by fastforce
  note l3 = libhydra_init_calm [OF i3 l2]
  obtain k4 s4 where i4: "libipsec_init env s3 = (k4, s4)" by fastforce
  have l4: "calm ?w s4" "libs s4 = (1, 1, True, 0)" using libipsec_init_calm [OF i4] l3 by auto
  obtain k5 s5 where i5: "libcharon_init env s4 = (k5, s5)" by fastforce
  have l5: "calm ?w s5" "libs s5 = (1, 1, True, 1)" using libcharon_init_calm [OF i5] l4 by auto
  have all: "k1" "k3" "k4" "k5" if "\<forall>h. ce_init env h"
    using that i1 i3 i4 i5 by (auto simp: library_init_def libhydra_init_def libipsec_init_def libcharon_init_def Let_def)
  note d = initialize_library_def i1 s2_def [symmetric] i3 i4 i5
  consider "\<not> k1" | "k1" "\<not> k3" | "k1" "k3" "\<not> k4" | "k1" "k3" "k4" "\<not> k5" | "k1" "k3" "k4" "k5" by blast
  then show ?thesis
  proof cases
    case 1
    have "charon_idle (library_deinit s1)" "c_world (library_deinit s1) = ?w"
      using library_deinit_calm [of ?w s1] l1 ns by (auto simp: charon_idle_def calm_def)
    then show ?thesis using 1 res nst all by (auto simp: d)
  next
    case 2
    have "calm ?w ((libhydra_deinit s3)\<lparr>c_sets := []\<rparr>)" "libs (libhydra_deinit s3) = (1, 0, False, 0)"
      using libhydra_deinit_calm [of ?w s3] l3 ns by auto
    then have "charon_idle (library_deinit (libhydra_deinit s3))" "c_world (library_deinit (libhydra_deinit s3)) = ?w"
      using library_deinit_calm [of ?w "libhydra_deinit s3"] by (auto simp: charon_idle_def calm_def)
    then show ?thesis using 2 res nst all by (auto simp: d Let_def)
  next
    case 3
    obtain u where "libipsec_deinit s4 = Some u" "charon_idle (library_deinit (libhydra_deinit u))"
      "c_world (library_deinit (libhydra_deinit u)) = ?w" using down_calm [OF ns [OF l4(1)] l4(2)] by blast
    then show ?thesis using 3 res nst all by (auto simp: d Let_def)
  next
    case 4
    let ?u = "cemit (Deinit_library ''charon'') ((cemit Flush_sas s5)\<lparr>c_jobs := [], c_timers := [],
      c_listeners := [], c_esp_cb := False, c_daemon := 0\<rparr>)"
    have u: "libcharon_deinit env s5 = Some ?u"
      using l5 by (simp add: libcharon_deinit_def libs_def calm_def quiet_bus_def bus_all_nobody)
    have "calm ?w ?u" "libs ?u = (1, 1, True, 0)" using l5 by (simp_all add: calm_def quiet_bus_def libs_def)
    then obtain v where "libipsec_deinit ?u = Some v" "charon_idle (library_deinit (libhydra_deinit v))"
      "c_world (library_deinit (libhydra_deinit v)) = ?w" using down_calm [OF ns] by blast
    then show ?thesis using 4 res nst all u by (auto simp: d Let_def)
  next
    case 5
    have l6: "calm ?w (cemit Load_loggers s5)" "libs (cemit Load_loggers s5) = (1, 1, True, 1)"
      using calm_io [OF io_only_emit l5(1)] l5(2) by auto
    obtain s6 ok s7 where s6: "charonservice_init env t (cemit Load_loggers s5) = Some s6"
      "charon_initialize env s6 = Some (ok, s7)"
      "if ok then started t ?w (cemit Start s7) else \<exists>s3. deinitialize_library env s7 = Some s3 \<and> restored ?w s3"
      using up_after_libs [OF l6 assms(2,3)] by blast
    show ?thesis
    proof (cases ok)
      case True
      then show ?thesis using 5 s6 by (auto simp: d Let_def)
    next
      case False
      then obtain s8 where s8: "deinitialize_library env s7 = Some s8" "restored ?w s8" using s6(3) by auto
      then have "\<not> started t ?w s8" using nst by (simp add: restored_def)
      moreover have "initialize_library env logfile t s = Some (False, s8)"
        using 5 s6(1,2) False s8(1) by (auto simp: d Let_def deinitialize_library_def bind_eq_Some_iff)
      ultimately show ?thesis using s8(2) by auto
    qed
  qed
qed

end
