(* ===== verification/CharonProps.thy ===== *)
theory CharonProps
  imports CharonLife
begin

text \<open>
  The properties of the IPsec client: its life from the start of the libraries to their end,
  what Java is told when a CHILD SA comes up or goes down, the routes, the rounds of
  authentication, and what happens when Java starts a second connection too early.
\<close>

section \<open>An example\<close>

text \<open>A device on which everything succeeds: an address, a default route, a tunnel with one
  reference whose descriptor is 6.\<close>

definition sample_cenv :: cenv where
  "sample_cenv = \<lparr>ce_method = \<lambda>_. True, ce_newstr = \<lambda>_. True, ce_bool = \<lambda>_. True, ce_exception = \<lambda>_. False,
     ce_array = \<lambda>_. Some [Some [1, 2]], ce_object = \<lambda>_. Some 9, ce_string = \<lambda>_. Some ''joe'', ce_bytes = \<lambda>_. None,
     ce_handle = \<lambda>h. 100 + length h, ce_ntop = \<lambda>_. ''10.0.0.1'', ce_x509 = \<lambda>_. True, ce_pubkey = \<lambda>_. Some [3],
     ce_subject = \<lambda>_. ''CN=joe'', ce_id_any = \<lambda>_. False, ce_ip_packet = \<lambda>_. True, ce_time = \<lambda>h. (int (length h), 0),
     ce_vips = \<lambda>_. [Host4 0x0A000001], ce_policies = \<lambda>_. [(Host4 0, 0)], ce_reauth = \<lambda>_. False, ce_port = \<lambda>_. 500,
     ce_checkout = \<lambda>_. 7, ce_has_cfg = \<lambda>_. False, ce_initiate = \<lambda>_. ([], True), ce_dropped = \<lambda>_. [],
     ce_flushed = \<lambda>_. [], ce_select = \<lambda>_. Select_ready, ce_read = \<lambda>_. None, ce_init = \<lambda>_. True,
     ce_load = \<lambda>_. (True, True), ce_jelly_bean = False\<rparr>"

definition sample_charon :: charon where
  "sample_charon = \<lparr>c_world = sample_world, c_lib = 0, c_hydra = 0, c_ipsec = False, c_daemon = 0, c_cs = None,
     c_registered = False, c_services = \<lambda>_. None, c_next = 0, c_listeners = [], c_esp_cb = False,
     c_inbound = None, c_outbound = False, c_jobs = [], c_timers = [], c_sets = [], c_io = []\<rparr>"

text \<open>The daemon with one service that has its device open.\<close>

definition sample_service :: android_service where
  "sample_service = \<lparr>sv_hook = False, sv_ike_sa = 7, sv_type = Some ''ikev2-eap'', sv_gateway = Some ''gw'',
     sv_username = Some ''joe'', sv_password = Some ''pw'', sv_lock = rwlock_free, sv_tunfd = 6\<rparr>"

definition sample_cs :: charonservice where
  "sample_cs = \<lparr>cs_creds = \<lparr>ac_creds = empty_mem_cred, ac_lock = rwlock_free, ac_loaded = False\<rparr>,
     cs_service = 1, cs_connectivity = True, cs_net = Some (0, 0), cs_jtunnel = 100, cs_sockets = [], cs_tunnel_ctx = 1\<rparr>"

definition running_charon :: charon where
  "running_charon = sample_charon\<lparr>c_lib := 1, c_hydra := 1, c_ipsec := True, c_daemon := 1, c_cs := Some sample_cs,
     c_registered := True, c_services := [1 \<mapsto> sample_service], c_next := 1, c_listeners := [1],
     c_esp_cb := True, c_inbound := Some 1, c_outbound := True, c_jobs := [Handle_plain 1]\<rparr>"

text \<open>The same service before its device is open.\<close>

definition waiting_charon :: charon where
  "waiting_charon = running_charon\<lparr>c_services := [1 \<mapsto> sample_service\<lparr>sv_tunfd := - 1\<rparr>],
     c_esp_cb := False, c_inbound := None, c_outbound := False, c_jobs := []\<rparr>"

lemma sample_remote_fd: "get_remote_fd sample_world 1 = Some 6"
  by (simp add: get_remote_fd_def sample_world_def sample_tun_def get_tun_def set_tun_def)

lemma sample_idle: "charon_idle sample_charon" "tun_usable (c_world sample_charon) 1"
  "load_honest sample_cenv" "no_null_arrays sample_cenv"
  using sample_world_wf sample_world_refs sample_remote_fd
  by (simp_all add: charon_idle_def calm_def quiet_bus_def libs_def tun_usable_def load_honest_def
      no_null_arrays_def sample_charon_def sample_cenv_def)

lemma sample_core: "c_cs s = Some sample_cs \<Longrightarrow> c_world s = sample_world \<Longrightarrow> c_registered s \<Longrightarrow> core_ok sample_cs s"
  using sample_world_wf sample_world_refs sample_remote_fd by (simp add: core_ok_def sample_cs_def)

lemma running_inv: "charon_inv running_charon"
proof -
  have "core_ok sample_cs running_charon" by (rule sample_core) (simp_all add: running_charon_def sample_charon_def)
  moreover have "services_ok (Some 6) 1 running_charon"
    by (auto simp: services_ok_def running_charon_def sample_charon_def get_service_def device_open_def
        sample_service_def service_ok_def job_of_def split: if_splits)
  ultimately show ?thesis unfolding charon_inv_def
    by (intro exI [of _ sample_cs])
      (simp add: running_charon_def sample_charon_def sample_cs_def sample_remote_fd [simplified])
qed

lemma waiting_inv: "charon_inv waiting_charon"
proof -
  have "core_ok sample_cs waiting_charon"
    by (rule sample_core) (simp_all add: waiting_charon_def running_charon_def sample_charon_def)
  moreover have "services_ok (Some 6) 1 waiting_charon"
    by (auto simp: services_ok_def waiting_charon_def running_charon_def sample_charon_def get_service_def
        device_open_def sample_service_def service_ok_def split: if_splits)
  ultimately show ?thesis unfolding charon_inv_def
    by (intro exI [of _ sample_cs])
      (simp add: waiting_charon_def running_charon_def sample_charon_def sample_cs_def sample_remote_fd [simplified])
qed

section \<open>The life of the daemon\<close>

text \<open>C2: the daemon never faults and takes everything back. From idle, with a tunnel that has
  a usable reference, \<open>initialize_library\<close> either comes up with one more reference to the tunnel,
  or is idle again with no reference taken (for one failing library it then still returns
  true); when all libraries can be initialised its result tells which. Once up, every
  series of operations that Java allows, with any messages, jobs, timers and packets in between, runs
  without a fault, and \<open>deinitialize_library\<close> then brings the program back to idle. If Java did
  not release references in between, all tunnels have as many references as before.\<close>

theorem charon_lifecycle:
  assumes "charon_idle s" "tun_usable (c_world s) t" "load_honest env" "no_null_arrays env"
  shows "\<exists>ok s1. initialize_library env logfile t s = Some (ok, s1) \<and>
    (ok \<and> started t (c_world s) s1 \<or> restored (c_world s) s1) \<and>
    ((\<forall>h. ce_init env h) \<longrightarrow> ok = started t (c_world s) s1) \<and>
    (started t (c_world s) s1 \<longrightarrow>
       (\<exists>s2 s3. charon_run env ops s1 = Some s2 \<and> charon_inv s2 \<and> deinitialize_library env s2 = Some s3 \<and>
          charon_idle s3 \<and> (Op_release \<notin> set ops \<longrightarrow> refs (c_world s3) = refs (c_world s))))"
proof -
  obtain ok s1 where s1: "initialize_library env logfile t s = Some (ok, s1)"
    "ok \<and> started t (c_world s) s1 \<or> restored (c_world s) s1"
    "(\<forall>h. ce_init env h) \<longrightarrow> ok = started t (c_world s) s1"
    using initialize_library_cases [OF assms(1-3), of logfile] by (elim exE conjE) (rule that)
  have "\<exists>s2 s3. charon_run env ops s1 = Some s2 \<and> charon_inv s2 \<and> deinitialize_library env s2 = Some s3 \<and>
      charon_idle s3 \<and> (Op_release \<notin> set ops \<longrightarrow> refs (c_world s3) = refs (c_world s))"
    if st: "started t (c_world s) s1"
  proof -
    obtain cs where cs: "charon_inv s1" "libs s1 = (1, 1, True, 1)" "c_cs s1 = Some cs" "cs_tunnel_ctx cs = t"
      "refs (c_world s1) = (refs (c_world s))(t := refs (c_world s) t + 1)"
      using st by (auto simp: started_def)
    obtain s2 where s2: "charon_run env ops s1 = Some s2" "advances s1 s2"
      "Op_release \<notin> set ops \<longrightarrow> c_world s2 = c_world s1"
      using charon_run_safe [OF cs(1) assms(4)] by blast
    have cs2: "charon_inv s2" "libs s2 = (1, 1, True, 1)" "map_option cs_tunnel_ctx (c_cs s2) = Some t"
      using s2(2) cs(2-4) by (simp_all add: advances_def libs_def)
    then obtain cs2 where cs3: "c_cs s2 = Some cs2" "cs_tunnel_ctx cs2 = t" by (auto simp: map_option_eq_Some)
    obtain s3 where "deinitialize_library env s2 = Some s3" "charon_idle s3"
      "refs (c_world s3) = (refs (c_world s2))(t := refs (c_world s2) t - 1)"
      using deinitialize_inv [OF cs2(1,2) cs3(1), of env] cs3(2) by metis
    then show ?thesis using s2 cs2(1) cs(5) by auto
  qed
  then show ?thesis using s1 by blast
qed

lemma charon_lifecycle_witness:
  "\<exists>ok s1. initialize_library sample_cenv (Some ''log'') 1 sample_charon = Some (ok, s1) \<and>
    ok = started 1 sample_world s1"
  using charon_lifecycle [OF sample_idle, of "Some ''log''" "[]"]
  by (auto simp: sample_charon_def sample_cenv_def)

section \<open>Routes\<close>

text \<open>The calls to Java in a trace, without the lookup of methods and strings.\<close>

definition java_calls :: "cev list \<Rightarrow> (string \<times> jarg list) list" where
  "java_calls es = concat (map (\<lambda>e. case e of Java_call n args \<Rightarrow> [(n, args)] | _ \<Rightarrow> []) es)"

lemma java_calls_simps [simp]:
  "java_calls [] = []" "java_calls (xs @ ys) = java_calls xs @ java_calls ys"
  "java_calls (e # es) = (case e of Java_call n args \<Rightarrow> [(n, args)] | _ \<Rightarrow> []) @ java_calls es"
  by (simp_all add: java_calls_def)

text \<open>The networks that Java gets instead of a default route, the bits of an address, and the
  addresses of a network.\<close>

definition split_default :: "host \<times> nat \<Rightarrow> (host \<times> nat) list" where
  "split_default r = (if is_anyaddr (fst r) \<and> snd r = 0 then [(fst r, 1), (upper_half (fst r), 1)] else [r])"

definition route_call :: "cenv \<Rightarrow> host \<times> nat \<Rightarrow> string \<times> jarg list" where
  "route_call env r = (''addRoute'', [Jstr (host_text env True (fst r)), Jint (int (snd r))])"

definition host_bits :: "host \<Rightarrow> bool list" where
  "host_bits h = (case h of Host4 a \<Rightarrow> map (bit a) (rev [0..<32])
     | Host6 b \<Rightarrow> concat (map (\<lambda>x. map (bit x) (rev [0..<8])) b))"

definition in_net :: "host \<Rightarrow> host \<times> nat \<Rightarrow> bool" where
  "in_net h r \<longleftrightarrow> host_is_inet h = host_is_inet (fst r) \<and>
     take (snd r) (host_bits h) = take (snd r) (host_bits (fst r))"

text \<open>An address of the right length; strongSwan's hosts of the IPv6 family have 16 bytes.\<close>

definition proper_host :: "host \<Rightarrow> bool" where
  "proper_host h = (case h of Host4 a \<Rightarrow> True | Host6 b \<Rightarrow> length b = 16)"

lemma upper_half_not_any: "\<not> is_anyaddr (upper_half h)"
proof -
  have "replicate 16 (0 :: u8) = 0 # replicate 15 0" by (simp add: numeral_eq_Suc)
  then show ?thesis by (cases h) (simp_all add: upper_half_def is_anyaddr_def host_is_inet_def)
qed

text \<open>Routes are handed over in order; after the first refusal nothing more is.\<close>

definition hands_over :: "cenv \<Rightarrow> (host \<times> nat) list \<Rightarrow> bool \<Rightarrow> charon \<Rightarrow> charon \<Rightarrow> bool" where
  "hands_over env rs ok s s' \<longleftrightarrow> io_only s s' \<and>
     (\<exists>k \<le> length rs. (ok \<longrightarrow> k = length rs) \<and>
        java_calls (c_io s') = java_calls (c_io s) @ map (route_call env) (take k rs))"

lemma hands_over_nil [simp]: "hands_over env [] ok s s"
  by (simp add: hands_over_def)

lemma hands_over_fail: "hands_over env rs False s s' \<Longrightarrow> hands_over env (rs @ rs') False s s'"
proof -
  assume "hands_over env rs False s s'"
  then obtain k where "io_only s s'" "k \<le> length rs"
    "java_calls (c_io s') = java_calls (c_io s) @ map (route_call env) (take k rs)"
    by (auto simp: hands_over_def)
  then show ?thesis unfolding hands_over_def by (intro conjI exI [of _ k]) simp_all
qed

lemma hands_over_append:
  assumes "hands_over env rs True s s'" "hands_over env rs' ok s' s''"
  shows "hands_over env (rs @ rs') ok s s''"
proof -
  obtain k where "k \<le> length rs'" "ok \<longrightarrow> k = length rs'"
    "java_calls (c_io s'') = java_calls (c_io s') @ map (route_call env) (take k rs')"
    using assms(2) by (auto simp: hands_over_def)
  then show ?thesis using assms io_only_trans unfolding hands_over_def
    by (auto intro!: exI [of _ "length rs + k"])
qed

lemma cs_add_route_hands:
  assumes "c_cs s \<noteq> None"
  shows "\<exists>ok s'. cs_add_route env h p s = Some (ok, s') \<and> hands_over env [(h, p)] ok s s'"
proof -
  let ?t = "host_text env True h"
  let ?s1 = "cemit (Java_method ''addRoute'') s"
  let ?s2 = "cemit (Java_string ?t) ?s1"
  let ?s3 = "cemit (Java_call ''addRoute'' [Jstr ?t, Jint (int p)]) ?s2"
  have none: "hands_over env [(h, p)] False s s'" if "io_only s s'"
    "java_calls (c_io s') = java_calls (c_io s)" for s'
    using that unfolding hands_over_def by (intro conjI exI [of _ 0]) simp_all
  have one: "hands_over env [(h, p)] ok s ?s3" for ok
    unfolding hands_over_def by (intro conjI exI [of _ 1]) (simp_all add: route_call_def)
  have e: "cs_add_route env h p s = Some (call_with_host env ''addRoute'' ?t [Jint (int p)] s)"
    using assms by (auto simp: cs_add_route_def)
  consider "INET6_ADDRSTRLEN \<le> length ?t" | "length ?t < INET6_ADDRSTRLEN" "\<not> ce_method env (c_io ?s1)"
    | "length ?t < INET6_ADDRSTRLEN" "ce_method env (c_io ?s1)" "\<not> ce_newstr env (c_io ?s2)"
    | "length ?t < INET6_ADDRSTRLEN" "ce_method env (c_io ?s1)" "ce_newstr env (c_io ?s2)" by linarith
  then show ?thesis
  proof cases
    case 1
    then show ?thesis using e none [of s] by (auto simp: call_with_host_def)
  next
    case 2
    then show ?thesis using e none [of ?s1] by (auto simp: call_with_host_def get_method_def Let_def)
  next
    case 3
    then show ?thesis using e none [of ?s2]
      by (auto simp: call_with_host_def get_method_def new_string_def Let_def)
  next
    case 4
    then show ?thesis using e one
      by (auto simp: call_with_host_def get_method_def new_string_def Let_def)
  qed
qed

lemma add_route_hands:
  assumes "c_cs s \<noteq> None"
  shows "\<exists>ok s'. add_route env h p s = Some (ok, s') \<and> hands_over env (split_default (h, p)) ok s s'"
proof (cases "is_anyaddr h \<and> p = 0")
  case True
  obtain ok s1 where s1: "cs_add_route env h 1 s = Some (ok, s1)" "hands_over env [(h, 1)] ok s s1"
    using cs_add_route_hands [OF assms] by blast
  have "c_cs s1 \<noteq> None" using s1(2) assms by (auto simp: hands_over_def dest: io_onlyD(6))
  then obtain ok2 s2 where s2: "cs_add_route env (upper_half h) 1 s1 = Some (ok2, s2)"
    "hands_over env [(upper_half h, 1)] ok2 s1 s2" using cs_add_route_hands by blast
  show ?thesis
  proof (cases ok)
    case True
    then show ?thesis using s1 s2 hands_over_append [of env "[(h, 1)]" s s1 "[(upper_half h, 1)]" ok2 s2]
        \<open>is_anyaddr h \<and> p = 0\<close> by (simp add: add_route_def split_default_def)
  next
    case False
    then have "hands_over env (split_default (h, p)) False s s1"
      using s1(2) hands_over_fail [of env "[(h, 1)]" s s1 "[(upper_half h, 1)]"] \<open>is_anyaddr h \<and> p = 0\<close>
      by (simp add: split_default_def)
    then show ?thesis using False s1(1) \<open>is_anyaddr h \<and> p = 0\<close> by (auto simp: add_route_def)
  qed
next
  case False
  then have "add_route env h p s = cs_add_route env h p s" "split_default (h, p) = [(h, p)]"
    by (auto simp: add_route_def split_default_def)
  then show ?thesis using cs_add_route_hands [OF assms] by simp
qed

lemma add_routes_hands:
  "c_cs s \<noteq> None \<Longrightarrow>
   \<exists>ok s'. add_routes env ps s = Some (ok, s') \<and> hands_over env (concat (map split_default ps)) ok s s'"
proof (induction ps arbitrary: s)
  case (Cons p ps)
  obtain h n where p: "p = (h, n)" by fastforce
  obtain ok s1 where s1: "add_route env h n s = Some (ok, s1)" "hands_over env (split_default (h, n)) ok s s1"
    using add_route_hands [OF Cons.prems] by blast
  have "c_cs s1 \<noteq> None" using s1(2) Cons.prems by (auto simp: hands_over_def dest: io_onlyD(6))
  from Cons.IH [OF this] obtain ok2 s2 where s2: "add_routes env ps s1 = Some (ok2, s2)"
    "hands_over env (concat (map split_default ps)) ok2 s1 s2" by blast
  show ?case
  proof (cases ok)
    case True
    then have "hands_over env (concat (map split_default (p # ps))) ok2 s s2"
      using s1(2) s2(2) hands_over_append p by simp
    moreover have "add_routes env (p # ps) s = Some (ok2, s2)" using s1(1) s2(1) True p by simp
    ultimately show ?thesis by blast
  next
    case False
    then have "hands_over env (concat (map split_default (p # ps))) False s s1"
      using s1(2) hands_over_fail p by simp
    moreover have "add_routes env (p # ps) s = Some (False, s1)" using s1(1) False p by simp
    ultimately show ?thesis by blast
  qed
qed (auto intro: exI [of _ True])

text \<open>The two halves.\<close>

lemma first_bit:
  assumes "is_anyaddr n" "proper_host h" "host_is_inet h = host_is_inet n"
  shows "take 1 (host_bits n) = [False]" "take 1 (host_bits (upper_half n)) = [True]"
    "\<exists>b. take 1 (host_bits h) = [b]"
proof -
  have r: "rev [0..<32] = 31 # rev [0..<31]" "rev [0..<8] = 7 # rev [0..<7]"
    using upt_Suc [of 0 31] upt_Suc [of 0 7] by simp_all
  have "n = Host4 0 \<or> n = Host6 (replicate 16 0)" using assms(1) by (auto simp: is_anyaddr_def split: host.splits)
  then show "take 1 (host_bits n) = [False]" "take 1 (host_bits (upper_half n)) = [True]"
    by (auto simp: host_bits_def upper_half_def host_is_inet_def r numeral_eq_Suc)
  show "\<exists>b. take 1 (host_bits h) = [b]"
    using assms(2) by (cases h) (auto simp: host_bits_def proper_host_def r numeral_eq_Suc length_Suc_conv)
qed

lemma split_default_covers:
  assumes "proper_host h"
  shows "in_net h r \<longleftrightarrow> (\<exists>r'\<in>set (split_default r). in_net h r')"
proof (cases "is_anyaddr (fst r) \<and> snd r = 0")
  case True
  have u: "host_is_inet (upper_half (fst r)) = host_is_inet (fst r)"
    by (cases "fst r") (simp_all add: upper_half_def host_is_inet_def)
  show ?thesis
  proof (cases "host_is_inet h = host_is_inet (fst r)")
    case True
    then show ?thesis using first_bit [OF _ assms True] \<open>is_anyaddr (fst r) \<and> snd r = 0\<close> u
      by (auto simp: in_net_def split_default_def)
  qed (use True u in \<open>auto simp: in_net_def split_default_def\<close>)
qed (auto simp: split_default_def)

lemma split_default_once:
  assumes "is_anyaddr n" "proper_host h" "host_is_inet h = host_is_inet n"
  shows "in_net h (n, 1) = (\<not> in_net h (upper_half n, 1))"
proof -
  have "host_is_inet (upper_half n) = host_is_inet n" by (cases n) (simp_all add: upper_half_def host_is_inet_def)
  then show ?thesis using first_bit [OF assms] assms(3) by (auto simp: in_net_def)
qed

lemma split_default_short: "r' \<in> set (split_default r) \<Longrightarrow> snd r = 0 \<longrightarrow> is_anyaddr (fst r) \<Longrightarrow> 0 < snd r'"
  by (auto simp: split_default_def split: if_splits)



section \<open>Reports to Java\<close>

definition status_events :: "cenv \<Rightarrow> vpn_state \<Rightarrow> cev list \<Rightarrow> cev list" where
  "status_events env code h = Java_method ''updateStatus'' #
     (if ce_method env (h @ [Java_method ''updateStatus''])
      then [Java_call ''updateStatus'' [Jint (status_code code)]] else [])"

lemma report_eq:
  assumes "c_cs s \<noteq> None"
  shows "report env code s = Some (s\<lparr>c_io := c_io s @ status_events env code (c_io s)\<rparr>)"
proof -
  obtain cs where "c_cs s = Some cs" using assms by blast
  then show ?thesis
    by (cases "ce_method env (c_io s @ [Java_method ''updateStatus''])")
      (simp_all add: report_def update_status_def get_method_def status_events_def cemit_def)
qed

lemma bus_child_one:
  assumes "c_listeners s = [a]" "child_updown env a ike child up s = Some (r, s')"
  shows "bus_dispatch env (Child_updown ike child up) s =
    Some (if r then s' else s'\<lparr>c_listeners := remove1 a (c_listeners s')\<rparr>)"
  using assms by (simp add: bus_dispatch_def bus_child_updown_def)

section \<open>A CHILD SA goes down\<close>


lemma running_facts: "c_listeners running_charon = [1]" "get_service running_charon 1 = Some sample_service"
  "sv_ike_sa sample_service = 7" "c_io running_charon = []" "c_cs running_charon = Some sample_cs"
  "c_jobs running_charon = [Handle_plain 1]" "c_next running_charon = 1"
  by (simp_all add: running_charon_def sample_charon_def sample_service_def get_service_def)


section \<open>A CHILD SA comes up\<close>

definition accepting :: "cenv \<Rightarrow> bool" where
  "accepting env \<longleftrightarrow> (\<forall>h. ce_method env h \<and> ce_newstr env h \<and> ce_bool env h) \<and>
     (\<forall>full h. length (host_text env full h) < INET6_ADDRSTRLEN)"

definition address_call :: "cenv \<Rightarrow> host \<Rightarrow> string \<times> jarg list" where
  "address_call env h = (''addAddress'', [Jstr (host_text env False h), Jint (if host_is_inet h then 32 else 128)])"

lemma call_with_host_accepted:
  assumes "accepting env" "length buf < INET6_ADDRSTRLEN"
  shows "\<exists>s'. call_with_host env name buf args s = (True, s') \<and> io_only s s' \<and>
    java_calls (c_io s') = java_calls (c_io s) @ [(name, Jstr buf # args)]"
  using assms by (simp add: call_with_host_def get_method_def new_string_def Let_def accepting_def)

lemma add_vips_accepted:
  "accepting env \<Longrightarrow> c_cs s \<noteq> None \<Longrightarrow>
   \<exists>s'. add_vips env vips found s = Some (found \<or> (\<exists>h\<in>set vips. \<not> is_anyaddr h), s') \<and> io_only s s' \<and>
     java_calls (c_io s') = java_calls (c_io s) @ map (address_call env) (filter (\<lambda>h. \<not> is_anyaddr h) vips)"
proof (induction vips arbitrary: found s)
  case (Cons vip vips)
  show ?case
  proof (cases "is_anyaddr vip")
    case True
    then show ?thesis using Cons.IH [OF Cons.prems] by simp
  next
    case False
    have "length (host_text env False vip) < INET6_ADDRSTRLEN" using Cons.prems(1) by (simp add: accepting_def)
    from call_with_host_accepted [OF Cons.prems(1) this] obtain s1 where
      s1: "add_address env vip s = Some (True, s1)" "io_only s s1"
        "java_calls (c_io s1) = java_calls (c_io s) @ [address_call env vip]"
      using Cons.prems(2) unfolding add_address_def address_call_def Let_def by fastforce
    moreover have "c_cs s1 \<noteq> None" using s1(2) Cons.prems(2) io_onlyD(6) by auto
    from Cons.IH [OF Cons.prems(1) this, of True] obtain s2 where "add_vips env vips True s1 = Some (True, s2)" "io_only s1 s2"
      "java_calls (c_io s2) = java_calls (c_io s1) @ map (address_call env) (filter (\<lambda>h. \<not> is_anyaddr h) vips)" by auto
    ultimately show ?thesis using False io_only_trans by auto
  qed
qed simp

lemma cs_add_route_accepted:
  "accepting env \<Longrightarrow> cs_add_route env h p s = Some (r, s') \<Longrightarrow> r"
  using call_with_host_accepted [of env "host_text env True h" "''addRoute''" "[Jint (int p)]" s]
  by (auto simp: cs_add_route_def accepting_def bind_eq_Some_iff)

lemma add_routes_accepted:
  "accepting env \<Longrightarrow> add_routes env ps s = Some (r, s') \<Longrightarrow> r"
proof (induction ps arbitrary: s)
  case (Cons p ps)
  obtain h n where p: "p = (h, n)" by fastforce
  obtain ok s1 where s1: "add_route env h n s = Some (ok, s1)" using Cons.prems(2) p by (auto simp: bind_eq_Some_iff)
  then have ok using cs_add_route_accepted [OF Cons.prems(1)]
    by (auto simp: add_route_def bind_eq_Some_iff split: if_splits)
  then show ?case using Cons s1 p by auto
qed simp

lemma setup_listeners:
  assumes "setup_tun_device env a ike child s = Some (r, s')" "c_cs s \<noteq> None"
  shows "c_listeners s' = c_listeners s"
proof -
  let ?s0 = "cemit (Virtual_ips ike) s"
  obtain r1 s1 where s1: "add_vips env (ce_vips env (c_io ?s0)) False ?s0 = Some (r1, s1)" "io_only ?s0 s1"
    using add_vips_Some [of ?s0 env "ce_vips env (c_io ?s0)" False] assms(2) unfolding cemit_simps by blast
  let ?s2 = "cemit (Policies child) s1"
  have l1: "c_listeners s1 = c_listeners s" "c_cs ?s2 \<noteq> None" using io_onlyD(6,10) [OF s1(2)] assms(2) by simp_all
  obtain r3 s3 where s3: "add_routes env (ce_policies env (c_io ?s2)) ?s2 = Some (r3, s3)" "io_only ?s2 s3"
    using add_routes_Some [OF l1(2)] by blast
  have "c_listeners s3 = c_listeners s" using io_onlyD(10) [OF s3(2)] l1(1) by simp
  then show ?thesis using assms(1) s1(1) s3(1) l1(1)
    by (auto simp: setup_tun_device_def Let_def service_lock_def upd_service_def bind_eq_Some_iff split: if_splits)
qed

lemma setup_tun_device_accepted:
  assumes "charon_inv s" "get_service s a = Some v" "accepting env" "get_fd s = Some fd" "fd \<noteq> - 1"
    "\<exists>h\<in>set (ce_vips env (c_io s @ [Virtual_ips ike])). \<not> is_anyaddr h"
  shows "\<exists>s' h. setup_tun_device env a ike child s = Some (True, s') \<and>
    java_calls (c_io s') = java_calls (c_io s) @
      map (address_call env) (filter (\<lambda>h. \<not> is_anyaddr h) (ce_vips env (c_io s @ [Virtual_ips ike]))) @
      map (route_call env) (concat (map split_default (ce_policies env h)))"
proof -
  let ?s0 = "cemit (Virtual_ips ike) s"
  have c0: "c_cs ?s0 \<noteq> None" using charon_inv_cs [OF assms(1)] by simp
  obtain s1 where s1: "add_vips env (ce_vips env (c_io ?s0)) False ?s0 = Some (True, s1)" "io_only ?s0 s1"
    "java_calls (c_io s1) = java_calls (c_io ?s0) @
       map (address_call env) (filter (\<lambda>h. \<not> is_anyaddr h) (ce_vips env (c_io ?s0)))"
    using add_vips_accepted [OF assms(3) c0, of "ce_vips env (c_io ?s0)" False] assms(6) by auto
  let ?s2 = "cemit (Policies child) s1"
  have i2: "io_only s ?s2" using s1(2) io_only_trans io_only_emit by blast
  then have c2: "c_cs ?s2 \<noteq> None" using c0 io_onlyD(6) by fastforce
  obtain ok s3 where s3: "add_routes env (ce_policies env (c_io ?s2)) ?s2 = Some (ok, s3)"
    "hands_over env (concat (map split_default (ce_policies env (c_io ?s2)))) ok ?s2 s3"
    using add_routes_hands [OF c2] by blast
  have ok: ok using add_routes_accepted [OF assms(3) s3(1)] .
  have i3: "io_only s s3" using s3(2) i2 io_only_trans by (auto simp: hands_over_def)
  have r: "java_calls (c_io s3) = java_calls (c_io ?s2) @
      map (route_call env) (concat (map split_default (ce_policies env (c_io ?s2))))"
    using s3(2) ok unfolding hands_over_def by auto
  have fd3: "get_fd s3 = Some fd" using assms(4) by (simp add: get_fd_def io_onlyD [OF i3])
  obtain b s4 where s4: "setup_tun_device env a ike child s = Some (b, s4)"
    using setup_tun_device_cases [OF assms(1,2)] by blast
  then have "b \<and> c_io s4 = c_io s3" using s1(1) s3(1) ok fd3 assms(5)
    by (auto simp: setup_tun_device_def Let_def service_lock_def upd_service_def bind_eq_Some_iff)
  then show ?thesis using s4 s1(3) r by (intro exI [of _ s4] exI [of _ "c_io ?s2"]) simp
qed

text \<open>C10: coming up opens the device. When the CHILD SA of the connection comes up and Java
  accepts every call, Java is given each virtual address that is specified, then the routes for
  the selectors of the peer, and then the state UP, in this order and nothing else; the service
  holds the descriptor of the tunnel and is registered for the packets of both directions, and
  the job that reads the device is queued.\<close>

theorem child_up_opens:
  assumes "charon_inv s" "c_listeners s = [a]" "get_service s a = Some v" "sv_ike_sa v = ike"
    "accepting env" "get_fd s = Some fd" "fd \<noteq> - 1"
    "vips = ce_vips env (c_io s @ [Virtual_ips ike])" "\<exists>h\<in>set vips. \<not> is_anyaddr h"
  shows "\<exists>s' h. bus_dispatch env (Child_updown ike child True) s = Some s' \<and>
    java_calls (c_io s') = java_calls (c_io s) @ map (address_call env) (filter (\<lambda>h. \<not> is_anyaddr h) vips) @
      map (route_call env) (concat (map split_default (ce_policies env h))) @ [(''updateStatus'', [Jint 1])] \<and>
    get_service s' a = Some (v\<lparr>sv_hook := False, sv_tunfd := fd\<rparr>) \<and> c_listeners s' = [a] \<and>
    c_inbound s' = Some a \<and> c_esp_cb s' \<and> c_outbound s' \<and> c_jobs s' = c_jobs s @ [Handle_plain a] \<and> charon_inv s'"
proof -
  let ?v = "v\<lparr>sv_hook := False\<rparr>"
  let ?s1 = "set_service a ?v s"
  have k1: "keeps s ?s1" by (rule inv_upd_service [OF assms(1,3)]) simp_all
  have g1: "get_service ?s1 a = Some ?v" using get_service_nz [OF assms(3)] by simp
  have fd1: "get_fd ?s1 = Some fd" using assms(6) by (simp add: get_fd_def)
  have vip: "\<exists>h\<in>set (ce_vips env (c_io ?s1 @ [Virtual_ips ike])). \<not> is_anyaddr h" using assms(8,9) by simp
  obtain s2 h where s2: "setup_tun_device env a ike child ?s1 = Some (True, s2)"
    "java_calls (c_io s2) = java_calls (c_io s) @ map (address_call env) (filter (\<lambda>h. \<not> is_anyaddr h) vips) @
      map (route_call env) (concat (map split_default (ce_policies env h)))"
    using setup_tun_device_accepted [OF keeps_inv [OF k1] g1 assms(5) fd1 assms(7) vip, of child] assms(8) by auto
  obtain cs where d2: "keeps ?s1 s2" "device_open s2 a" "c_jobs s2 = c_jobs s @ [Handle_plain a]" "c_cs s = Some cs"
    "get_service s2 a = Some (?v\<lparr>sv_tunfd := fd\<rparr>)"
    using setup_tun_device_cases [OF keeps_inv [OF k1] g1, of env ike child] s2(1) fd1 by (auto simp: get_fd_def)
  let ?s3 = "s2\<lparr>c_io := c_io s2 @ status_events env CHILD_STATE_UP (c_io s2)\<rparr>"
  have rep: "report env CHILD_STATE_UP s2 = Some ?s3" by (rule report_eq) (rule keeps_cs [OF d2(1)])
  have io: "io_only s2 ?s3" by (auto simp: io_only_def)
  have inv3: "charon_inv ?s3" using io_only_keeps [OF keeps_inv [OF d2(1)] io] keeps_inv by blast
  note f3 = io_onlyD [OF io]
  have st: "java_calls (status_events env CHILD_STATE_UP x) = [(''updateStatus'', [Jint 1])]" for x
    using assms(5) by (simp add: status_events_def accepting_def status_code_def)
  have "child_updown env a ike child True s = Some (True, ?s3)"
    using assms(3,4) s2(1) rep by (simp add: child_updown_def upd_service_def)
  from bus_child_one [OF assms(2) this] have b: "bus_dispatch env (Child_updown ike child True) s = Some ?s3" by simp
  have g3: "get_service ?s3 a = Some (v\<lparr>sv_hook := False, sv_tunfd := fd\<rparr>)" using d2(5) by (auto simp: get_service_def split: if_splits)
  obtain cs3 :: charonservice where "services_ok (get_remote_fd (c_world ?s3) (cs_tunnel_ctx cs3)) a ?s3"
    using inv_service [OF inv3 g3] by blast
  note e3 = services_okE [OF this]
  have op: "device_open ?s3 a" using d2(2) by (auto simp: device_open_def get_service_def split: if_splits)
  have l3: "c_listeners s2 = [a]" using setup_listeners [OF s2(1)] charon_inv_cs [OF assms(1)] assms(2) by simp
  show ?thesis using b g3 inv3 e3(4-6) op l3 d2(3) s2(2) st by (intro exI [of _ ?s3] exI [of _ h]) simp
qed

lemma child_up_opens_witness:
  "\<exists>s'. bus_dispatch sample_cenv (Child_updown 7 8 True) waiting_charon = Some s' \<and> c_inbound s' = Some 1 \<and>
    java_calls (c_io s') = [address_call sample_cenv (Host4 0x0A000001), route_call sample_cenv (Host4 0, 1),
      route_call sample_cenv (Host4 0x80000000, 1), (''updateStatus'', [Jint 1])]"
proof -
  have acc: "accepting sample_cenv"
    by (simp add: accepting_def sample_cenv_def host_text_def INET6_ADDRSTRLEN_def)
  have w: "c_listeners waiting_charon = [1]" "get_service waiting_charon 1 = Some (sample_service\<lparr>sv_tunfd := - 1\<rparr>)"
    "sv_ike_sa (sample_service\<lparr>sv_tunfd := - 1\<rparr>) = 7" "c_io waiting_charon = []"
    by (simp_all add: waiting_charon_def running_charon_def sample_charon_def get_service_def sample_service_def)
  have fd: "get_fd waiting_charon = Some 6"
    using sample_remote_fd by (simp add: get_fd_def waiting_charon_def running_charon_def sample_charon_def sample_cs_def)
  have o: "ce_vips sample_cenv h = [Host4 0x0A000001]" "ce_policies sample_cenv h = [(Host4 0, 0)]" for h
    by (simp_all add: sample_cenv_def)
  show ?thesis
    using child_up_opens [OF waiting_inv w(1-3) acc fd, of "[Host4 0x0A000001]" 8]
    by (auto simp: w(4) o is_anyaddr_def split_default_def upper_half_def host_is_inet_def)
qed

section \<open>Authentication\<close>

text \<open>The classes of the local rounds by the type of the VPN; XAuth counts only if Java had a name and a
  password.\<close>

definition local_rounds :: "string \<Rightarrow> bool \<Rightarrow> string list" where
  "local_rounds type xauth =
     (if type \<in> {''ikev2-cert'', ''ikev2-cert-eap'', ''ikev1-cert-xauth''} then [''PUBKEY''] else []) @
     (if type \<in> {''ikev2-eap'', ''ikev2-cert-eap'', ''ikev2-byod-eap''} then [''EAP''] else []) @
     (if type \<in> {''ikev1-cert-xauth'', ''ikev1-xauth''} \<and> xauth then [''XAUTH''] else [])"

definition rounds :: "peer_cfg \<Rightarrow> (auth_rule \<times> bool) list" where
  "rounds p = map (\<lambda>(rules, local). (rules ! 0, local)) (pc_auth p)"

lemma add_auth_cfg_rounds [simp]:
  "rounds (add_auth_cfg rs l p) = rounds p @ [(rs ! 0, l)]" "(add_auth_cfg rs l p)\<lparr>pc_auth := x\<rparr> = p\<lparr>pc_auth := x\<rparr>"
  "rounds (p\<lparr>pc_selectors := y\<rparr>) = rounds p"
  by (simp_all add: rounds_def add_auth_cfg_def)

text \<open>A round of authentication touches nothing but the list of rounds.\<close>

lemma add_auth_cfg_cert_rounds:
  "add_auth_cfg_cert env p s = Some (ok, p', s') \<Longrightarrow>
   p' = p\<lparr>pc_auth := pc_auth p'\<rparr> \<and> (ok \<longrightarrow> rounds p' = rounds p @ [(Auth_class ''PUBKEY'', True)])"
  by (auto simp: add_auth_cfg_cert_def bind_eq_Some_iff add_auth_cfg_def rounds_def split: option.splits)

lemma add_auth_cfg_eap_rounds:
  "add_auth_cfg_eap a p byod s = Some (p', s') \<Longrightarrow>
   p' = p\<lparr>pc_auth := pc_auth p'\<rparr> \<and> rounds p' = rounds p @ [(Auth_class ''EAP'', True)]"
  by (auto simp: add_auth_cfg_eap_def bind_eq_Some_iff add_auth_cfg_def rounds_def Let_def)

lemma add_auth_cfg_xauth_rounds:
  "add_auth_cfg_xauth env p s = Some (ok, p', s') \<Longrightarrow>
   p' = p\<lparr>pc_auth := pc_auth p'\<rparr> \<and> rounds p' = rounds p @ (if ok then [(Auth_class ''XAUTH'', True)] else [])"
  by (auto simp: add_auth_cfg_xauth_def bind_eq_Some_iff add_auth_cfg_def rounds_def split: option.splits)

lemma local_auth_rounds:
  assumes "local_auth env a type p s = Some (Some p', s')"
  shows "p' = p\<lparr>pc_auth := pc_auth p'\<rparr> \<and>
    (\<exists>x. rounds p' = rounds p @ map (\<lambda>c. (Auth_class c, True)) (local_rounds type x))"
proof -
  obtain ok1 p1 s1 where s1: "(if type \<in> {''ikev2-cert'', ''ikev2-cert-eap'', ''ikev1-cert-xauth''}
      then add_auth_cfg_cert env p s else Some (True, p, s)) = Some (ok1, p1, s1)" "ok1"
    using assms by (auto simp: local_auth_def bind_eq_Some_iff split: if_splits)
  then obtain p2 s2 ok3 s3 where s2: "(if type \<in> {''ikev2-eap'', ''ikev2-cert-eap'', ''ikev2-byod-eap''}
      then add_auth_cfg_eap a p1 (take 10 type = ''ikev2-byod'') s1 else Some (p1, s1)) = Some (p2, s2)"
    "(if type \<in> {''ikev1-cert-xauth'', ''ikev1-xauth''}
      then add_auth_cfg_xauth env p2 s2 else Some (True, p2, s2)) = Some (ok3, p', s3)"
    using assms unfolding local_auth_def by (auto simp: bind_eq_Some_iff simp del: insert_iff)
  have r1: "p1 = p\<lparr>pc_auth := pc_auth p1\<rparr>" "rounds p1 = rounds p @ (if type \<in> {''ikev2-cert'', ''ikev2-cert-eap'', ''ikev1-cert-xauth''}
      then [(Auth_class ''PUBKEY'', True)] else [])"
    using s1 add_auth_cfg_cert_rounds [of env p s ok1 p1 s1] by (auto simp del: insert_iff split: if_splits)
  have r2: "p2 = p1\<lparr>pc_auth := pc_auth p2\<rparr>" "rounds p2 = rounds p1 @ (if type \<in> {''ikev2-eap'', ''ikev2-cert-eap'', ''ikev2-byod-eap''}
      then [(Auth_class ''EAP'', True)] else [])"
    using s2(1) add_auth_cfg_eap_rounds [of a p1 _ s1 p2 s2] by (auto simp del: insert_iff split: if_splits)
  have r3: "p' = p2\<lparr>pc_auth := pc_auth p'\<rparr>" "rounds p' = rounds p2 @ (if type \<in> {''ikev1-cert-xauth'', ''ikev1-xauth''} \<and> ok3
      then [(Auth_class ''XAUTH'', True)] else [])"
    using s2(2) add_auth_cfg_xauth_rounds [of env p2 s2 ok3 p' s3] by (auto simp del: insert_iff split: if_splits)
  have "p' = p\<lparr>pc_auth := pc_auth p'\<rparr>" using r1(1) r2(1) r3(1) by (cases p; cases p1; cases p2; cases p') simp
  moreover have "rounds p' = rounds p @ map (\<lambda>c. (Auth_class c, True)) (local_rounds type ok3)"
    unfolding r3(2) r2(2) r1(2) local_rounds_def by (simp del: insert_iff)
  ultimately show ?thesis by blast
qed



section \<open>A second connection\<close>

text \<open>C23: a second connection frees the first one under its jobs. \<open>initialize_tunnel\<close> itself succeeds
  while a connection exists, and queues the job of the new one; but a job of the old connection
  that is still queued keeps its pointer, and when a thread runs it, it uses freed memory.\<close>

theorem second_connection_faults:
  assumes "charon_inv s" "c_cs s = Some cs" "cs_service cs \<noteq> 0" "cs_service cs \<le> c_next s"
    "i < length (c_jobs s)" "c_jobs s ! i \<in> {Initiate (cs_service cs), Handle_plain (cs_service cs)}"
  shows "\<exists>s'. initialize_tunnel env type gateway username password s = Some s' \<and>
    c_jobs s' = c_jobs s @ [Initiate (Suc (c_next s))] \<and> charon_do env (Op_job i) s' = None"
proof -
  let ?a = "cs_service cs"
  have inv: "services_ok (get_remote_fd (c_world s) (cs_tunnel_ctx cs)) ?a s" "ac_lock (cs_creds cs) = rwlock_free"
    using assms(1,2) unfolding charon_inv_def core_ok_def by auto
  obtain s1 where s1: "creds_clear env s = Some s1" "creds_only s s1" using creds_clear_Some [OF assms(2) inv(2)] by blast
  note f1 = creds_onlyD [OF s1(2)]
  obtain c where c: "c_cs s1 = Some (cs\<lparr>cs_creds := c\<rparr>)" using f1(19) assms(2) by auto
  have ok1: "services_ok (get_remote_fd (c_world s) (cs_tunnel_ctx cs)) ?a s1"
    by (rule services_ok_cong [OF inv(1)]) (simp_all add: f1)
  obtain v where v: "get_service s1 ?a = Some v" using services_okE(3) [OF ok1] assms(3) by auto
  obtain s2 where s2: "service_destroy ?a s1 = Some s2" "\<forall>b. get_service s2 b = None" "c_cs s2 = c_cs s1"
    "c_jobs s2 = c_jobs s1" "c_next s2 = c_next s1"
    using service_destroy_Some [OF ok1 v] by blast
  have n: "c_next s2 = c_next s" "c_jobs s2 = c_jobs s" "c_cs s2 = Some (cs\<lparr>cs_creds := c\<rparr>)"
    using s2(3-5) c f1(8,13) by simp_all
  have nz: "?a \<noteq> 0" "c_services s2 ?a = None" using assms(3) s2(2) [rule_format, of ?a] by (simp_all add: get_service_def)
  obtain b s3 where s3: "android_service_create type gateway username password s2 = (b, s3)" by fastforce
  then have f3: "b = Suc (c_next s)" "c_jobs s3 = c_jobs s @ [Initiate b]" "c_cs s3 = Some (cs\<lparr>cs_creds := c\<rparr>)"
    "get_service s3 ?a = None"
    using n nz assms(4) by (auto simp: android_service_create_def Let_def get_service_def set_service_def)
  let ?s4 = "set_cs (cs\<lparr>cs_creds := c, cs_service := b\<rparr>) s3"
  have r: "initialize_tunnel env type gateway username password s = Some ?s4"
    using s1(1) c s2(1) s3 f3(3) assms(3) by (simp add: initialize_tunnel_def)
  have j: "c_jobs ?s4 = c_jobs s @ [Initiate b]" using f3(2) by (simp add: set_cs_def)
  have g: "get_service (?s4\<lparr>c_jobs := js\<rparr>) ?a = None" for js
    using f3(4) nz by (simp add: get_service_def set_cs_def)
  have "run_job env (c_jobs s ! i) (?s4\<lparr>c_jobs := js\<rparr>) = None" for js
    using assms(6) g by (auto simp: run_job_def initiate_def handle_plain_fd_def service_lock_def)
  then have "charon_do env (Op_job i) ?s4 = None" using assms(5) j by (simp add: charon_do_def nth_append)
  then show ?thesis using r j f3(1) by blast
qed

lemma second_connection_faults_witness:
  "\<exists>s'. initialize_tunnel sample_cenv (Some ''ikev2-eap'') (Some ''gw'') None (Some ''pw'') running_charon = Some s' \<and>
    charon_do sample_cenv (Op_job 0) s' = None"
  using second_connection_faults [OF running_inv running_facts(5), of 0 sample_cenv "Some ''ikev2-eap''" "Some ''gw''"
      None "Some ''pw''"]
  by (auto simp: running_facts sample_cs_def)

section \<open>Credentials\<close>

text \<open>The password moves from the service to the credential set: after the round it is zeros
  in the service.\<close>

lemma password_moved:
  assumes "add_auth_cfg_eap a p byod s = Some (p', s')" "get_service s a = Some v"
  shows "\<exists>pw v' c. sv_password v = Some pw \<and> get_service s' a = Some v' \<and>
    sv_password v' = Some (memwipe pw) \<and> c_string (memwipe pw) = [] \<and> get_creds s' = Some c \<and>
    (c_string pw, id_text (sv_username v)) \<in> set (mc_shared (ac_creds c))"
proof -
  obtain s1 s2 pw where e: "sv_password v = Some pw" "upd_mem (add_shared (c_string pw) (id_text (sv_username v))) s = Some s1"
    "upd_service a (\<lambda>v. v\<lparr>sv_password := map_option memwipe (sv_password v)\<rparr>) s1 = Some s2" "s' = s2"
    using assms by (auto simp: add_auth_cfg_eap_def add_username_password_def bind_eq_Some_iff Let_def)
  have g1: "get_service s1 a = Some v"
    using e(2) assms(2) by (auto simp: upd_mem_def set_creds_def set_cs_def get_service_def bind_eq_Some_iff split: if_splits)
  have "c_string (memwipe pw) = []"
  proof (cases "c_string pw")
    case (Cons x xs)
    then have "memwipe pw = CHR 0x00 # tl (memwipe pw)" by (simp add: memwipe_def)
    then have "c_string (memwipe pw) = c_string (CHR 0x00 # tl (memwipe pw))" by simp
    then show ?thesis by (simp add: c_string_def)
  qed (simp add: memwipe_def)
  then show ?thesis using e g1 get_service_nz [OF g1]
    by (auto simp: upd_service_def upd_mem_def set_creds_def get_creds_def set_cs_def add_shared_def
        set_service_def get_service_def bind_eq_Some_iff)
qed

text \<open>The trusted certificates are fetched once: after a look-up, the next ones change nothing and call
  nothing.\<close>

lemma cached_lookup:
  assumes "c_cs s = Some cs" "ac_lock (cs_creds cs) = rwlock_free" "ac_loaded (cs_creds cs)"
  shows "charon_do env (Op_certs t trusted) s = Some s"
proof -
  have "(cs_creds cs)\<lparr>ac_lock := rwlock_free\<rparr> = cs_creds cs" using assms(2) by simp
  then have "cs\<lparr>cs_creds := (cs_creds cs)\<lparr>ac_lock := rwlock_free\<rparr>\<rparr> = cs" by simp
  then have r: "set_cs (cs\<lparr>cs_creds := (cs_creds cs)\<lparr>ac_lock := rwlock_free\<rparr>\<rparr>) s = s"
    using assms(1) by (simp add: set_cs_def)
  then show ?thesis using assms
    by (simp add: charon_do_def create_cert_enumerator_def upd_creds_lock_eq [OF assms(1)] get_creds_def
        cert_enumerator_destroy_def upd_creds_lock_def set_creds_def set_cs_def)
qed

lemma certs_cached:
  assumes "charon_inv s" "no_null_arrays env" "t \<noteq> CERT_OTHER"
  shows "\<exists>s1. charon_do env (Op_certs t True) s = Some s1 \<and> (\<forall>t' trusted. charon_do env (Op_certs t' trusted) s1 = Some s1)"
proof -
  obtain s1 where s1: "charon_do env (Op_certs t True) s = Some s1" "keeps s s1"
    using certs_safe [OF assms(1,2)] by blast
  obtain cs where cs: "c_cs s1 = Some cs" "ac_lock (cs_creds cs) = rwlock_free"
    using keeps_inv [OF s1(2)] unfolding charon_inv_def core_ok_def by blast
  have "ac_loaded (cs_creds cs)" using s1(1) assms(3) cs(1)
    by (cases t) (auto simp: charon_do_def create_cert_enumerator_def bind_eq_Some_iff upd_creds_lock_def get_creds_def
        set_creds_def set_cs_def cert_enumerator_destroy_def split: if_splits)
  then show ?thesis using s1(1) cached_lookup [OF cs] by blast
qed

section \<open>Network changes\<close>

text \<open>C21: network changes are debounced and none is lost. For any series of notifications under
  a clock that does not run backwards, the callback schedules roaming exactly for the
  notifications that the specification \<open>debounce\<close> lets through; those are more than 100 ms
  apart, and each notification after the initial limit arrives at most 100 ms after one of them,
  whose job is due no earlier than that notification.\<close>

theorem roam_debounced:
  assumes "steady_clock env" "listening s tv" "proper_time tv"
  shows "\<exists>s' dues. notify_all env ds s = Some s' \<and> c_timers s' = c_timers s @ dues \<and>
    (let ts = arrivals env ds s; fired = debounce 100000 (usecs tv) ts in
       length fired = length dues \<and> sorted_wrt (\<lambda>a b. a + 100000 < b) fired \<and>
       (\<forall>t\<in>set ts. usecs tv < t \<longrightarrow>
          (\<exists>i < length dues. fired ! i \<le> t \<and> t \<le> fired ! i + 100000 \<and> t \<le> usecs (dues ! i))))"
proof -
  obtain s' dues where r: "notify_all env ds s = Some s'" "c_timers s' = c_timers s @ dues"
    "list_all2 (\<lambda>f due. f + 100000 \<le> usecs due) (debounce 100000 (usecs tv) (arrivals env ds s)) dues"
    "sorted (arrivals env ds s)"
    using notify_all_debounce [OF assms] by blast
  let ?fired = "debounce 100000 (usecs tv) (arrivals env ds s)"
  have "\<exists>i < length dues. ?fired ! i \<le> t \<and> t \<le> ?fired ! i + 100000 \<and> t \<le> usecs (dues ! i)"
    if "t \<in> set (arrivals env ds s)" "usecs tv < t" for t
    using debounce_covers [OF r(4) that, of 100000] r(3)
    by (fastforce simp: in_set_conv_nth list_all2_conv_all_nth)
  then show ?thesis using r debounce_spaced [of 100000] by (auto simp: Let_def dest: list_all2_lengthD)
qed

lemma roam_debounced_witness:
  "\<exists>s'. notify_all sample_cenv [True, False] running_charon = Some s' \<and>
    length (c_timers s') = length (debounce 100000 0 (arrivals sample_cenv [True, False] running_charon))"
proof -
  have "steady_clock sample_cenv"
    by (simp add: steady_clock_def sample_cenv_def proper_time_def usecs_def)
  moreover have "listening running_charon (0, 0)"
    by (simp add: listening_def running_facts sample_cs_def)
  moreover have "proper_time (0, 0)" by (simp add: proper_time_def)
  moreover have "c_timers running_charon = []" "usecs (0, 0) = 0"
    by (simp_all add: running_charon_def sample_charon_def usecs_def)
  ultimately show ?thesis using roam_debounced [of sample_cenv running_charon "(0, 0)" "[True, False]"]
    by (auto simp: Let_def)
qed

end
