(* ===== verification/Helpers.thy ===== *)
theory Helpers
  imports Prelude
begin

text \<open>
  The helpers of \<open>ocpa\<close>: the attachment of native threads to the JVM (\<open>android_jni.c\<close>), which every
  call into Java is bracketed with, the pattern that overwrites freed objects (\<open>util.c\<close>) and
  the binding of a Unix socket (\<open>jni_NetUtils.c\<close>).
\<close>

section \<open>Attachment of threads\<close>

text \<open>A thread: whether the JVM knows it, and whether its thread-local value is set.\<close>

record jthread =
  jt_attached :: bool
  jt_value :: bool

text \<open>The result of \<open>AttachCurrentThread\<close> is not looked at.\<close>

definition androidjni_attach_thread :: "bool \<Rightarrow> jthread \<Rightarrow> bool \<times> jthread" where
  "androidjni_attach_thread ok t =
     (if jt_attached t then (False, t) else (True, t\<lparr>jt_attached := ok, jt_value := True\<rparr>))"

definition androidjni_detach_thread :: "jthread \<Rightarrow> jthread" where
  "androidjni_detach_thread t = t\<lparr>jt_value := False, jt_attached := False\<rparr>"

definition attached_thread_cleanup :: "jthread \<Rightarrow> jthread" where
  "attached_thread_cleanup t = t\<lparr>jt_attached := False\<rparr>"

text \<open>The end of a thread runs the destructor if the value is set.\<close>

definition thread_exit :: "jthread \<Rightarrow> jthread" where
  "thread_exit t = (if jt_value t then attached_thread_cleanup (t\<lparr>jt_value := False\<rparr>) else t)"

text \<open>The code between: calls of the JVM, which need an attached thread, and functions that have the bracket
  themselves.\<close>

datatype jni_code = Jvm_call | Bracket "jni_code list"

fun run_jni :: "jni_code \<Rightarrow> jthread \<Rightarrow> jthread option"
  and run_jnis :: "jni_code list \<Rightarrow> jthread \<Rightarrow> jthread option" where
  "run_jni Jvm_call t = (if jt_attached t then Some t else None)"
| "run_jni (Bracket cs) t =
     (let (need_detach, t) = androidjni_attach_thread True t
      in map_option (\<lambda>t. if need_detach then androidjni_detach_thread t else t) (run_jnis cs t))"
| "run_jnis [] t = Some t"
| "run_jnis (c # cs) t = Option.bind (run_jni c t) (run_jnis cs)"

lemma run_jni_attached: "jt_attached t \<Longrightarrow> run_jni c t = Some t"
  and run_jnis_attached: "jt_attached t \<Longrightarrow> run_jnis cs t = Some t"
  by (induction c t and cs t rule: run_jni_run_jnis.induct) (auto simp: androidjni_attach_thread_def)

text \<open>A nested bracket never detaches the thread under its caller, and the outermost one leaves no
  trace.\<close>

lemma jni_brackets_nest:
  "jt_value t \<longrightarrow> jt_attached t \<Longrightarrow> run_jni (Bracket cs) t = Some t"
  by (cases t) (auto simp: androidjni_attach_thread_def androidjni_detach_thread_def run_jnis_attached)

lemma native_thread_detached:
  "\<not> jt_attached t \<Longrightarrow> \<not> jt_attached (thread_exit (snd (androidjni_attach_thread ok t)))"
  by (simp add: androidjni_attach_thread_def thread_exit_def attached_thread_cleanup_def)

section \<open>Filling memory\<close>

definition u64_bytes :: "u64 \<Rightarrow> bytes" where
  "u64_bytes v = map (\<lambda>i. ucast (drop_bit (8 * i) v)) [0..<8]"

lemma length_u64_bytes [simp]: "length (u64_bytes v) = 8"
  by (simp add: u64_bytes_def)

text \<open>\<open>size & ~7\<close> is the largest multiple of 8 up to \<open>size\<close>.\<close>

function memset64_words :: "bytes \<Rightarrow> u64 \<Rightarrow> nat \<Rightarrow> nat \<Rightarrow> (bytes \<times> nat) option" where
  "memset64_words dest v n i =
     (if i < 8 * (n div 8)
      then Option.bind (wr_bytes dest i (u64_bytes v)) (\<lambda>dest. memset64_words dest v n (i + 8))
      else Some (dest, i))"
  by pat_completeness auto
termination by (relation "measure (\<lambda>(d, v, n, i). 8 * (n div 8) - i)") auto

function memset64_tail :: "bytes \<Rightarrow> u64 \<Rightarrow> nat \<Rightarrow> nat \<Rightarrow> bytes option" where
  "memset64_tail dest v n i =
     (if i < n
      then Option.bind (wr_bytes dest i [u64_bytes v ! (i mod 8)]) (\<lambda>dest. memset64_tail dest v n (i + 1))
      else Some dest)"
  by pat_completeness auto
termination by (relation "measure (\<lambda>(d, v, n, i). n - i)") auto

declare memset64_words.simps [simp del] memset64_tail.simps [simp del]

definition memset64 :: "bytes \<Rightarrow> u64 \<Rightarrow> nat \<Rightarrow> bytes option" where
  "memset64 dest v n = Option.bind (memset64_words dest v n 0) (\<lambda>(dest, i). memset64_tail dest v n i)"

text \<open>The specification: byte \<open>i\<close> of the pattern repeated.\<close>

definition pattern :: "u64 \<Rightarrow> nat \<Rightarrow> nat \<Rightarrow> bytes" where
  "pattern v i n = map (\<lambda>j. u64_bytes v ! (j mod 8)) [i..<n]"

lemma pattern_step: "i < n \<Longrightarrow> pattern v i n = u64_bytes v ! (i mod 8) # pattern v (Suc i) n"
  by (simp add: pattern_def upt_conv_Cons)

lemma pattern_word:
  assumes "i mod 8 = 0" "i + 8 \<le> n"
  shows "pattern v i n = u64_bytes v @ pattern v (i + 8) n"
proof (rule nth_equalityI)
  show "length (pattern v i n) = length (u64_bytes v @ pattern v (i + 8) n)"
    using assms(2) by (simp add: pattern_def)
next
  fix j assume j: "j < length (pattern v i n)"
  obtain q where q: "i = 8 * q" using assms(1) by auto
  show "pattern v i n ! j = (u64_bytes v @ pattern v (i + 8) n) ! j"
  proof (cases "j < 8")
    case True
    then show ?thesis using j q by (simp add: pattern_def nth_append)
  next
    case False
    then have "i + 8 + (j - 8) = i + j" by simp
    then show ?thesis using False j assms(2) by (simp add: pattern_def nth_append)
  qed
qed

lemma memset64_tail_pattern:
  "i \<le> n \<Longrightarrow> n \<le> length dest \<Longrightarrow>
   memset64_tail dest v n i = Some (take i dest @ pattern v i n @ drop n dest)"
proof (induction dest v n i rule: memset64_tail.induct)
  case (1 dest v n i)
  show ?case
  proof (cases "i < n")
    case True
    let ?d = "take i dest @ [u64_bytes v ! (i mod 8)] @ drop (i + 1) dest"
    have w: "wr_bytes dest i [u64_bytes v ! (i mod 8)] = Some ?d"
      using True 1(3) by (simp add: wr_bytes_def)
    have "memset64_tail ?d v n (i + 1) = Some (take (i + 1) ?d @ pattern v (i + 1) n @ drop n ?d)"
      using 1(1) [OF True w] True 1(3) by simp
    moreover have "take (i + 1) ?d = take i dest @ [u64_bytes v ! (i mod 8)]"
      using True 1(3) by simp
    moreover have "drop n ?d = drop n dest" using True 1(3) by (simp add: drop_Cons')
    ultimately show ?thesis using True w by (subst memset64_tail.simps) (simp add: pattern_step)
  next
    case False
    then show ?thesis using 1(2) by (subst memset64_tail.simps) (simp add: pattern_def)
  qed
qed

lemma memset64_words_pattern:
  "i mod 8 = 0 \<Longrightarrow> i \<le> 8 * (n div 8) \<Longrightarrow> n \<le> length dest \<Longrightarrow>
   memset64_words dest v n i =
     Some (take i dest @ pattern v i (8 * (n div 8)) @ drop (8 * (n div 8)) dest, 8 * (n div 8))"
proof (induction dest v n i rule: memset64_words.induct)
  case (1 dest v n i)
  let ?m = "8 * (n div 8)"
  show ?case
  proof (cases "i < ?m")
    case True
    then have le: "i + 8 \<le> ?m" using 1(2) by presburger
    have mn: "?m \<le> n" by simp
    let ?d = "take i dest @ u64_bytes v @ drop (i + 8) dest"
    have w: "wr_bytes dest i (u64_bytes v) = Some ?d"
      using le mn 1(4) by (simp add: wr_bytes_def)
    have "memset64_words ?d v n (i + 8) =
        Some (take (i + 8) ?d @ pattern v (i + 8) ?m @ drop ?m ?d, ?m)"
      using 1(1) [OF True w] 1(2,4) le mn by simp
    moreover have "take (i + 8) ?d = take i dest @ u64_bytes v" "drop ?m ?d = drop ?m dest"
      using le mn 1(4) by simp_all
    ultimately show ?thesis using True w pattern_word [OF 1(2) le] by (subst memset64_words.simps) simp
  next
    case False
    then show ?thesis using 1(3) by (subst memset64_words.simps) (simp add: pattern_def)
  qed
qed

lemma pattern_append: "i \<le> m \<Longrightarrow> m \<le> n \<Longrightarrow> pattern v i m @ pattern v m n = pattern v i n"
  using upt_add_eq_append [of i m "n - m"] by (simp add: pattern_def flip: map_append)

text \<open>\<open>memset64\<close> fills the object with the pattern, whatever its size, and stays inside it.\<close>

lemma memset64_fills:
  assumes "n \<le> length dest"
  shows "memset64 dest v n = Some (pattern v 0 n @ drop n dest)"
proof -
  let ?m = "8 * (n div 8)"
  have m: "?m \<le> n" by simp
  let ?d = "pattern v 0 ?m @ drop ?m dest"
  have w: "memset64_words dest v n 0 = Some (?d, ?m)" using memset64_words_pattern [of 0 n dest v] assms by simp
  have l: "length (pattern v 0 ?m) = ?m" by (simp add: pattern_def)
  have "memset64_tail ?d v n ?m = Some (take ?m ?d @ pattern v ?m n @ drop n ?d)"
    using assms m l by (intro memset64_tail_pattern) simp_all
  then show ?thesis using w l m pattern_append [of 0 ?m n v] by (simp add: memset64_def)
qed

section \<open>Binding a Unix socket\<close>

datatype unix_event = Socket_unix | Bind_unix int bytes

record unix_env =
  ue_socket :: int
  ue_bind :: int

definition UNIX_PATH_MAX :: nat where "UNIX_PATH_MAX = 108"

text \<open>The address is the zeroed structure with the path in front; the terminator is only there if the path
  is shorter than the field.\<close>

definition bindUnixSocket :: "unix_env \<Rightarrow> bytes \<Rightarrow> int \<times> unix_event list" where
  "bindUnixSocket env path =
     (if length path > UNIX_PATH_MAX then (- 1, [])
      else
        let sun_path = path @ replicate (UNIX_PATH_MAX - length path) 0;
            sock = ue_socket env in
        if sock = - 1 then (- 1, [Socket_unix])
        else if ue_bind env = - 1 then (- 1, [Socket_unix, Bind_unix sock sun_path])
        else (sock, [Socket_unix, Bind_unix sock sun_path]))"

text \<open>A name always fits the field, but one of full length is bound without a terminator, and a
  socket that cannot be bound stays open.\<close>

lemma bindUnixSocket_paths:
  assumes "bindUnixSocket env path = (r, es)" "Bind_unix s p \<in> set es"
  shows "length p = UNIX_PATH_MAX" "take (length path) p = path" "0 \<in> set p \<or> length path = UNIX_PATH_MAX"
    "r = - 1 \<longrightarrow> ue_bind env = - 1 \<or> s = - 1"
  using assms by (auto simp: bindUnixSocket_def Let_def split: if_splits)

end
