(* ===== verification/Spec2Isabelle.thy ===== *)
theory Spec2Isabelle
  imports Queues IpSum IpPacket Routes Routes6 Masquerade RouterSafe Polling NatLinks
    UsernatdProps MtpArgs PptpProps L2tpProps L2tpAuth MtpdSafe CharonProps Helpers
begin

text \<open>
  The native core of a VPN client for Android: the router and the IPsec client under
  \<open>src/ConfProfile/jni/ocpa\<close>, the helper process of the NAT under \<open>usernat\<close> and the PPP daemon for
  PPTP and L2TP under \<open>mtpd\<close>.

  \<^bold>\<open>The program.\<close> The Java part owns a router object. A thread of Java runs \<open>routerLoop\<close>, which polls
  the TUN device and the tunnels of the router, reads IP packets and passes them on: a packet
  of the device goes to the tunnel of the longest matching route, a packet of a tunnel goes to
  the device. On the way a packet is parsed, its source or destination may be replaced
  (masquerading, DNS translation) and its checksums are computed again. A tunnel is a
  reference-counted object with a socket pair to a VPN implementation (IPsec, L2TP, OpenVPN); the
  NAT is a tunnel of its own that sends every connection through a relay, a child of the helper
  process \<open>usernat\<close>, which gets its commands and descriptors over a Unix socket. An L2TP or PPTP
  tunnel is negotiated by the daemon \<open>mtpd\<close>: it talks to the server, and once a session is up it
  starts \<open>pppd\<close> on it, with the arguments in an environment variable. An IPsec tunnel is negotiated
  by strongSwan's IKE daemon inside the process: \<open>strongswan.c\<close> starts and stops the daemon and makes the
  calls to Java, and the backend listens to the daemon's bus, opens the tunnel when a CHILD SA
  comes up, supplies the credentials and passes packets between the tunnel and libipsec.

  \<^bold>\<open>The theories.\<close>

    \<^item> \<open>Prelude\<close>: the option monad, bytes in network order, reading and writing of fields in a
      buffer.
    \<^item> \<open>Queues\<close>: \<open>queues.c\<close>, the packet queue on the C heap, with the locale \<open>fifo\<close>.
    \<^item> \<open>IpSum\<close>: the checksums of \<open>iputils.c\<close> against one's complement sums of numbers.
    \<^item> \<open>IpPacket\<close>: the packet descriptor of \<open>iputils.h\<close> and the parser.
    \<^item> \<open>Routes\<close>, \<open>Routes6\<close>: the address tests of \<open>iputils.c\<close> and the sorted route lists inside
      \<open>route4\<close>, \<open>route6\<close>, \<open>unroute4\<close>, \<open>unroute6\<close>, \<open>send4\<close> and \<open>send6\<close> of \<open>router.c\<close>, with the
      locale \<open>route_table\<close>.
    \<^item> \<open>World\<close>: the records of \<open>tun_private.h\<close>, \<open>tun_usernat.c\<close>, \<open>pcap_output.h\<close> and \<open>router.h\<close>, the
      state (the live objects by address and the history of calls to the system) and the
      environment that answers those calls.
    \<^item> \<open>Tun\<close>: \<open>tun.c\<close>, \<open>tun_dev_tun.c\<close>, \<open>tun_ipsec.c\<close>, \<open>tun_l2tp.c\<close>, \<open>tun_openvpn.c\<close>, \<open>refs.h\<close>,
      \<open>pcap_output.c\<close>, \<open>java_VpnTunnel.c\<close> and \<open>java_UsernatTunnel.c\<close>; \<open>Masquerade\<close> and \<open>Refs\<close>
      hold its properties, the latter with the locale \<open>refcounted\<close>.
    \<^item> \<open>UserNat\<close>: \<open>tun_usernat.c\<close>; \<open>NatProps\<close> and \<open>NatLinks\<close> hold its properties.
    \<^item> \<open>Router\<close>, \<open>RouterLoop\<close>: the router object, the polling of descriptors and the native
      methods of \<open>jni_*.c\<close>; \<open>RouterSafe\<close> and \<open>Polling\<close> hold their properties.
    \<^item> \<open>Usernatd\<close>: \<open>usernat/usernat.c\<close>, commands, descriptors and the relay; \<open>UsernatdProps\<close> holds its
      properties.
    \<^item> \<open>Mtp\<close>: what the protocols of \<open>mtpd\<close> share (socket to the server, start and stop of \<open>pppd\<close>) and
      the decoding of arguments in \<open>pppd/main.c\<close>; \<open>MtpArgs\<close> is the round trip of the arguments.
    \<^item> \<open>Pptp\<close>, \<open>L2tp\<close>: \<open>mtpd/pptp.c\<close> and \<open>mtpd/l2tp.c\<close>; \<open>PptpProps\<close>, \<open>L2tpProps\<close> and \<open>L2tpAuth\<close> hold
      properties of the messages, of the states and of the challenge, \<open>MtpQuiet\<close> the operations
      that start no process.
    \<^item> \<open>Mtpd\<close>: \<open>mtpd/mtpd.c\<close>; \<open>MtpdProps\<close> has the contract of \<open>struct protocol\<close> as the locale
      \<open>protocol_client\<close>, with the daemon's safety proved inside it, and \<open>MtpdSafe\<close> interprets it
      for both protocols.

    \<^item> \<open>CharonBase\<close>: the state that \<open>strongswan.c\<close> and its backend share with the IKE daemon (record
      \<open>charon\<close>), the environment \<open>cenv\<close> and the methods of \<open>charonservice\<close> that call Java, with
      \<open>backend/android_private_key.c\<close>.
    \<^item> \<open>AndroidNet\<close>: \<open>kernel/network_manager.c\<close> and \<open>kernel/android_net.c\<close>, with the filter \<open>debounce\<close> as
      their specification.
    \<^item> \<open>AndroidCreds\<close>: \<open>backend/android_creds.c\<close> and \<open>backend/android_attr.c\<close>.
    \<^item> \<open>AndroidService\<close>: \<open>backend/android_service.c\<close> and the part of strongSwan's \<open>bus.c\<close> that calls it.
    \<^item> \<open>Charon\<close>: the life of the daemon in \<open>strongswan.c\<close> and the operations of the running daemon.
      \<open>CharonSafe\<close> holds equations, \<open>CharonInv\<close> the invariant with the contract of a listener as the
      locale \<open>bus_listener\<close>, \<open>CharonRun\<close> its preservation by runs, \<open>CharonLife\<close> the balance of start
      and stop, and \<open>CharonProps\<close> the properties.
    \<^item> \<open>Helpers\<close>: \<open>android_jni.c\<close> (attachment of threads), \<open>util.c\<close> and \<open>jni_NetUtils.c\<close>.

  \<^bold>\<open>Conventions.\<close> A result \<open>None\<close> is a fault of the C code (an access outside of a buffer, a null or
  stale pointer, an undefined shift) or a loop that does not end. Addresses are numbers, 0 is
  \<open>NULL\<close>; \<open>malloc\<close> returns addresses that were never used before or 0, as the environment says.
  Machine integers are words of their width. Loops that may not end are
  \<open>partial_function (option)\<close>, so a theorem that gives a result also says that the loop ends; no
  fuel is used. A critical section under a lock is one step; in the IPsec client the locks are
  counted as well, and a conflict is a fault. What strongSwan, Java and the system answer there is
  a function of the trace of events, so the theorems hold for every answer.

  \<^bold>\<open>What is shown.\<close> The queue is a FIFO and its release frees all of it. The checksum routines
  make packets verify, except for the UDP routine over IPv6. The IPv4 route list is a map
  from prefixes, and the lookup finds the longest matching prefix where nested prefixes do
  not hide each other. Counting of references is exact; the calls of Java on the router
  never reach a freed tunnel, and a removed tunnel is forgotten. A connection through the NAT
  looks direct to both sides; waiting packets are delivered in order. Commands to the helper
  process arrive as sent, and its relay hands on what it reads. The arguments of \<open>pppd\<close> survive
  their coding. PPTP messages are assembled whatever pieces they come in; L2TP messages read back
  as written, are handled once, and a tunnel with a secret comes up only after the right
  response. The daemon never faults on what a server sends and leaves no \<open>pppd\<close> behind, given that
  the random numbers do not stay zero and the arguments of \<open>pppd\<close> fit into their buffer.
  The IKE daemon comes up and goes down in balance: whatever Java, the peer and the
  threads do in between, no freed service is reached, and all references to tunnels are
  given back. A connection that comes up opens the device once Java accepted its addresses and
  routes, one that goes down closes it for good, and changes of the network are debounced without
  losing one. Further theorems state
  where the code departs from this: the second connection that frees the first one under its jobs, the lookup behind a longer prefix that does not match,
  the stale IP version, the byte order of the IPv6 length, the spinning of
  \<open>rebuild_epoll_struct\<close>, the leak of sockets, the connection loop of \<open>mtpd\<close> without an exit.

  \<^bold>\<open>Not modelled.\<close> Logging, \<open>errno\<close> and the locks themselves; \<open>rebuild_poll_struct\<close>, \<open>log_dump_packet2\<close>
  and \<open>java_MiscUtils.c\<close> (unused); the branches of \<open>mtpd\<close> for \<open>ANDROID_CHANGES\<close>, which the build does
  not set; MD5, which is a parameter; \<open>JNI_OnLoad\<close>, which looks up classes; \<open>kernel/android_ipsec.c\<close>,
  whose methods hand their arguments to libipsec; the byod plugin under \<open>ocpa/byod\<close>, which the
  build leaves out; the constants in the configuration of a connection; the Java code; and the
  vendored packages (strongSwan beyond the functions named above, OpenVPN, OpenSSL, LZO, snappy,
  pppd). strongSwan's \<open>INIT\<close> does not test \<open>malloc\<close>, so there allocations succeed.
\<close>

end
